(* ===== verification/Prelude.thy ===== *)
theory Prelude
  imports Main "HOL-Library.Sublist"
begin

text \<open>
  Shared vocabulary of the development: the JavaScript string operations the sources use
  (\<open>toLowerCase\<close>, \<open>startsWith\<close>/\<open>endsWith\<close>/\<open>includes\<close>, \<open>trim\<close>, \<open>String(n)\<close>),
  each as an executable function with the lemma that links it to the library notion
  (\<^const>\<open>prefix\<close>, \<^const>\<open>suffix\<close>, \<^const>\<open>sublist\<close> of HOL-Library.Sublist), and the
  decimal printing of naturals with its parse-back lemma. A JavaScript string is a
  \<^typ>\<open>string\<close> (a list of 8-bit \<^typ>\<open>char\<close>s); case mapping is the ASCII one, which is
  what \<open>toLowerCase\<close> does on every ASCII input.
\<close>

named_theorems str_simps "evaluation rules of the string helpers"
named_theorems js_simps "rules of the JavaScript exception-state combinators"
named_theorems eval_simps "definitions unfolded to evaluate the model on concrete inputs"

type_synonym path = string

subsection \<open>Characters\<close>

definition lower_char :: "char \<Rightarrow> char" where
  "lower_char c =
     (let n = (of_char c :: nat) in if 65 \<le> n \<and> n \<le> 90 then char_of (n + 32) else c)"

definition lower :: "string \<Rightarrow> string" where
  "lower s = map lower_char s"

definition is_js_space :: "char \<Rightarrow> bool" where
  \<comment> \<open>white space and line terminators of JavaScript (\<open>\s\<close> of a regular expression,
     \<open>String.prototype.trim\<close>) in the 8-bit range: tab to carriage return, space and the
     no-break space U+00A0\<close>
  "is_js_space c \<longleftrightarrow> (let n = (of_char c :: nat) in n = 32 \<or> (9 \<le> n \<and> n \<le> 13) \<or> n = 160)"

definition js_trim :: "string \<Rightarrow> string" where
  "js_trim s = rev (dropWhile is_js_space (rev (dropWhile is_js_space s)))"

definition is_digit :: "char \<Rightarrow> bool" where
  "is_digit c \<longleftrightarrow> (let n = (of_char c :: nat) in 48 \<le> n \<and> n \<le> 57)"

definition digit_val :: "char \<Rightarrow> nat" where
  "digit_val c = of_char c - 48"

definition dec_digit :: "nat \<Rightarrow> char" where
  "dec_digit d = char_of (48 + d)"

subsection \<open>Prefix, suffix, substring\<close>

fun starts_with :: "'a list \<Rightarrow> 'a list \<Rightarrow> bool" where
  "starts_with s [] = True"
| "starts_with [] (c # cs) = False"
| "starts_with (x # xs) (c # cs) = (x = c \<and> starts_with xs cs)"

definition ends_with :: "'a list \<Rightarrow> 'a list \<Rightarrow> bool" where
  "ends_with s t = starts_with (rev s) (rev t)"

fun js_includes :: "'a list \<Rightarrow> 'a list \<Rightarrow> bool" where
  "js_includes [] t = (t = [])"
| "js_includes (x # xs) t = (starts_with (x # xs) t \<or> js_includes xs t)"

text \<open>\<open>Array.prototype.join(sep)\<close> on an array of strings.\<close>

fun js_join :: "string \<Rightarrow> string list \<Rightarrow> string" where
  "js_join sep [] = []"
| "js_join sep [w] = w"
| "js_join sep (w # ws) = w @ sep @ js_join sep ws"

subsection \<open>Decimal numerals\<close>

text \<open>\<open>String(n)\<close> for a non-negative integer \<open>n\<close>, and the value of a digit string.\<close>

fun show_nat :: "nat \<Rightarrow> string" where
  "show_nat n = (if n < 10 then [dec_digit n] else show_nat (n div 10) @ [dec_digit (n mod 10)])"

definition digits_val :: "string \<Rightarrow> nat" where
  "digits_val s = foldl (\<lambda>acc c. 10 * acc + digit_val c) 0 s"

declare show_nat.simps [simp del]

lemmas char_defs [eval_simps] = lower_char_def is_js_space_def is_digit_def digit_val_def
  dec_digit_def lower_def char_of_eq_iff digits_val_def

subsection \<open>Lemmas\<close>

lemma starts_with_prefix [str_simps]: "starts_with s t \<longleftrightarrow> prefix t s"
  by (induction s t rule: starts_with.induct) auto

lemma ends_with_suffix [str_simps]: "ends_with s t \<longleftrightarrow> suffix t s"
  by (simp add: ends_with_def starts_with_prefix suffix_to_prefix)

lemma includes_sublist [str_simps]: "js_includes s t \<longleftrightarrow> sublist t s"
  by (induction s) (auto simp: starts_with_prefix sublist_Cons_right)

lemma of_char_lower_char:
  "(of_char (lower_char c) :: nat) =
     (if 65 \<le> (of_char c :: nat) \<and> (of_char c :: nat) \<le> 90 then of_char c + 32 else of_char c)"
  by (simp add: lower_char_def Let_def)

lemma lower_char_idem [simp]: "lower_char (lower_char c) = lower_char c"
proof -
  have "of_char c < (256::nat)" by (rule nat_of_char_less_256)
  then show ?thesis
    by (auto simp: lower_char_def Let_def)
qed

lemma lower_idem [simp]: "lower (lower s) = lower s"
  by (simp add: lower_def)

lemma lower_append [simp]: "lower (s @ t) = lower s @ lower t"
  by (simp add: lower_def)

lemma lower_Cons [simp]: "lower (c # s) = lower_char c # lower s"
  by (simp add: lower_def)

lemma lower_Nil [simp]: "lower [] = []"
  by (simp add: lower_def)

lemma length_lower [simp]: "length (lower s) = length s"
  by (simp add: lower_def)

lemma digit_val_dec_digit [simp]: "d < 10 \<Longrightarrow> digit_val (dec_digit d) = d"
  by (simp add: digit_val_def dec_digit_def)

lemma is_digit_dec_digit [simp]: "d < 10 \<Longrightarrow> is_digit (dec_digit d)"
  by (simp add: is_digit_def dec_digit_def)

lemma digits_val_snoc [simp]: "digits_val (s @ [c]) = 10 * digits_val s + digit_val c"
  by (simp add: digits_val_def)

lemma show_nat_digits_val [simp]: "digits_val (show_nat n) = n"
proof (induction n rule: show_nat.induct)
  case (1 n)
  show ?case
  proof (cases "n < 10")
    case True
    then show ?thesis by (simp add: show_nat.simps [of n] digits_val_def)
  next
    case False
    with "1.IH" show ?thesis by (simp add: show_nat.simps [of n])
  qed
qed

lemma show_nat_all_digits [simp]: "\<forall>c \<in> set (show_nat n). is_digit c"
proof (induction n rule: show_nat.induct)
  case (1 n)
  then show ?case by (subst show_nat.simps) auto
qed

lemma find_SomeD: "find P xs = Some x \<Longrightarrow> x \<in> set xs \<and> P x"
  by (induction xs) (auto split: if_splits)

lemma find_unique:
  assumes "\<forall>x \<in> set xs. P x \<longrightarrow> x = d"
  shows "find P xs = (if d \<in> set xs \<and> P d then Some d else None)"
  using assms
proof (induction xs)
  case Nil
  then show ?case by simp
next
  case (Cons x xs)
  show ?case
  proof (cases "P x")
    case True
    with Cons.prems have "x = d" by simp
    with True show ?thesis by simp
  next
    case False
    with Cons.prems have "find P xs = (if d \<in> set xs \<and> P d then Some d else None)"
      by (intro Cons.IH) simp
    with False show ?thesis by (cases "x = d") auto
  qed
qed

lemma find_append_eq: "find P (xs @ ys) = (case find P xs of None \<Rightarrow> find P ys | Some x \<Rightarrow> Some x)"
  by (induction xs) auto

lemma length_takeWhile_less: "x \<in> set xs \<Longrightarrow> \<not> P x \<Longrightarrow> length (takeWhile P xs) < length xs"
  by (induction xs) auto

lemma takeWhile_append_stop:
  "xs \<noteq> [] \<Longrightarrow> \<not> P (last xs) \<Longrightarrow> takeWhile P (xs @ ys) = takeWhile P xs"
  by (simp add: takeWhile_append1 [where x = "last xs"])

lemma take_takeWhile_eq:
  "m \<le> length (takeWhile P s) \<or> (\<forall>c \<in> set (take m s). P c) \<Longrightarrow> take m (takeWhile P s) = take m s"
  by (induction s arbitrary: m) (auto simp: take_Cons split: nat.splits if_splits)

lemma drop_takeWhile_eq:
  "k \<le> length (takeWhile P s) \<Longrightarrow> takeWhile P (drop k s) = drop k (takeWhile P s)"
  by (induction s arbitrary: k) (auto simp: drop_Cons split: nat.splits)

lemma suffix_Cons_same:
  "suffix (c # a) (c # b) \<Longrightarrow> a = b \<or> suffix (c # a) b"
  by (auto simp: suffix_def Cons_eq_append_conv)

lemma bare_match_unique:
  assumes "h = d1 \<or> suffix (c # d1) h" and "h = d2 \<or> suffix (c # d2) h"
  shows "d1 = d2 \<or> suffix (c # d1) d2 \<or> suffix (c # d2) d1"
proof -
  consider "h = d1" "h = d2" | "h = d1" "suffix (c # d2) h" | "suffix (c # d1) h" "h = d2"
    | "suffix (c # d1) h" "suffix (c # d2) h"
    using assms by blast
  then show ?thesis
  proof cases
    case 4
    then have "suffix (c # d1) (c # d2) \<or> suffix (c # d2) (c # d1)" by (rule suffix_same_cases)
    then show ?thesis by (auto dest: suffix_Cons_same)
  qed auto
qed
lemma show_nat_not_Nil [simp]: "show_nat n \<noteq> []"
  by (subst show_nat.simps) simp

lemma hd_show_nat_zero: "hd (show_nat n) = CHR ''0'' \<Longrightarrow> n = 0"
proof (induction n rule: show_nat.induct)
  case (1 n)
  show ?case
  proof (cases "n < 10")
    case True
    with "1.prems" show ?thesis
      by (simp add: show_nat.simps [of n] dec_digit_def char_of_eq_iff take_bit_nat_eq_self)
  next
    case False
    with "1.prems" have "hd (show_nat (n div 10)) = CHR ''0''" by (simp add: show_nat.simps [of n])
    with "1.IH" False have "n div 10 = 0" by simp
    with False show ?thesis by simp
  qed
qed


lemma show_nat_zero: "show_nat 0 = ''0''"
  by (simp add: show_nat.simps dec_digit_def char_of_eq_iff)


lemma takeWhile_digits_append:
  "\<forall>c \<in> set ds. is_digit c \<Longrightarrow> \<not> is_digit x \<Longrightarrow> takeWhile is_digit (ds @ x # r) = ds"
  by (induction ds) auto


lemma dropWhile_digits_append:
  "\<forall>c \<in> set ds. is_digit c \<Longrightarrow> \<not> is_digit x \<Longrightarrow> dropWhile is_digit (ds @ x # r) = x # r"
  by (induction ds) auto


lemma count_list_concat_replicate: "count_list (concat (replicate n xs)) x = n * count_list xs x"
  by (induction n) simp_all

lemma find_Some_ex_iff: "(\<exists>y. find P xs = Some y) \<longleftrightarrow> (\<exists>x \<in> set xs. P x)"
  by (induction xs) auto

end
