(* ===== verification/Url.thy ===== *)
theory Url
  imports Prelude
begin

text \<open>
  A model of the part of the WHATWG URL parser (\<open>new URL(s)\<close> of Node.js) that
  \<open>getBlockedDomain\<close> of \<open>src/security.ts\<close> reads: the scheme, the \<open>hostname\<close> and the
  \<open>pathname\<close> of an absolute URL, and whether parsing throws. It is a library the sources
  call, so it is modelled from the URL standard, not from the repository. Modelled: the
  stripping of leading and trailing C0 controls and spaces and the removal of tabs and
  newlines; the scheme; for the special schemes (http, https, ws, wss, ftp, file) the
  skipping of any run of slashes and backslashes before the authority, the user-info
  (everything up to the last \<open>@\<close>), the port (digits up to 65535, else an error), the
  percent-decoding and ASCII lowercasing of the host, the forbidden domain code points
  (an error), the empty host (an error), backslashes as path separators and the removal
  of \<open>.\<close> and \<open>..\<close> path segments; for other schemes an opaque host after \<open>//\<close> or
  none. Not modelled: IDNA mapping of non-ASCII hosts, IPv4 number normalisation,
  bracketed IPv6 hosts (an error here; in the standard a host that no blocklist entry can
  match), the percent-encoding of path characters (it never creates or destroys a match
  with an entry made of letters, dots and slashes).
\<close>

record url =
  scheme :: string
  hostname :: string
  url_port :: string
  pathname :: string

definition chr_code :: "char \<Rightarrow> nat" where
  "chr_code c = of_char c"

definition is_c0_or_space :: "char \<Rightarrow> bool" where
  "is_c0_or_space c \<longleftrightarrow> chr_code c \<le> 32"

definition is_tab_or_newline :: "char \<Rightarrow> bool" where
  "is_tab_or_newline c \<longleftrightarrow> chr_code c \<in> {9, 10, 13}"

definition is_alpha :: "char \<Rightarrow> bool" where
  "is_alpha c \<longleftrightarrow> (65 \<le> chr_code c \<and> chr_code c \<le> 90) \<or> (97 \<le> chr_code c \<and> chr_code c \<le> 122)"

definition is_scheme_char :: "char \<Rightarrow> bool" where
  "is_scheme_char c \<longleftrightarrow> is_alpha c \<or> is_digit c \<or> c \<in> set ''+-.''"

definition is_hex :: "char \<Rightarrow> bool" where
  "is_hex c \<longleftrightarrow> is_digit c \<or> c \<in> set ''abcdefABCDEF''"

definition hex_val :: "char \<Rightarrow> nat" where
  "hex_val c = (if is_digit c then digit_val c else chr_code (lower_char c) - 87)"

definition forbidden_host_cp :: "char \<Rightarrow> bool" where
  "forbidden_host_cp c \<longleftrightarrow>
     chr_code c \<in> {0, 9, 10, 13, 32} \<or> c \<in> set ''#/:<>?@[]^|'' \<or> chr_code c = 92"

definition forbidden_domain_cp :: "char \<Rightarrow> bool" where
  "forbidden_domain_cp c \<longleftrightarrow>
     forbidden_host_cp c \<or> chr_code c \<le> 31 \<or> c = CHR ''%'' \<or> chr_code c = 127"

definition is_slash :: "char \<Rightarrow> bool" where
  "is_slash c \<longleftrightarrow> c = CHR ''/'' \<or> chr_code c = 92"

definition special_schemes :: "string list" where
  "special_schemes = [''http'', ''https'', ''ws'', ''wss'', ''ftp'', ''file'']"

definition strip_c0 :: "string \<Rightarrow> string" where
  "strip_c0 s = rev (dropWhile is_c0_or_space (rev (dropWhile is_c0_or_space s)))"

definition split_scheme :: "string \<Rightarrow> (string \<times> string) option" where
  "split_scheme s =
     (let sch = takeWhile is_scheme_char s; rest = dropWhile is_scheme_char s in
      if sch \<noteq> [] \<and> is_alpha (hd sch) \<and> rest \<noteq> [] \<and> hd rest = CHR '':''
      then Some (lower sch, tl rest) else None)"

fun percent_decode :: "string \<Rightarrow> string" where
  "percent_decode (c # h1 # h2 # cs) =
     (if c = CHR ''%'' \<and> is_hex h1 \<and> is_hex h2
      then char_of (16 * hex_val h1 + hex_val h2) # percent_decode cs
      else c # percent_decode (h1 # h2 # cs))"
| "percent_decode cs = cs"

definition after_last_at :: "string \<Rightarrow> string" where
  "after_last_at a = rev (takeWhile (\<lambda>c. c \<noteq> CHR ''@'') (rev a))"

definition valid_port :: "string \<Rightarrow> bool" where
  "valid_port p \<longleftrightarrow> (\<forall>c \<in> set p. is_digit c) \<and> digits_val p \<le> 65535"

text \<open>The host of a special URL is decoded and lowercased; an opaque host is kept as written.\<close>

definition host_parse :: "bool \<Rightarrow> string \<Rightarrow> string option" where
  "host_parse special h =
     (if special then
        (let d = lower (percent_decode h) in
         if \<exists>c \<in> set d. forbidden_domain_cp c then None else Some d)
      else if \<exists>c \<in> set h. forbidden_host_cp c then None else Some h)"

definition host_port_parse :: "bool \<Rightarrow> string \<Rightarrow> (string \<times> string) option" where
  "host_port_parse special auth =
     (let hp = after_last_at auth;
          h = takeWhile (\<lambda>c. c \<noteq> CHR '':'') hp;
          p = drop 1 (dropWhile (\<lambda>c. c \<noteq> CHR '':'') hp) in
      if CHR '':'' \<in> set hp \<and> \<not> valid_port p then None
      else map_option (\<lambda>h'. (h', p)) (host_parse special h))"

fun split_on :: "char \<Rightarrow> string \<Rightarrow> string list" where
  "split_on d [] = [[]]"
| "split_on d (c # cs) =
     (let ws = split_on d cs in if c = d then [] # ws else (c # hd ws) # tl ws)"

definition is_single_dot :: "string \<Rightarrow> bool" where
  "is_single_dot s \<longleftrightarrow> lower s \<in> {''.'', ''%2e''}"

definition is_double_dot :: "string \<Rightarrow> bool" where
  "is_double_dot s \<longleftrightarrow> lower s \<in> {''..'', ''.%2e'', ''%2e.'', ''%2e%2e''}"

text \<open>The path state of the standard: \<open>acc\<close> is the path so far, last segment first.\<close>

fun norm_segs :: "string list \<Rightarrow> string list \<Rightarrow> string list" where
  "norm_segs acc [] = rev acc"
| "norm_segs acc (s # ss) =
     (if is_double_dot s then norm_segs (if ss = [] then [] # drop 1 acc else drop 1 acc) ss
      else if is_single_dot s then norm_segs (if ss = [] then [] # acc else acc) ss
      else norm_segs (s # acc) ss)"

definition path_of :: "bool \<Rightarrow> string \<Rightarrow> string" where
  "path_of special r =
     (let p0 = takeWhile (\<lambda>c. c \<noteq> CHR ''?'' \<and> c \<noteq> CHR ''#'') r;
          p = (if special then map (\<lambda>c. if is_slash c then CHR ''/'' else c) p0 else p0) in
      if p = [] then (if special then ''/'' else [])
      else if hd p = CHR ''/'' then ''/'' @ js_join ''/'' (norm_segs [] (split_on CHR ''/'' (tl p)))
      else p)"

definition mk_url :: "string \<Rightarrow> string \<Rightarrow> string \<Rightarrow> string \<Rightarrow> url" where
  "mk_url sch h p path = \<lparr>scheme = sch, hostname = h, url_port = p, pathname = path\<rparr>"

definition parse_authority :: "bool \<Rightarrow> string \<Rightarrow> string \<Rightarrow> url option" where
  "parse_authority special sch r =
     (let delim = (\<lambda>c. c \<in> set ''?#'' \<or> (if special then is_slash c else c = CHR ''/''));
          auth = takeWhile (Not \<circ> delim) r; rest = dropWhile (Not \<circ> delim) r in
      case host_port_parse special auth of
        None \<Rightarrow> None
      | Some (h, p) \<Rightarrow>
          if special \<and> sch \<noteq> ''file'' \<and> h = [] then None
          else Some (mk_url sch h p (path_of special rest)))"

definition url_parse :: "string \<Rightarrow> url option" where
  "url_parse input =
     (let s = filter (Not \<circ> is_tab_or_newline) (strip_c0 input) in
      case split_scheme s of
        None \<Rightarrow> None
      | Some (sch, rest) \<Rightarrow>
          if sch \<in> set special_schemes \<and> sch \<noteq> ''file'' then
            parse_authority True sch (dropWhile is_slash rest)
          else if take 2 rest = ''//'' \<or> (sch = ''file'' \<and> length (takeWhile is_slash rest) \<ge> 2) then
            parse_authority (sch = ''file'') sch (drop 2 rest)
          else Some (mk_url sch [] [] (path_of (sch = ''file'') rest)))"

lemmas url_defs [eval_simps] = url_parse_def parse_authority_def host_port_parse_def host_parse_def
  split_scheme_def strip_c0_def path_of_def mk_url_def after_last_at_def valid_port_def
  is_c0_or_space_def is_tab_or_newline_def is_alpha_def is_scheme_char_def is_hex_def
  hex_val_def forbidden_host_cp_def forbidden_domain_cp_def is_slash_def special_schemes_def
  is_single_dot_def is_double_dot_def chr_code_def

end
