(* ===== verification/Blocklist.thy ===== *)
theory Blocklist
  imports Url "HOL-Library.Sublist" Complex_Main
begin

text \<open>
  The domain blocklist of \<open>src/security.ts\<close> (lines 430--591 of \<open>src/src/cli.ts\<close>, where
  the module is stored after \<open>cli.ts\<close>): the list \<open>BLOCKED_DOMAINS\<close>, the matcher
  \<open>getBlockedDomain\<close>, the scan of free text for URLs \<open>actionReferencesBlockedDomain\<close>,
  the runtime mutations \<open>addBlockedDomain\<close> and \<open>removeBlockedDomain\<close>, the port generator
  \<open>getRandomCdpPort\<close> and the list \<open>PROFILE_EXCLUDED_FILES\<close>. The module-level array is
  the explicit argument \<open>bl\<close> of the matchers and the result of the mutations.
\<close>

subsection \<open>Data\<close>

definition BLOCKED_DOMAINS :: "string list" where
  "BLOCKED_DOMAINS = [
     ''chase.com'', ''bankofamerica.com'', ''wellsfargo.com'', ''citi.com'', ''citibank.com'',
     ''capitalone.com'', ''usbank.com'', ''pnc.com'', ''schwab.com'', ''fidelity.com'',
     ''vanguard.com'', ''tdameritrade.com'', ''etrade.com'', ''robinhood.com'', ''coinbase.com'',
     ''binance.com'', ''kraken.com'', ''paypal.com'', ''venmo.com'', ''zelle.com'', ''wise.com'',
     ''mercury.com'', ''brex.com'', ''stripe.com/dashboard'',
     ''mail.google.com'', ''outlook.live.com'', ''outlook.office.com'', ''mail.yahoo.com'',
     ''proton.me'', ''protonmail.com'',
     ''mychart.com'', ''mychartonline.com'', ''portal.anthem.com'', ''uhc.com'', ''cigna.com'',
     ''aetna.com'', ''kaiser.permanente.org'',
     ''irs.gov'', ''ssa.gov'', ''id.me'', ''login.gov'']"

definition PROFILE_EXCLUDED_FILES :: "string list" where
  "PROFILE_EXCLUDED_FILES = [''Login Data'', ''Login Data-journal'', ''Login Data For Account'',
     ''Login Data For Account-journal'', ''Web Data'', ''Web Data-journal'']"

subsection \<open>Matching one URL\<close>

text \<open>The body of the loop of \<open>getBlockedDomain\<close>: an entry with a slash is matched by
  substring on host and path, any other by equality or by suffix after a dot.\<close>

definition entry_matches :: "string \<Rightarrow> string \<Rightarrow> string \<Rightarrow> bool" where
  "entry_matches host fullPath domain =
     (if CHR ''/'' \<in> set domain then js_includes fullPath domain
      else host = domain \<or> ends_with host (CHR ''.'' # domain))"

definition getBlockedDomain :: "string list \<Rightarrow> string \<Rightarrow> string option" where
  "getBlockedDomain bl url =
     (case url_parse url of
        None \<Rightarrow> None
      | Some u \<Rightarrow>
          (let host = lower (hostname u); fullPath = host @ pathname u
           in find (entry_matches host fullPath) bl))"

text \<open>JavaScript truthiness of the \<open>string | null\<close> results: the empty string is falsy.\<close>

definition js_truthy :: "string option \<Rightarrow> bool" where
  "js_truthy r \<longleftrightarrow> (case r of None \<Rightarrow> False | Some d \<Rightarrow> d \<noteq> [])"

subsection \<open>Scanning free text for URLs\<close>

text \<open>The regular expression \<open>/https?:\/\/[^\s"'<>]+/gi\<close>: the characters a match may
  contain after the scheme, the length of a match at the start of a string (the optional
  \<open>s\<close> is tried first; the two alternatives exclude each other), and the global match,
  which restarts after each match and otherwise moves on by one character.\<close>

definition url_token_char :: "char \<Rightarrow> bool" where
  "url_token_char c \<longleftrightarrow> \<not> is_js_space c \<and> (of_char c :: nat) \<notin> {0x22, 0x27, 0x3C, 0x3E}"

definition scheme_len :: "string \<Rightarrow> nat" where
  "scheme_len s =
     (if lower (take 8 s) = ''https://'' then 8 else if lower (take 7 s) = ''http://'' then 7 else 0)"

definition url_match_len :: "string \<Rightarrow> nat option" where
  "url_match_len s =
     (let k = scheme_len s; t = takeWhile url_token_char (drop k s)
      in if k = 0 \<or> t = [] then None else Some (k + length t))"

function extract_urls :: "string \<Rightarrow> string list" where
  "extract_urls [] = []"
| "extract_urls (c # cs) =
     (case url_match_len (c # cs) of
        Some n \<Rightarrow> take n (c # cs) # extract_urls (drop n (c # cs))
      | None \<Rightarrow> extract_urls cs)"
  by pat_completeness auto
termination
proof (relation "measure length")
  fix c cs n
  assume "url_match_len (c # cs) = Some n"
  then have "0 < n" by (auto simp: url_match_len_def Let_def split: if_splits)
  then show "(drop n (c # cs), c # cs) \<in> measure length" by simp
qed auto

fun first_blocked :: "string list \<Rightarrow> string list \<Rightarrow> string option" where
  "first_blocked bl [] = None"
| "first_blocked bl (u # us) =
     (let blocked = getBlockedDomain bl u in
      if js_truthy blocked then blocked else first_blocked bl us)"

definition actionReferencesBlockedDomain :: "string list \<Rightarrow> string \<Rightarrow> string option" where
  "actionReferencesBlockedDomain bl action = first_blocked bl (extract_urls action)"

subsection \<open>Runtime mutations\<close>

text \<open>\<open>domain.toLowerCase().replace(/^https?:\/\//, '').replace(/\/+$/, '')\<close>\<close>

definition normalize_domain :: "string \<Rightarrow> string" where
  "normalize_domain d =
     (let l = lower d;
          s = (if take 8 l = ''https://'' then drop 8 l
               else if take 7 l = ''http://'' then drop 7 l else l)
      in rev (dropWhile (\<lambda>c. c = CHR ''/'') (rev s)))"

definition addBlockedDomain :: "string list \<Rightarrow> string \<Rightarrow> string list" where
  "addBlockedDomain bl d = (let n = normalize_domain d in if n \<in> set bl then bl else bl @ [n])"

definition removeBlockedDomain :: "string list \<Rightarrow> string \<Rightarrow> string list \<times> bool" where
  "removeBlockedDomain bl d =
     (let n = normalize_domain d in if n \<in> set bl then (remove1 n bl, True) else (bl, False))"

definition getBlockedDomains :: "string list \<Rightarrow> string list" where
  "getBlockedDomains bl = bl"

subsection \<open>CDP port generator\<close>

text \<open>\<open>Math.floor(Math.random() * 55000) + 10000\<close>, with the draw \<open>r\<close> of
  \<open>Math.random()\<close> as its argument (a real in \<open>[0, 1)\<close>).\<close>

definition getRandomCdpPort :: "real \<Rightarrow> nat" where
  "getRandomCdpPort r = nat \<lfloor>r * 55000\<rfloor> + 10000"

subsection \<open>Sequences of runtime mutations\<close>

text \<open>A run of the process may call the two exported mutations in any order; the
  invariant of the list is stated over every such sequence.\<close>

datatype blocklist_op = AddDomain string | RemoveDomain string

fun apply_blocklist_op :: "string list \<Rightarrow> blocklist_op \<Rightarrow> string list" where
  "apply_blocklist_op bl (AddDomain d) = addBlockedDomain bl d"
| "apply_blocklist_op bl (RemoveDomain d) = fst (removeBlockedDomain bl d)"

subsection \<open>The abstract blocklist\<close>

lemmas blocklist_defs [eval_simps] = BLOCKED_DOMAINS_def entry_matches_def getBlockedDomain_def
  js_truthy_def url_token_char_def scheme_len_def url_match_len_def actionReferencesBlockedDomain_def
  normalize_domain_def addBlockedDomain_def removeBlockedDomain_def ends_with_def

subsection \<open>Lemmas: the URL scanner\<close>

lemma url_match_len_bounds: "url_match_len s = Some n \<Longrightarrow> 0 < n \<and> n \<le> length s"
proof -
  assume m: "url_match_len s = Some n"
  define t where "t = takeWhile url_token_char (drop (scheme_len s) s)"
  have len: "length t \<le> length s - scheme_len s"
    using length_takeWhile_le [of url_token_char "drop (scheme_len s) s"] by (simp add: t_def)
  have "t \<noteq> [] \<Longrightarrow> scheme_len s < length s"
    by (cases "scheme_len s < length s") (auto simp: t_def)
  with m len show ?thesis
    by (auto simp: url_match_len_def t_def [symmetric] Let_def split: if_splits)
qed

lemma url_token_char_lower [simp]: "url_token_char (lower_char c) \<longleftrightarrow> url_token_char c"
  by (auto simp: url_token_char_def of_char_lower_char is_js_space_def Let_def)

lemma lower_eq_token:
  assumes "lower w = p" and "\<forall>c \<in> set p. url_token_char c"
  shows "\<forall>c \<in> set w. url_token_char c"
proof
  fix c assume "c \<in> set w"
  then have "lower_char c \<in> set p" using assms(1) by (auto simp: lower_def)
  with assms(2) have "url_token_char (lower_char c)" by blast
  then show "url_token_char c" by simp
qed

lemma lower_take_token:
  assumes "\<forall>c \<in> set p. url_token_char c" and "m = length p"
  shows "lower (take m s) = p \<longleftrightarrow> lower (take m (takeWhile url_token_char s)) = p"
proof
  assume h: "lower (take m s) = p"
  then have "\<forall>c \<in> set (take m s). url_token_char c" using assms(1) by (rule lower_eq_token)
  then have "take m (takeWhile url_token_char s) = take m s" by (intro take_takeWhile_eq) simp
  with h show "lower (take m (takeWhile url_token_char s)) = p" by simp
next
  assume h: "lower (take m (takeWhile url_token_char s)) = p"
  then have "m \<le> length (takeWhile url_token_char s)"
    using assms(2) by (metis length_lower length_take min.absorb_iff1 min.commute)
  then have "take m (takeWhile url_token_char s) = take m s" by (intro take_takeWhile_eq) simp
  with h show "lower (take m s) = p" by simp
qed

lemma token_https: "\<forall>c \<in> set ''https://''. url_token_char c"
  by (simp add: url_token_char_def is_js_space_def)

lemma token_http: "\<forall>c \<in> set ''http://''. url_token_char c"
  by (simp add: url_token_char_def is_js_space_def)

lemma scheme_len_takeWhile: "scheme_len (takeWhile url_token_char s) = scheme_len s"
proof -
  have k8: "lower (take 8 s) = ''https://'' \<longleftrightarrow> lower (take 8 (takeWhile url_token_char s)) = ''https://''"
    by (rule lower_take_token [OF token_https]) simp
  have k7: "lower (take 7 s) = ''http://'' \<longleftrightarrow> lower (take 7 (takeWhile url_token_char s)) = ''http://''"
    by (rule lower_take_token [OF token_http]) simp
  show ?thesis by (simp add: scheme_len_def k8 k7)
qed

lemma scheme_len_le: "scheme_len s \<noteq> 0 \<Longrightarrow> scheme_len s \<le> length s"
  by (auto simp: scheme_len_def split: if_splits dest!: arg_cong [where f = length])

lemma url_match_len_takeWhile:
  "url_match_len (takeWhile url_token_char s) = url_match_len s"
proof -
  define w where "w = takeWhile url_token_char s"
  define k where "k = scheme_len s"
  have kw: "scheme_len w = k" by (simp add: w_def k_def scheme_len_takeWhile)
  have tw: "takeWhile url_token_char (drop k w) = drop k w"
    by (auto simp: w_def takeWhile_eq_all_conv dest: in_set_dropD set_takeWhileD)
  have ts: "k \<noteq> 0 \<Longrightarrow> takeWhile url_token_char (drop k s) = drop k w"
    using scheme_len_le [of w] kw by (simp add: w_def drop_takeWhile_eq)
  show ?thesis
    by (simp add: url_match_len_def w_def [symmetric] kw k_def [symmetric] Let_def tw ts)
qed

lemma url_match_len_le_token: "url_match_len s = Some n \<Longrightarrow> n \<le> length (takeWhile url_token_char s)"
  using url_match_len_bounds [of "takeWhile url_token_char s" n] by (simp add: url_match_len_takeWhile)

lemma extract_urls_append:
  "xs = [] \<or> \<not> url_token_char (last xs) \<Longrightarrow>
   extract_urls (xs @ ys) = extract_urls xs @ extract_urls ys"
proof (induction xs rule: extract_urls.induct)
  case 1
  then show ?case by simp
next
  case (2 c cs)
  have stop: "\<not> url_token_char (last (c # cs))" using "2.prems" by simp
  have m: "url_match_len ((c # cs) @ ys) = url_match_len (c # cs)"
    using url_match_len_takeWhile [of "(c # cs) @ ys"] url_match_len_takeWhile [of "c # cs"]
      takeWhile_append_stop [of "c # cs" url_token_char ys] stop by simp
  show ?case
  proof (cases "url_match_len (c # cs)")
    case None
    show ?thesis
    proof (cases "cs = []")
      case True
      have "url_match_len (c # ys) = None"
        using url_match_len_takeWhile [of "c # ys"] stop True
        by (simp add: url_match_len_def scheme_len_def)
      with True None show ?thesis by simp
    next
      case False
      with stop have "extract_urls (cs @ ys) = extract_urls cs @ extract_urls ys"
        by (intro "2.IH"(1) [OF None]) simp
      with None m show ?thesis by simp
    qed
  next
    case (Some n)
    have "n < length (c # cs)"
    proof -
      have "length (takeWhile url_token_char (c # cs)) < length (c # cs)"
        using stop by (intro length_takeWhile_less [of "last (c # cs)"]) (rule last_in_set, simp)
      with url_match_len_le_token [OF Some] show ?thesis by linarith
    qed
    then have ne: "drop n (c # cs) \<noteq> []" and lst: "last (drop n (c # cs)) = last (c # cs)"
      by (simp_all add: last_drop)
    have tk: "take n ((c # cs) @ ys) = take n (c # cs)"
      and dr: "drop n ((c # cs) @ ys) = drop n (c # cs) @ ys"
      using \<open>n < length (c # cs)\<close> by (simp_all del: append_Cons)
    from ne lst stop have "extract_urls (drop n (c # cs) @ ys) = extract_urls (drop n (c # cs)) @ extract_urls ys"
      by (intro "2.IH"(2) [OF Some]) simp
    with Some m tk dr show ?thesis
      by simp
  qed
qed

lemma extract_urls_token:
  assumes u: "url_match_len u = Some (length u)" and post: "post = [] \<or> \<not> url_token_char (hd post)"
  shows "extract_urls (u @ post) = u # extract_urls post"
proof -
  have tu: "takeWhile url_token_char u = u"
    using url_match_len_le_token [OF u] by (metis length_takeWhile_le le_antisym takeWhile_eq_take take_all)
  have "takeWhile url_token_char (u @ post) = u"
    using post tu by (cases post) (auto simp: takeWhile_append2 takeWhile_eq_all_conv)
  then have m: "url_match_len (u @ post) = Some (length u)"
    using url_match_len_takeWhile [of "u @ post"] u tu by simp
  obtain c cs where "u = c # cs" using url_match_len_bounds [OF u] by (cases u) auto
  with m show ?thesis by simp
qed

lemma extract_urls_sublist: "v \<in> set (extract_urls s) \<Longrightarrow> sublist v s"
proof (induction s rule: extract_urls.induct)
  case 1
  then show ?case by simp
next
  case (2 c cs)
  show ?case
  proof (cases "url_match_len (c # cs)")
    case None
    with "2.prems" have "v \<in> set (extract_urls cs)" by simp
    then have "sublist v cs" by (rule "2.IH"(1) [OF None])
    then show ?thesis by (simp add: sublist_Cons_right)
  next
    case (Some n)
    have "sublist (drop n (c # cs)) (c # cs)" by (rule suffix_imp_sublist [OF suffix_drop])
    with Some "2.prems" "2.IH"(2) [OF Some] show ?thesis
      by (auto intro: sublist_order.order_trans prefix_imp_sublist [OF take_is_prefix])
  qed
qed

lemma first_blocked_append:
  "first_blocked bl (us @ vs) = (case first_blocked bl us of None \<Rightarrow> first_blocked bl vs | r \<Rightarrow> r)"
  by (induction us) (auto simp: Let_def js_truthy_def split: option.splits)

lemma first_blocked_Some:
  "first_blocked bl us = Some d \<Longrightarrow> \<exists>u \<in> set us. getBlockedDomain bl u = Some d \<and> d \<noteq> []"
  by (induction us) (auto simp: Let_def js_truthy_def split: if_splits option.splits)

lemma url_match_len_takeWhile_take:
  assumes m: "url_match_len s = Some n"
  shows "takeWhile url_token_char s = take n s"
proof -
  define k where "k = scheme_len s"
  define t where "t = takeWhile url_token_char (drop k s)"
  define w where "w = takeWhile url_token_char s"
  have n: "n = k + length t"
    using m by (auto simp: url_match_len_def k_def [symmetric] t_def [symmetric] Let_def split: if_splits)
  have nw: "n \<le> length w" unfolding w_def by (rule url_match_len_le_token [OF m])
  then have "k \<le> length w" using n by simp
  then have "take k s = take k w" by (simp add: w_def take_takeWhile_eq)
  then have "\<forall>c \<in> set (take k s). url_token_char c"
    by (auto simp: w_def dest: in_set_takeD set_takeWhileD)
  then have w: "w = take k s @ t"
    using takeWhile_append2 [of "take k s" url_token_char "drop k s"] by (simp add: w_def t_def)
  have "length w \<le> n" using w n by simp
  with nw have "length w = n" by simp
  then show ?thesis by (metis w_def takeWhile_eq_take)
qed

lemma extract_urls_match: "v \<in> set (extract_urls s) \<Longrightarrow> url_match_len v = Some (length v)"
proof (induction s rule: extract_urls.induct)
  case 1
  then show ?case by simp
next
  case (2 c cs)
  show ?case
  proof (cases "url_match_len (c # cs)")
    case None
    with "2.prems" "2.IH"(1) [OF None] show ?thesis by simp
  next
    case (Some n)
    have tk: "url_match_len (take n (c # cs)) = Some n"
      using url_match_len_takeWhile [of "c # cs"] url_match_len_takeWhile_take [OF Some] Some by simp
    have "length (take n (c # cs)) = n" using url_match_len_bounds [OF Some] by simp
    with tk Some "2.prems" "2.IH"(2) [OF Some] show ?thesis by auto
  qed
qed

subsection \<open>Lemmas: the matcher\<close>

lemma entry_matches_iff:
  "entry_matches h fp d \<longleftrightarrow> (if CHR ''/'' \<in> set d then sublist d fp else h = d \<or> suffix (CHR ''.'' # d) h)"
  unfolding entry_matches_def includes_sublist ends_with_suffix by simp

lemma getBlockedDomain_Some_iff:
  "getBlockedDomain bl url = Some d \<longleftrightarrow>
   (\<exists>u. url_parse url = Some u \<and>
        find (entry_matches (lower (hostname u)) (lower (hostname u) @ pathname u)) bl = Some d)"
  by (auto simp: getBlockedDomain_def Let_def split: option.splits)

lemma getBlockedDomain_parsed:
  "url_parse url = Some u \<Longrightarrow>
   getBlockedDomain bl url = find (entry_matches (lower (hostname u)) (lower (hostname u) @ pathname u)) bl"
  by (simp add: getBlockedDomain_def Let_def)

lemma builtin_bare_independent_code:
  "list_all (\<lambda>d1. list_all (\<lambda>d2. CHR ''/'' \<in> set d2 \<or> \<not> ends_with d2 (CHR ''.'' # d1))
     BLOCKED_DOMAINS) BLOCKED_DOMAINS"
  by code_simp

lemma builtin_bare_independent:
  "d1 \<in> set BLOCKED_DOMAINS \<Longrightarrow> d2 \<in> set BLOCKED_DOMAINS \<Longrightarrow> CHR ''/'' \<notin> set d2 \<Longrightarrow>
   \<not> suffix (CHR ''.'' # d1) d2"
  using builtin_bare_independent_code by (auto simp: list_all_iff ends_with_suffix)

lemma builtin_path_entries_code:
  "filter (\<lambda>d. CHR ''/'' \<in> set d) BLOCKED_DOMAINS = [''stripe.com/dashboard'']"
  by (simp add: BLOCKED_DOMAINS_def)

lemma builtin_path_entry:
  "d \<in> set BLOCKED_DOMAINS \<Longrightarrow> CHR ''/'' \<in> set d \<Longrightarrow> d = ''stripe.com/dashboard''"
proof -
  assume "d \<in> set BLOCKED_DOMAINS" and "CHR ''/'' \<in> set d"
  then have "d \<in> set (filter (\<lambda>d. CHR ''/'' \<in> set d) BLOCKED_DOMAINS)" by simp
  then show ?thesis by (simp only: builtin_path_entries_code) simp
qed

lemma builtin_stripe_host_code:
  "list_all (\<lambda>d. CHR ''/'' \<in> set d \<or> (d \<noteq> ''stripe.com'' \<and> \<not> ends_with ''stripe.com'' (CHR ''.'' # d)))
     BLOCKED_DOMAINS"
  by code_simp

lemma addBlockedDomain_distinct: "distinct bl \<Longrightarrow> distinct (addBlockedDomain bl d)"
  by (simp add: addBlockedDomain_def Let_def)

lemma removeBlockedDomain_distinct: "distinct bl \<Longrightarrow> distinct (fst (removeBlockedDomain bl d))"
  by (simp add: removeBlockedDomain_def Let_def)

lemma BLOCKED_DOMAINS_distinct: "distinct BLOCKED_DOMAINS"
  by (simp add: BLOCKED_DOMAINS_def)

subsection \<open>Properties of the blocklist\<close>

text \<open>C5: every domain \<open>getBlockedDomain\<close> reports is an entry of the list that the parsed URL really matches: an entry with a slash is a substring of the lowercased host followed by the path, any other entry is the lowercased host itself or a dot-separated suffix of it.\<close>

theorem getBlockedDomain_sound:
  assumes "getBlockedDomain bl url = Some d"
  shows "d \<in> set bl \<and> (\<exists>u. url_parse url = Some u \<and>
     (let h = lower (hostname u) in
      if CHR ''/'' \<in> set d then sublist d (h @ pathname u) else h = d \<or> suffix (CHR ''.'' # d) h))"
proof -
  from assms obtain u where p: "url_parse url = Some u"
    and f: "find (entry_matches (lower (hostname u)) (lower (hostname u) @ pathname u)) bl = Some d"
    by (auto simp: getBlockedDomain_Some_iff)
  from find_SomeD [OF f] p show ?thesis by (auto simp: entry_matches_iff Let_def)
qed

theorem getBlockedDomain_sound_witness:
  "getBlockedDomain BLOCKED_DOMAINS ''https://www.chase.com/login'' = Some ''chase.com'' \<and>
   ''chase.com'' \<in> set BLOCKED_DOMAINS"
proof -
  have h: "getBlockedDomain BLOCKED_DOMAINS ''https://www.chase.com/login'' = Some ''chase.com''"
    by (simp add: eval_simps)
  from getBlockedDomain_sound [OF h] h show ?thesis by simp
qed

text \<open>C4: on the shipped list, every URL whose host is a listed bare domain or one of its subdomains is blocked, and the reported domain is exactly that entry, provided its host and path do not contain the one path entry \<open>stripe.com/dashboard\<close> (which comes earlier in the list and would be reported instead).\<close>

theorem getBlockedDomain_builtin_host:
  assumes d: "d \<in> set BLOCKED_DOMAINS" and bare: "CHR ''/'' \<notin> set d"
    and p: "url_parse url = Some u"
    and host: "lower (hostname u) = d \<or> suffix (CHR ''.'' # d) (lower (hostname u))"
    and nopath: "\<not> sublist ''stripe.com/dashboard'' (lower (hostname u) @ pathname u)"
  shows "getBlockedDomain BLOCKED_DOMAINS url = Some d"
proof -
  let ?h = "lower (hostname u)" and ?fp = "lower (hostname u) @ pathname u"
  have uniq: "\<forall>x \<in> set BLOCKED_DOMAINS. entry_matches ?h ?fp x \<longrightarrow> x = d"
  proof (intro ballI impI)
    fix x assume x: "x \<in> set BLOCKED_DOMAINS" and m: "entry_matches ?h ?fp x"
    show "x = d"
    proof (cases "CHR ''/'' \<in> set x")
      case True
      with x have "x = ''stripe.com/dashboard''" by (rule builtin_path_entry)
      with m nopath have False by (simp add: entry_matches_iff)
      then show ?thesis ..
    next
      case False
      with m have "?h = x \<or> suffix (CHR ''.'' # x) ?h" by (simp add: entry_matches_iff)
      from bare_match_unique [OF this host] show ?thesis
        using builtin_bare_independent [OF x d bare] builtin_bare_independent [OF d x False] by blast
    qed
  qed
  have "entry_matches ?h ?fp d" using host bare by (simp add: entry_matches_iff)
  with d have "find (entry_matches ?h ?fp) BLOCKED_DOMAINS = Some d"
    by (simp only: find_unique [OF uniq] if_True simp_thms)
  then show ?thesis by (simp only: getBlockedDomain_parsed [OF p])
qed

theorem getBlockedDomain_builtin_host_witness:
  "getBlockedDomain BLOCKED_DOMAINS ''https://secure.chase.com/'' = Some ''chase.com''"
proof -
  have p: "url_parse ''https://secure.chase.com/'' = Some (mk_url ''https'' ''secure.chase.com'' [] ''/'')"
    by (simp add: eval_simps)
  have l: "lower (hostname (mk_url ''https'' ''secure.chase.com'' [] ''/'')) = ''secure.chase.com''"
    by (simp add: mk_url_def eval_simps)
  have s: "suffix (CHR ''.'' # ''chase.com'') ''secure.chase.com''"
    by (simp add: suffix_to_prefix)
  have n: "\<not> sublist ''stripe.com/dashboard'' (''secure.chase.com'' @ pathname (mk_url ''https'' ''secure.chase.com'' [] ''/''))"
    by (simp add: mk_url_def) code_simp
  have d: "''chase.com'' \<in> set BLOCKED_DOMAINS" by (simp add: BLOCKED_DOMAINS_def)
  have h: "lower (hostname (mk_url ''https'' ''secure.chase.com'' [] ''/'')) = ''chase.com'' \<or>
      suffix (CHR ''.'' # ''chase.com'') (lower (hostname (mk_url ''https'' ''secure.chase.com'' [] ''/'')))"
    using l s by simp
  have n': "\<not> sublist ''stripe.com/dashboard'' (lower (hostname (mk_url ''https'' ''secure.chase.com'' [] ''/'')) @
      pathname (mk_url ''https'' ''secure.chase.com'' [] ''/''))"
    using l n by simp
  show ?thesis
    by (rule getBlockedDomain_builtin_host [OF d _ p h n']) simp
qed

text \<open>C35: on the shipped list, a URL on host \<open>stripe.com\<close> is blocked exactly when \<open>stripe.com\<close> followed by its path contains \<open>stripe.com/dashboard\<close>; sibling paths such as \<open>/payments\<close> stay allowed.\<close>

theorem getBlockedDomain_stripe_paths:
  assumes p: "url_parse url = Some u" and h: "lower (hostname u) = ''stripe.com''"
  shows "getBlockedDomain BLOCKED_DOMAINS url =
    (if sublist ''stripe.com/dashboard'' (''stripe.com'' @ pathname u) then Some ''stripe.com/dashboard'' else None)"
proof -
  let ?fp = "''stripe.com'' @ pathname u"
  have uniq: "\<forall>x \<in> set BLOCKED_DOMAINS. entry_matches ''stripe.com'' ?fp x \<longrightarrow> x = ''stripe.com/dashboard''"
  proof (intro ballI impI)
    fix x assume x: "x \<in> set BLOCKED_DOMAINS" and m: "entry_matches ''stripe.com'' ?fp x"
    show "x = ''stripe.com/dashboard''"
    proof (cases "CHR ''/'' \<in> set x")
      case True
      with x show ?thesis by (rule builtin_path_entry)
    next
      case False
      from builtin_stripe_host_code x have "CHR ''/'' \<in> set x \<or> (x \<noteq> ''stripe.com'' \<and> \<not> suffix (CHR ''.'' # x) ''stripe.com'')"
        by (simp add: list_all_iff ends_with_suffix)
      with False m have False by (simp add: entry_matches_iff)
      then show ?thesis ..
    qed
  qed
  have mem: "''stripe.com/dashboard'' \<in> set BLOCKED_DOMAINS" by (simp add: BLOCKED_DOMAINS_def)
  have "entry_matches ''stripe.com'' ?fp ''stripe.com/dashboard'' \<longleftrightarrow> sublist ''stripe.com/dashboard'' ?fp"
    by (simp add: entry_matches_iff)
  with mem have "find (entry_matches ''stripe.com'' ?fp) BLOCKED_DOMAINS =
      (if sublist ''stripe.com/dashboard'' ?fp then Some ''stripe.com/dashboard'' else None)"
    by (simp only: find_unique [OF uniq] simp_thms)
  then show ?thesis by (simp only: getBlockedDomain_parsed [OF p] h)
qed

theorem getBlockedDomain_stripe_paths_witness:
  "getBlockedDomain BLOCKED_DOMAINS ''https://stripe.com/payments'' = None \<and>
   getBlockedDomain BLOCKED_DOMAINS ''https://stripe.com/dashboard/balance'' = Some ''stripe.com/dashboard''"
proof -
  have p1: "url_parse ''https://stripe.com/payments'' = Some (mk_url ''https'' ''stripe.com'' [] ''/payments'')"
    and p2: "url_parse ''https://stripe.com/dashboard/balance'' =
      Some (mk_url ''https'' ''stripe.com'' [] ''/dashboard/balance'')"
    by (simp_all add: eval_simps)
  have h: "lower (hostname (mk_url ''https'' ''stripe.com'' p q)) = ''stripe.com''" for p q
    by (simp add: mk_url_def eval_simps)
  have n1: "\<not> sublist ''stripe.com/dashboard'' (''stripe.com'' @ pathname (mk_url ''https'' ''stripe.com'' [] ''/payments''))"
    unfolding mk_url_def by code_simp
  have n2: "sublist ''stripe.com/dashboard'' (''stripe.com'' @ pathname (mk_url ''https'' ''stripe.com'' [] ''/dashboard/balance''))"
    unfolding mk_url_def by code_simp
  show ?thesis
    using getBlockedDomain_stripe_paths [OF p1 h] getBlockedDomain_stripe_paths [OF p2 h] n1 n2 by simp
qed

text \<open>C36: a host written with a trailing dot (the fully qualified form \<open>chase.com.\<close>, which resolves to the same site) is matched by no bare entry that does not itself end in a dot, so unless a path entry matches, such a URL is never blocked.\<close>

theorem getBlockedDomain_trailing_dot:
  assumes p: "url_parse url = Some u" and ne: "hostname u \<noteq> []"
    and dot: "last (lower (hostname u)) = CHR ''.''"
    and entries: "\<forall>d \<in> set bl. d \<noteq> [] \<and> last d \<noteq> CHR ''.''"
    and nopath: "\<forall>d \<in> set bl. CHR ''/'' \<in> set d \<longrightarrow> \<not> sublist d (lower (hostname u) @ pathname u)"
  shows "getBlockedDomain bl url = None"
proof -
  let ?h = "lower (hostname u)"
  have "\<not> entry_matches ?h (?h @ pathname u) d" if d: "d \<in> set bl" for d
  proof (cases "CHR ''/'' \<in> set d")
    case True
    with d nopath show ?thesis by (simp add: entry_matches_iff)
  next
    case False
    from entries d have "d \<noteq> []" and "last d \<noteq> CHR ''.''" by auto
    moreover have "last (CHR ''.'' # d) = last d" using \<open>d \<noteq> []\<close> by simp
    ultimately have "?h \<noteq> d \<and> \<not> suffix (CHR ''.'' # d) ?h"
      using dot ne by (auto simp: suffix_def)
    with False show ?thesis by (simp add: entry_matches_iff)
  qed
  then show ?thesis by (simp add: getBlockedDomain_parsed [OF p] find_None_iff)
qed

theorem getBlockedDomain_trailing_dot_witness:
  "getBlockedDomain BLOCKED_DOMAINS ''https://chase.com./login'' = None"
proof (rule getBlockedDomain_trailing_dot)
  show "url_parse ''https://chase.com./login'' = Some (mk_url ''https'' ''chase.com.'' [] ''/login'')"
    by (simp add: eval_simps)
  show "hostname (mk_url ''https'' ''chase.com.'' [] ''/login'') \<noteq> []" by (simp add: mk_url_def)
  show "last (lower (hostname (mk_url ''https'' ''chase.com.'' [] ''/login''))) = CHR ''.''"
    by (simp add: mk_url_def eval_simps)
  have "list_all (\<lambda>d. d \<noteq> [] \<and> last d \<noteq> CHR ''.'') BLOCKED_DOMAINS" by code_simp
  then show "\<forall>d \<in> set BLOCKED_DOMAINS. d \<noteq> [] \<and> last d \<noteq> CHR ''.''" by (simp add: list_all_iff)
  have n: "\<not> sublist ''stripe.com/dashboard'' ''chase.com./login''" by code_simp
  have l: "lower (hostname (mk_url ''https'' ''chase.com.'' [] ''/login'')) @
      pathname (mk_url ''https'' ''chase.com.'' [] ''/login'') = ''chase.com./login''"
    by (simp add: mk_url_def eval_simps)
  show "\<forall>d \<in> set BLOCKED_DOMAINS. CHR ''/'' \<in> set d \<longrightarrow>
     \<not> sublist d (lower (hostname (mk_url ''https'' ''chase.com.'' [] ''/login'')) @
        pathname (mk_url ''https'' ''chase.com.'' [] ''/login''))"
    using n by (auto simp only: l dest: builtin_path_entry)
qed

text \<open>C31: every domain reported for an action text comes from a complete regular-expression match that occurs in the text and that \<open>getBlockedDomain\<close> blocks with a non-empty domain.\<close>

theorem actionReferencesBlockedDomain_sound:
  "actionReferencesBlockedDomain bl action = Some d \<Longrightarrow>
   \<exists>u. sublist u action \<and> url_match_len u = Some (length u) \<and> getBlockedDomain bl u = Some d \<and> d \<noteq> []"
  unfolding actionReferencesBlockedDomain_def
  by (blast dest: first_blocked_Some extract_urls_sublist extract_urls_match)

theorem actionReferencesBlockedDomain_sound_witness:
  "actionReferencesBlockedDomain BLOCKED_DOMAINS ''go to https://chase.com and log in'' = Some ''chase.com'' \<and>
   (\<exists>u. sublist u ''go to https://chase.com and log in'' \<and> getBlockedDomain BLOCKED_DOMAINS u = Some ''chase.com'')"
proof -
  have h: "actionReferencesBlockedDomain BLOCKED_DOMAINS ''go to https://chase.com and log in'' = Some ''chase.com''"
    by (simp add: eval_simps)
  from actionReferencesBlockedDomain_sound [OF h] h show ?thesis by blast
qed

text \<open>C32: a URL written in free text as its own word, after a prefix that holds no URL, is found by the scan and reported with the same domain \<open>getBlockedDomain\<close> gives for it alone.\<close>

theorem actionReferencesBlockedDomain_isolated:
  assumes "pre = [] \<or> \<not> url_token_char (last pre)" and "post = [] \<or> \<not> url_token_char (hd post)"
    and "url_match_len u = Some (length u)" and "extract_urls pre = []"
    and "js_truthy (getBlockedDomain bl u)"
  shows "actionReferencesBlockedDomain bl (pre @ u @ post) = getBlockedDomain bl u"
proof -
  have "extract_urls (pre @ u @ post) = u # extract_urls post"
    using assms(1-4) by (simp add: extract_urls_append extract_urls_token)
  with assms(5) show ?thesis by (simp add: actionReferencesBlockedDomain_def Let_def)
qed

theorem actionReferencesBlockedDomain_isolated_witness:
  "actionReferencesBlockedDomain BLOCKED_DOMAINS (''please open '' @ ''https://chase.com/login'' @ '' now'') =
   Some ''chase.com''"
proof -
  have g: "getBlockedDomain BLOCKED_DOMAINS ''https://chase.com/login'' = Some ''chase.com''"
    by (simp add: eval_simps)
  have "actionReferencesBlockedDomain BLOCKED_DOMAINS (''please open '' @ ''https://chase.com/login'' @ '' now'') =
      getBlockedDomain BLOCKED_DOMAINS ''https://chase.com/login''"
  proof (rule actionReferencesBlockedDomain_isolated)
    show "''please open '' = [] \<or> \<not> url_token_char (last ''please open '')"
      by (simp add: eval_simps)
    show "'' now'' = [] \<or> \<not> url_token_char (hd '' now'')" by (simp add: eval_simps)
    show "url_match_len ''https://chase.com/login'' = Some (length ''https://chase.com/login'')"
      by (simp add: eval_simps)
    show "extract_urls ''please open '' = []" by (simp add: eval_simps)
    show "js_truthy (getBlockedDomain BLOCKED_DOMAINS ''https://chase.com/login'')"
      by (simp add: g js_truthy_def)
  qed
  with g show ?thesis by simp
qed

lemma act_trailing_punctuation:
  "actionReferencesBlockedDomain BLOCKED_DOMAINS ''log in at https://chase.com, then pay'' = None"
  by (simp add: eval_simps)

text \<open>C37: the blocklist never holds a domain twice: the shipped list is duplicate-free and every sequence of \<open>addBlockedDomain\<close> and \<open>removeBlockedDomain\<close> calls keeps it so.\<close>

theorem blocklist_ops_distinct: "distinct (foldl apply_blocklist_op BLOCKED_DOMAINS ops)"
proof -
  have "distinct bl \<Longrightarrow> distinct (foldl apply_blocklist_op bl ops)" for bl
  proof (induction ops arbitrary: bl)
    case Nil
    then show ?case by simp
  next
    case (Cons op ops)
    have "distinct (apply_blocklist_op bl op)"
      using Cons.prems by (cases op) (simp_all add: addBlockedDomain_distinct removeBlockedDomain_distinct)
    then show ?case by (simp add: Cons.IH)
  qed
  from this [OF BLOCKED_DOMAINS_distinct] show ?thesis .
qed

text \<open>On a duplicate-free list, \<open>removeBlockedDomain\<close> removes the normalised domain entirely and reports whether it was present.\<close>

theorem removeBlockedDomain_spec:
  "distinct bl \<Longrightarrow>
   removeBlockedDomain bl d = (removeAll (normalize_domain d) bl, normalize_domain d \<in> set bl)"
  by (simp add: removeBlockedDomain_def Let_def distinct_remove1_removeAll)

theorem removeBlockedDomain_spec_witness:
  "removeBlockedDomain BLOCKED_DOMAINS ''HTTPS://Chase.com/'' =
     (removeAll ''chase.com'' BLOCKED_DOMAINS, True)"
proof -
  have n: "normalize_domain ''HTTPS://Chase.com/'' = ''chase.com''" by (simp add: eval_simps)
  have m: "''chase.com'' \<in> set BLOCKED_DOMAINS" by (simp add: BLOCKED_DOMAINS_def)
  show ?thesis using removeBlockedDomain_spec [OF BLOCKED_DOMAINS_distinct, of "''HTTPS://Chase.com/''"] n m
    by simp
qed

text \<open>C39: adding a domain not yet listed appends it, adding it again changes nothing, and removing it restores the original list and reports that it was present.\<close>

theorem add_remove_roundtrip:
  "normalize_domain d \<notin> set bl \<Longrightarrow>
   addBlockedDomain bl d \<noteq> bl \<and> removeBlockedDomain (addBlockedDomain bl d) d = (bl, True) \<and>
   addBlockedDomain (addBlockedDomain bl d) d = addBlockedDomain bl d"
  by (simp add: addBlockedDomain_def removeBlockedDomain_def Let_def remove1_append)

theorem add_remove_roundtrip_witness:
  "removeBlockedDomain (addBlockedDomain BLOCKED_DOMAINS ''https://Example.org//'') ''example.org'' =
   (BLOCKED_DOMAINS, True)"
proof -
  have "normalize_domain ''https://Example.org//'' = ''example.org''"
    and "normalize_domain ''example.org'' = ''example.org''" by (simp_all add: eval_simps)
  moreover have "''example.org'' \<notin> set BLOCKED_DOMAINS" by (simp add: BLOCKED_DOMAINS_def)
  ultimately show ?thesis
    using add_remove_roundtrip [of "''https://Example.org//''" BLOCKED_DOMAINS]
    by (simp add: removeBlockedDomain_def addBlockedDomain_def Let_def)
qed

text \<open>C38: after \<open>addBlockedDomain\<close>, a URL keeps the verdict it had when an earlier entry matched it, and is otherwise blocked exactly when the new normalised entry matches it.\<close>

theorem addBlockedDomain_effect:
  assumes p: "url_parse url = Some u"
  shows "getBlockedDomain (addBlockedDomain bl d) url =
    (case getBlockedDomain bl url of
       Some x \<Rightarrow> Some x
     | None \<Rightarrow> if entry_matches (lower (hostname u)) (lower (hostname u) @ pathname u) (normalize_domain d)
               then Some (normalize_domain d) else None)"
proof -
  let ?P = "entry_matches (lower (hostname u)) (lower (hostname u) @ pathname u)"
  have "find ?P bl = None \<Longrightarrow> normalize_domain d \<in> set bl \<Longrightarrow> \<not> ?P (normalize_domain d)"
    by (auto simp: find_None_iff)
  then show ?thesis
    by (auto simp: getBlockedDomain_parsed [OF p] addBlockedDomain_def Let_def find_append_eq
        split: option.splits)
qed

theorem addBlockedDomain_effect_witness:
  "getBlockedDomain (addBlockedDomain BLOCKED_DOMAINS ''https://Evil.example/'') ''https://www.evil.example/x'' =
   Some ''evil.example''"
proof -
  have p: "url_parse ''https://www.evil.example/x'' = Some (mk_url ''https'' ''www.evil.example'' [] ''/x'')"
    by (simp add: eval_simps)
  have g: "getBlockedDomain BLOCKED_DOMAINS ''https://www.evil.example/x'' = None"
    by (simp add: eval_simps)
  have n: "normalize_domain ''https://Evil.example/'' = ''evil.example''" by (simp add: eval_simps)
  have m: "entry_matches (lower (hostname (mk_url ''https'' ''www.evil.example'' [] ''/x'')))
     (lower (hostname (mk_url ''https'' ''www.evil.example'' [] ''/x'')) @ pathname (mk_url ''https'' ''www.evil.example'' [] ''/x''))
     ''evil.example''"
    by (simp add: mk_url_def eval_simps)
  show ?thesis using addBlockedDomain_effect [OF p, of BLOCKED_DOMAINS "''https://Evil.example/''"] g n m by simp
qed

text \<open>C40: for every draw of \<open>Math.random()\<close> in \<open>[0, 1)\<close>, \<open>getRandomCdpPort\<close> returns a port between 10000 and 64999, so never the well-known port 9222 and always a valid TCP port.\<close>

theorem getRandomCdpPort_range:
  assumes "0 \<le> r" and "r < 1"
  shows "10000 \<le> getRandomCdpPort r \<and> getRandomCdpPort r \<le> 64999"
proof -
  have "0 \<le> r * 55000" and "r * 55000 < 55000" using assms by simp_all
  then have "0 \<le> \<lfloor>r * 55000\<rfloor>" and "\<lfloor>r * 55000\<rfloor> \<le> 54999" by linarith+
  then show ?thesis by (simp add: getRandomCdpPort_def nat_le_iff)
qed

theorem getRandomCdpPort_range_witness:
  "getRandomCdpPort (1/2) = 37500 \<and> 10000 \<le> getRandomCdpPort (1/2) \<and> getRandomCdpPort (1/2) \<le> 64999"
proof -
  have "getRandomCdpPort (1/2) = 37500" by (simp add: getRandomCdpPort_def)
  with getRandomCdpPort_range [of "1/2"] show ?thesis by simp
qed

text \<open>Every port between 10000 and 64999 is produced by some draw in \<open>[0, 1)\<close>.\<close>

theorem getRandomCdpPort_onto:
  assumes "10000 \<le> p" and "p \<le> 64999"
  shows "\<exists>r. 0 \<le> r \<and> r < 1 \<and> getRandomCdpPort r = p"
proof (intro exI conjI)
  let ?r = "(real p - 10000) / 55000"
  show "0 \<le> ?r" and "?r < 1" using assms by simp_all
  have "?r * 55000 = of_int (int p - 10000)" by simp
  then have "\<lfloor>?r * 55000\<rfloor> = int p - 10000" by (simp only: floor_of_int)
  then show "getRandomCdpPort ?r = p" using assms by (simp add: getRandomCdpPort_def)
qed

theorem getRandomCdpPort_onto_witness: "\<exists>r. 0 \<le> r \<and> r < 1 \<and> getRandomCdpPort r = 10000"
  by (rule getRandomCdpPort_onto) simp_all


end
