(* ===== verification/World.thy ===== *)
theory World
  imports Prelude Complex_Main
begin

text \<open>
  The state a run of the CLI (\<open>src/src/cli.ts\<close>) acts on, and the JavaScript control flow
  it is written in. A state of type \<open>st\<close> holds
  \<^item> the world that outlives a process: the regular files under the plugin root (a map
    from paths relative to the root, so \<open>join(PLUGIN_ROOT, '.cdp-port')\<close> is
    \<open>''.cdp-port''\<close>), the directories, the process table, the clock (\<open>Date.now()\<close>),
    and the answers the outside world will give: the successive outcomes of HTTP requests
    to the CDP endpoint, whether each successive call into the Stagehand engine throws,
    what \<open>findLocalChrome()\<close> finds, the pid the next \<open>spawn\<close> gets, whether the child
    exits within a second of \<open>SIGTERM\<close>, the draw of \<open>Math.random()\<close>, the
    \<open>webSocketDebuggerUrl\<close> the endpoint reports, the files of the user's own Chrome
    profile, the API key the environment provides, and what the engine returns (the
    screenshot path, the serialised extraction, the number of observed actions);
  \<^item> the trace of the effects performed, in order;
  \<^item> the module-level variables of \<open>cli.ts\<close> (lines 38--41): \<open>stagehandInstance\<close>,
    \<open>currentPage\<close>, \<open>chromeProcess\<close>, \<open>weStartedChrome\<close>.
  An asynchronous function is a state transformer returning \<open>Inl msg\<close> when it throws an
  \<open>Error\<close> with message \<open>msg\<close> and \<open>Inr v\<close> when it returns \<open>v\<close>; \<open>await\<close> is
  \<open>bindJ\<close>, \<open>try/catch\<close> is \<open>catchJ\<close>, \<open>try/finally\<close> is
  \<open>finallyJ\<close>. Effects are never rolled back by a throw, as in JavaScript. The CLI
  issues its awaits one after another (the spec's single-threaded cooperative model), so
  a sequential composition is exact.
\<close>

subsection \<open>Types\<close>

datatype fetch_outcome = FetchOk | FetchNotOk | FetchFail

datatype signal = SIGTERM | SIGKILL

datatype effect =
    Fetch nat
  | Spawn string "string list"
  | WriteFile path string
  | Unlink path
  | Mkdir path
  | KillChild signal
  | KillPid nat signal
  | Ps nat
  | Sleep nat
  | EngineCall string string
  | Log string

datatype child = Child (child_pid: "nat option")

record world =
  files :: "path \<rightharpoonup> string"
  dirs :: "path set"
  procs :: "nat \<rightharpoonup> string"
  clock :: nat
  fetches :: "fetch_outcome list"
  engine_faults :: "bool list"
  chrome_path :: "string option"
  spawn_pid :: "nat option"
  exits_on_term :: bool
  random_draw :: real
  ws_url :: string
  user_profile :: "(path \<times> string) list"
  api_key :: "string option"
  shot_path :: string
  extract_json :: string
  observe_count :: nat
  trace :: "effect list"

record st = world +
  stagehandInstance :: "string option"
  currentPage :: "nat option"
  chromeProcess :: "child option"
  weStartedChrome :: bool

type_synonym 'a js = "st \<Rightarrow> (string + 'a) \<times> st"

subsection \<open>Control flow\<close>

definition retJ :: "'a \<Rightarrow> 'a js" where
  "retJ a s = (Inr a, s)"

definition throwJ :: "string \<Rightarrow> 'a js" where
  "throwJ e s = (Inl e, s)"

definition bindJ :: "'a js \<Rightarrow> ('a \<Rightarrow> 'b js) \<Rightarrow> 'b js" where
  "bindJ m f s = (case m s of (Inl e, s') \<Rightarrow> (Inl e, s') | (Inr a, s') \<Rightarrow> f a s')"

definition thenJ :: "'a js \<Rightarrow> 'b js \<Rightarrow> 'b js" where
  "thenJ m n = bindJ m (\<lambda>_. n)"

definition catchJ :: "'a js \<Rightarrow> (string \<Rightarrow> 'a js) \<Rightarrow> 'a js" where
  "catchJ m h s = (case m s of (Inl e, s') \<Rightarrow> h e s' | (Inr a, s') \<Rightarrow> (Inr a, s'))"

definition finallyJ :: "'a js \<Rightarrow> unit js \<Rightarrow> 'a js" where
  "finallyJ m f s =
     (case m s of (r, s') \<Rightarrow> (case f s' of (Inl e, s'') \<Rightarrow> (Inl e, s'') | (Inr _, s'') \<Rightarrow> (r, s'')))"

definition getsJ :: "(st \<Rightarrow> 'a) \<Rightarrow> 'a js" where
  "getsJ g s = (Inr (g s), s)"

definition modifyJ :: "(st \<Rightarrow> st) \<Rightarrow> unit js" where
  "modifyJ g s = (Inr (), g s)"

definition skipJ :: "unit js" where
  "skipJ = retJ ()"

definition emitJ :: "effect \<Rightarrow> unit js" where
  "emitJ e = modifyJ (\<lambda>s. s\<lparr>trace := trace s @ [e]\<rparr>)"

subsection \<open>Primitive effects\<close>

text \<open>\<open>fetch(http://127.0.0.1:port/json/version)\<close>: the next answer of the endpoint;
  no answer left means nothing listens. A rejected promise throws; otherwise the result
  is \<open>response.ok\<close>.\<close>

definition fetchJ :: "nat \<Rightarrow> bool js" where
  "fetchJ port =
     thenJ (emitJ (Fetch port))
       (\<lambda>s. case fetches s of
              [] \<Rightarrow> (Inl ''fetch failed'', s)
            | r # rs \<Rightarrow>
                (if r = FetchFail then Inl ''fetch failed'' else Inr (r = FetchOk), s\<lparr>fetches := rs\<rparr>))"

text \<open>A call into the Stagehand engine or over its CDP session; it throws when the next
  fault flag is set (no flag left: it succeeds).\<close>

definition engineJ :: "string \<Rightarrow> string \<Rightarrow> unit js" where
  "engineJ op arg =
     thenJ (emitJ (EngineCall op arg))
       (\<lambda>s. case engine_faults s of
              [] \<Rightarrow> (Inr (), s)
            | f # fs \<Rightarrow> (if f then Inl (''engine error: '' @ op) else Inr (), s\<lparr>engine_faults := fs\<rparr>))"

definition sleepJ :: "nat \<Rightarrow> unit js" where
  "sleepJ ms = thenJ (emitJ (Sleep ms)) (modifyJ (\<lambda>s. s\<lparr>clock := clock s + ms\<rparr>))"

definition logJ :: "string \<Rightarrow> unit js" where
  "logJ msg = emitJ (Log msg)"

definition existsJ :: "path \<Rightarrow> bool js" where
  "existsJ p = getsJ (\<lambda>s. p \<in> dom (files s) \<or> p \<in> dirs s)"

definition readFileJ :: "path \<Rightarrow> string js" where
  "readFileJ p s = (case files s p of None \<Rightarrow> (Inl ''ENOENT'', s) | Some c \<Rightarrow> (Inr c, s))"

definition writeFileJ :: "path \<Rightarrow> string \<Rightarrow> unit js" where
  "writeFileJ p c =
     bindJ (getsJ (\<lambda>s. p \<in> dirs s)) (\<lambda>isdir.
       if isdir then throwJ ''EISDIR''
       else thenJ (emitJ (WriteFile p c)) (modifyJ (\<lambda>s. s\<lparr>files := (files s)(p \<mapsto> c)\<rparr>)))"

definition unlinkJ :: "path \<Rightarrow> unit js" where
  "unlinkJ p =
     bindJ (getsJ (\<lambda>s. p \<in> dom (files s))) (\<lambda>isfile.
       if \<not> isfile then throwJ ''ENOENT''
       else thenJ (emitJ (Unlink p)) (modifyJ (\<lambda>s. s\<lparr>files := (files s)(p := None)\<rparr>)))"

definition mkdirJ :: "path \<Rightarrow> unit js" where
  "mkdirJ p = thenJ (emitJ (Mkdir p)) (modifyJ (\<lambda>s. s\<lparr>dirs := insert p (dirs s)\<rparr>))"

text \<open>\<open>spawn(path, args)\<close>: the child gets the next pid, if any, and runs \<open>path\<close>.\<close>

definition spawnJ :: "string \<Rightarrow> string list \<Rightarrow> child js" where
  "spawnJ path args =
     thenJ (emitJ (Spawn path args))
       (\<lambda>s. (Inr (Child (spawn_pid s)),
             s\<lparr>procs := (case spawn_pid s of None \<Rightarrow> procs s | Some p \<Rightarrow> (procs s)(p \<mapsto> path))\<rparr>))"

text \<open>\<open>chromeProcess.kill(sig)\<close>: \<open>SIGKILL\<close> ends the child, \<open>SIGTERM\<close> when the child
  honours it; the call itself does not throw.\<close>

definition killChildJ :: "child \<Rightarrow> signal \<Rightarrow> unit js" where
  "killChildJ c sig =
     thenJ (emitJ (KillChild sig))
       (modifyJ (\<lambda>s. case child_pid c of
                        None \<Rightarrow> s
                      | Some p \<Rightarrow> if sig = SIGKILL \<or> exits_on_term s then s\<lparr>procs := (procs s)(p := None)\<rparr>
                                 else s))"

text \<open>\<open>chromeProcess.exitCode === null\<close>: the child has a pid that is still running.\<close>

definition child_running :: "child \<Rightarrow> bool js" where
  "child_running c = getsJ (\<lambda>s. case child_pid c of None \<Rightarrow> False | Some p \<Rightarrow> p \<in> dom (procs s))"

text \<open>\<open>ps -p pid -o comm=\<close>: the command name, or a failure when no such process.\<close>

definition psJ :: "nat \<Rightarrow> string js" where
  "psJ pid =
     thenJ (emitJ (Ps pid))
       (\<lambda>s. case procs s pid of None \<Rightarrow> (Inl ''Command failed: ps'', s) | Some c \<Rightarrow> (Inr c, s))"

text \<open>\<open>process.kill(pid, sig)\<close>: throws \<open>ESRCH\<close> when there is no such process.\<close>

definition killPidJ :: "nat \<Rightarrow> signal \<Rightarrow> unit js" where
  "killPidJ pid sig =
     thenJ (emitJ (KillPid pid sig))
       (\<lambda>s. if pid \<in> dom (procs s) then (Inr (), s\<lparr>procs := (procs s)(pid := None)\<rparr>)
            else (Inl ''ESRCH'', s))"

subsection \<open>Processes and an example machine\<close>

text \<open>A new CLI process on the same machine: the world is kept, the module-level
  variables start as \<open>null\<close> and \<open>false\<close>.\<close>

definition new_process :: "st \<Rightarrow> st" where
  "new_process s = s\<lparr>stagehandInstance := None, currentPage := None, chromeProcess := None,
     weStartedChrome := False\<rparr>"

text \<open>A machine with Chrome installed, nothing persisted and no browser running, on which
  \<open>Math.random()\<close> draws one half; the witnesses of the development run on it.\<close>

definition fresh_st :: st where
  "fresh_st = \<lparr>files = Map.empty, dirs = {}, procs = Map.empty, clock = 0, fetches = [],
     engine_faults = [], chrome_path = Some ''/usr/bin/google-chrome'', spawn_pid = Some 4242,
     exits_on_term = True, random_draw = 1/2, ws_url = ''ws://127.0.0.1/devtools/browser/b1'',
     user_profile = [(''Default/Cookies'', ''c''), (''Default/Login Data'', ''secret'')],
     api_key = Some ''sk-test'', shot_path = ''agent/browser_screenshots/screenshot.png'',
     extract_json = ''{}'', observe_count = 2, trace = [],
     stagehandInstance = None, currentPage = None, chromeProcess = None, weStartedChrome = False\<rparr>"

subsection \<open>Program properties\<close>

text \<open>Two kinds of properties of a program, both closed under the combinators: it never
  throws; every run relates its start and end state by a preorder \<open>R\<close> (\<open>keepsJ R\<close>).
  The preorders used: no file outside a set of paths changes, no directory disappears,
  the trace is only appended to.\<close>

definition nothrowJ :: "'a js \<Rightarrow> bool" where
  "nothrowJ m \<longleftrightarrow> (\<forall>s. \<not> isl (fst (m s)))"

definition keepsJ :: "(st \<Rightarrow> st \<Rightarrow> bool) \<Rightarrow> 'a js \<Rightarrow> bool" where
  "keepsJ R m \<longleftrightarrow> (\<forall>s. R s (snd (m s)))"

definition files_agree :: "path set \<Rightarrow> st \<Rightarrow> st \<Rightarrow> bool" where
  "files_agree A s s' \<longleftrightarrow> (\<forall>p. p \<notin> A \<longrightarrow> files s' p = files s p)"

definition dirs_grow :: "st \<Rightarrow> st \<Rightarrow> bool" where
  "dirs_grow s s' \<longleftrightarrow> dirs s \<subseteq> dirs s'"

definition trace_grows :: "st \<Rightarrow> st \<Rightarrow> bool" where
  "trace_grows s s' \<longleftrightarrow> prefix (trace s) (trace s')"

text \<open>The screenshot helper writes to a path of the world that no program changes: a run
  keeps that path, and changes no file outside a set of paths and that path.\<close>

definition same_shot :: "st \<Rightarrow> st \<Rightarrow> bool" where
  "same_shot s s' \<longleftrightarrow> shot_path s' = shot_path s"

definition shot_agree :: "path set \<Rightarrow> st \<Rightarrow> st \<Rightarrow> bool" where
  "shot_agree A s s' \<longleftrightarrow> same_shot s s' \<and> files_agree (insert (shot_path s) A) s s'"

named_theorems prog_intros "introduction rules of the program properties"

lemmas js_defs [js_simps] = retJ_def throwJ_def bindJ_def thenJ_def catchJ_def finallyJ_def
  getsJ_def modifyJ_def skipJ_def emitJ_def

lemmas prim_defs = fetchJ_def engineJ_def sleepJ_def logJ_def existsJ_def readFileJ_def
  writeFileJ_def unlinkJ_def mkdirJ_def spawnJ_def killChildJ_def child_running_def psJ_def
  killPidJ_def

subsection \<open>The properties are compositional\<close>

lemma nothrow_retJ [prog_intros]: "nothrowJ (retJ a)"
  and nothrow_getsJ [prog_intros]: "nothrowJ (getsJ g)"
  and nothrow_modifyJ [prog_intros]: "nothrowJ (modifyJ h)"
  and nothrow_skipJ [prog_intros]: "nothrowJ skipJ"
  and nothrow_emitJ [prog_intros]: "nothrowJ (emitJ e)"
  by (simp_all add: nothrowJ_def js_simps)

lemma not_isl_iff: "\<not> isl r \<longleftrightarrow> (\<exists>a. r = Inr a)"
  by (cases r) auto

lemma nothrowD: "nothrowJ m \<Longrightarrow> \<exists>a. fst (m s) = Inr a"
  by (simp add: nothrowJ_def not_isl_iff [symmetric])

lemma nothrow_bindJ [prog_intros]:
  assumes m: "nothrowJ m" and f: "\<And>a. nothrowJ (f a)"
  shows "nothrowJ (bindJ m f)"
  unfolding nothrowJ_def
proof
  fix s
  obtain a s' where ms: "m s = (Inr a, s')"
    using nothrowD [OF m, of s] by (metis prod.collapse)
  from nothrowD [OF f, of a s'] ms show "\<not> isl (fst (bindJ m f s))"
    by (auto simp: bindJ_def)
qed

lemma nothrow_thenJ [prog_intros]: "nothrowJ m \<Longrightarrow> nothrowJ n \<Longrightarrow> nothrowJ (thenJ m n)"
  unfolding thenJ_def by (rule nothrow_bindJ)

lemma nothrow_catchJ [prog_intros]:
  assumes h: "\<And>e. nothrowJ (h e)"
  shows "nothrowJ (catchJ m h)"
  unfolding nothrowJ_def
proof
  fix s
  show "\<not> isl (fst (catchJ m h s))"
  proof (cases "m s")
    case (Pair r s')
    show ?thesis
    proof (cases r)
      case (Inl e)
      obtain a where "fst (h e s') = Inr a" using nothrowD [OF h] by blast
      with Pair Inl show ?thesis by (simp add: catchJ_def)
    next
      case (Inr a)
      with Pair show ?thesis by (simp add: catchJ_def)
    qed
  qed
qed

lemma nothrow_finallyJ [prog_intros]:
  assumes m: "nothrowJ m" and f: "nothrowJ f"
  shows "nothrowJ (finallyJ m f)"
  unfolding nothrowJ_def
proof
  fix s
  obtain a s' where ms: "m s = (Inr a, s')"
    using nothrowD [OF m, of s] by (metis prod.collapse)
  obtain b s'' where fs: "f s' = (Inr b, s'')"
    using nothrowD [OF f, of s'] by (metis prod.collapse)
  from ms fs show "\<not> isl (fst (finallyJ m f s))" by (simp add: finallyJ_def)
qed

lemma nothrow_if [prog_intros]: "nothrowJ m \<Longrightarrow> nothrowJ n \<Longrightarrow> nothrowJ (if b then m else n)"
  by simp

lemma nothrow_case_option [prog_intros]:
  "nothrowJ m \<Longrightarrow> (\<And>a. nothrowJ (f a)) \<Longrightarrow> nothrowJ (case x of None \<Rightarrow> m | Some a \<Rightarrow> f a)"
  by (cases x) simp_all

lemma keeps_retJ [prog_intros]: "reflp R \<Longrightarrow> keepsJ R (retJ a)"
  and keeps_throwJ [prog_intros]: "reflp R \<Longrightarrow> keepsJ R (throwJ e)"
  and keeps_getsJ [prog_intros]: "reflp R \<Longrightarrow> keepsJ R (getsJ g)"
  and keeps_skipJ [prog_intros]: "reflp R \<Longrightarrow> keepsJ R skipJ"
  by (simp_all add: keepsJ_def js_simps reflpD)

lemma keeps_bindJ [prog_intros]:
  assumes "transp R" and m: "keepsJ R m" and f: "\<And>a. keepsJ R (f a)"
  shows "keepsJ R (bindJ m f)"
  unfolding keepsJ_def
proof
  fix s
  obtain r s' where ms: "m s = (r, s')" by (cases "m s")
  have 1: "R s s'" using m ms by (metis keepsJ_def snd_conv)
  show "R s (snd (bindJ m f s))"
  proof (cases r)
    case (Inl e)
    with ms 1 show ?thesis by (simp add: bindJ_def)
  next
    case (Inr a)
    have "R s' (snd (f a s'))" using f by (simp add: keepsJ_def)
    with ms Inr 1 \<open>transp R\<close> show ?thesis by (simp add: bindJ_def) (erule transpE, assumption+)
  qed
qed

lemma keeps_thenJ [prog_intros]:
  "transp R \<Longrightarrow> keepsJ R m \<Longrightarrow> keepsJ R n \<Longrightarrow> keepsJ R (thenJ m n)"
  unfolding thenJ_def by (rule keeps_bindJ)

lemma keeps_catchJ [prog_intros]:
  assumes "transp R" and m: "keepsJ R m" and h: "\<And>e. keepsJ R (h e)"
  shows "keepsJ R (catchJ m h)"
  unfolding keepsJ_def
proof
  fix s
  obtain r s' where ms: "m s = (r, s')" by (cases "m s")
  have 1: "R s s'" using m ms by (metis keepsJ_def snd_conv)
  show "R s (snd (catchJ m h s))"
  proof (cases r)
    case (Inl e)
    have "R s' (snd (h e s'))" using h by (simp add: keepsJ_def)
    with ms Inl 1 \<open>transp R\<close> show ?thesis by (simp add: catchJ_def) (erule transpE, assumption+)
  next
    case (Inr a)
    with ms 1 show ?thesis by (simp add: catchJ_def)
  qed
qed

lemma keeps_finallyJ [prog_intros]:
  assumes "transp R" and m: "keepsJ R m" and f: "keepsJ R f"
  shows "keepsJ R (finallyJ m f)"
  unfolding keepsJ_def
proof
  fix s
  obtain r s' where ms: "m s = (r, s')" by (cases "m s")
  obtain q s'' where fs: "f s' = (q, s'')" by (cases "f s'")
  have "R s s'" using m ms by (metis keepsJ_def snd_conv)
  moreover have "R s' s''" using f fs by (metis keepsJ_def snd_conv)
  ultimately have "R s s''" using \<open>transp R\<close> by (blast dest: transpD)
  with ms fs show "R s (snd (finallyJ m f s))" by (cases q) (simp_all add: finallyJ_def)
qed

lemma keeps_if [prog_intros]: "keepsJ R m \<Longrightarrow> keepsJ R n \<Longrightarrow> keepsJ R (if b then m else n)"
  by simp

lemma keeps_case_option [prog_intros]:
  "keepsJ R m \<Longrightarrow> (\<And>a. keepsJ R (f a)) \<Longrightarrow> keepsJ R (case x of None \<Rightarrow> m | Some a \<Rightarrow> f a)"
  by (cases x) simp_all

lemma preorders [prog_intros]:
  "reflp (files_agree A)" "transp (files_agree A)" "reflp dirs_grow" "transp dirs_grow"
  "reflp trace_grows" "transp trace_grows"
  by (auto simp: reflp_def transp_def files_agree_def dirs_grow_def trace_grows_def
      intro: prefix_order.order_trans)

subsection \<open>The primitives\<close>

lemma keeps_modifyJ [prog_intros]:
  "(\<And>s. files (g s) = files s) \<Longrightarrow> keepsJ (files_agree A) (modifyJ g)"
  "(\<And>s. dirs (g s) = dirs s) \<Longrightarrow> keepsJ dirs_grow (modifyJ g)"
  "(\<And>s. trace (g s) = trace s) \<Longrightarrow> keepsJ trace_grows (modifyJ g)"
  by (simp_all add: keepsJ_def modifyJ_def files_agree_def dirs_grow_def trace_grows_def)

lemma keeps_emitJ [prog_intros]:
  "keepsJ (files_agree A) (emitJ e)" "keepsJ dirs_grow (emitJ e)" "keepsJ trace_grows (emitJ e)"
  by (simp_all add: keepsJ_def emitJ_def modifyJ_def files_agree_def dirs_grow_def trace_grows_def)

lemmas keeps_unfold = keepsJ_def files_agree_def dirs_grow_def trace_grows_def prim_defs js_simps

lemma keeps_files_prims [prog_intros]:
  "keepsJ (files_agree A) (fetchJ port)" "keepsJ (files_agree A) (engineJ op arg)"
  "keepsJ (files_agree A) (sleepJ ms)" "keepsJ (files_agree A) (logJ msg)"
  "keepsJ (files_agree A) (existsJ p)" "keepsJ (files_agree A) (readFileJ p)"
  "keepsJ (files_agree A) (mkdirJ p)" "keepsJ (files_agree A) (spawnJ path args)"
  "keepsJ (files_agree A) (killChildJ ch sig)" "keepsJ (files_agree A) (child_running ch)"
  "keepsJ (files_agree A) (psJ pid)" "keepsJ (files_agree A) (killPidJ pid sig)"
  "p \<in> A \<Longrightarrow> keepsJ (files_agree A) (writeFileJ p c)"
  "p \<in> A \<Longrightarrow> keepsJ (files_agree A) (unlinkJ p)"
  by (auto simp: keeps_unfold split: list.splits option.splits prod.splits)

lemma keeps_dirs_prims [prog_intros]:
  "keepsJ dirs_grow (fetchJ port)" "keepsJ dirs_grow (engineJ op arg)"
  "keepsJ dirs_grow (sleepJ ms)" "keepsJ dirs_grow (logJ msg)"
  "keepsJ dirs_grow (existsJ p)" "keepsJ dirs_grow (readFileJ p)"
  "keepsJ dirs_grow (mkdirJ p)" "keepsJ dirs_grow (spawnJ path args)"
  "keepsJ dirs_grow (killChildJ ch sig)" "keepsJ dirs_grow (child_running ch)"
  "keepsJ dirs_grow (psJ pid)" "keepsJ dirs_grow (killPidJ pid sig)"
  "keepsJ dirs_grow (writeFileJ p c)" "keepsJ dirs_grow (unlinkJ p)"
  by (auto simp: keeps_unfold split: list.splits option.splits prod.splits)

lemma keeps_trace_prims [prog_intros]:
  "keepsJ trace_grows (fetchJ port)" "keepsJ trace_grows (engineJ op arg)"
  "keepsJ trace_grows (sleepJ ms)" "keepsJ trace_grows (logJ msg)"
  "keepsJ trace_grows (existsJ p)" "keepsJ trace_grows (readFileJ p)"
  "keepsJ trace_grows (mkdirJ p)" "keepsJ trace_grows (spawnJ path args)"
  "keepsJ trace_grows (killChildJ ch sig)" "keepsJ trace_grows (child_running ch)"
  "keepsJ trace_grows (psJ pid)" "keepsJ trace_grows (killPidJ pid sig)"
  "keepsJ trace_grows (writeFileJ p c)" "keepsJ trace_grows (unlinkJ p)"
  by (auto simp: keeps_unfold split: list.splits option.splits prod.splits)

lemma keeps_shot_prims [prog_intros]:
  "keepsJ same_shot (fetchJ port)" "keepsJ same_shot (engineJ op arg)"
  "keepsJ same_shot (sleepJ ms)" "keepsJ same_shot (logJ msg)"
  "keepsJ same_shot (existsJ p)" "keepsJ same_shot (readFileJ p)"
  "keepsJ same_shot (mkdirJ p)" "keepsJ same_shot (spawnJ path args)"
  "keepsJ same_shot (killChildJ ch sig)" "keepsJ same_shot (child_running ch)"
  "keepsJ same_shot (psJ pid)" "keepsJ same_shot (killPidJ pid sig)"
  "keepsJ same_shot (writeFileJ p c)" "keepsJ same_shot (unlinkJ p)"
  "keepsJ same_shot (emitJ e)"
  "(\<And>s. shot_path (g s) = shot_path s) \<Longrightarrow> keepsJ same_shot (modifyJ g)"
  by (auto simp: keeps_unfold same_shot_def split: list.splits option.splits prod.splits)

lemma shot_preorders [prog_intros]:
  "reflp same_shot" "transp same_shot" "reflp (shot_agree A)" "transp (shot_agree A)"
  by (auto simp: reflp_def transp_def same_shot_def shot_agree_def files_agree_def)

lemma keeps_shot_agreeI: "keepsJ (files_agree A) m \<Longrightarrow> keepsJ same_shot m \<Longrightarrow> keepsJ (shot_agree A) m"
  by (auto simp: keepsJ_def shot_agree_def same_shot_def files_agree_def)

lemma keeps_shot_agree_prims [prog_intros]:
  "keepsJ (shot_agree A) (fetchJ port)" "keepsJ (shot_agree A) (engineJ op arg)"
  "keepsJ (shot_agree A) (sleepJ ms)" "keepsJ (shot_agree A) (logJ msg)"
  "keepsJ (shot_agree A) (existsJ p)" "keepsJ (shot_agree A) (emitJ e)"
  "p \<in> A \<Longrightarrow> keepsJ (shot_agree A) (writeFileJ p c)"
  "p \<in> A \<Longrightarrow> keepsJ (shot_agree A) (unlinkJ p)"
  "(\<And>s. files (g s) = files s) \<Longrightarrow> (\<And>s. shot_path (g s) = shot_path s) \<Longrightarrow>
   keepsJ (shot_agree A) (modifyJ g)"
  by (intro keeps_shot_agreeI prog_intros; assumption)+

lemma nothrow_prims [prog_intros]:
  "nothrowJ (sleepJ ms)" "nothrowJ (logJ msg)" "nothrowJ (existsJ p)" "nothrowJ (mkdirJ p)"
  "nothrowJ (spawnJ path args)" "nothrowJ (killChildJ ch sig)" "nothrowJ (child_running ch)"
  by (simp_all add: nothrowJ_def prim_defs js_simps split: prod.splits)

subsection \<open>Running the primitives\<close>

lemma thenJ_nothrow_eq: "nothrowJ m \<Longrightarrow> thenJ m n s = n (snd (m s))"
  using nothrowD [of m s] by (cases "m s") (auto simp: thenJ_def bindJ_def)

lemma finallyJ_snd: "snd (finallyJ m f s) = snd (f (snd (m s)))"
  by (simp add: finallyJ_def split: prod.splits sum.splits)

lemma keepsD: "keepsJ R m \<Longrightarrow> R s (snd (m s))"
  by (simp add: keepsJ_def)

lemma keeps_files_agree_mono: "keepsJ (files_agree A) m \<Longrightarrow> A \<subseteq> B \<Longrightarrow> keepsJ (files_agree B) m"
  by (auto simp: keepsJ_def files_agree_def)

lemma fetchJ_Nil: "fetches s = [] \<Longrightarrow> fetchJ port s = (Inl ''fetch failed'', s\<lparr>trace := trace s @ [Fetch port]\<rparr>)"
  by (simp add: fetchJ_def js_simps)

lemma fetchJ_Cons:
  "fetches s = r # rs \<Longrightarrow>
   fetchJ port s = (if r = FetchFail then Inl ''fetch failed'' else Inr (r = FetchOk),
                    s\<lparr>trace := trace s @ [Fetch port], fetches := rs\<rparr>)"
  by (simp add: fetchJ_def js_simps)

lemma engineJ_ok: "engine_faults s = [] \<Longrightarrow> engineJ op arg s = (Inr (), s\<lparr>trace := trace s @ [EngineCall op arg]\<rparr>)"
  by (simp add: engineJ_def js_simps)

lemma bindJ_retJ: "bindJ (retJ a) f = f a"
  and catchJ_retJ: "catchJ (retJ a) h = retJ a"
  and catchJ_throwJ: "catchJ (throwJ e) h = h e"
  and bindJ_throwJ: "bindJ (throwJ e) f = throwJ e"
  by (simp_all add: fun_eq_iff js_simps)

lemma thenJ_nothrow_retJ: "nothrowJ m \<Longrightarrow> fst (thenJ m (retJ a) s) = Inr a"
  by (simp add: thenJ_nothrow_eq retJ_def)

lemma catchJ_nothrow: "nothrowJ m \<Longrightarrow> catchJ m h s = m s"
  using nothrowD [of m s] by (cases "m s") (auto simp: catchJ_def)

end
