(* ===== verification/Port.thy ===== *)
theory Port
  imports World Blocklist
begin

text \<open>
  The persisted CDP port, \<open>getCdpPort\<close> of \<open>cli.ts\<close> (lines 43--56): the port is read
  from \<open>.cdp-port\<close> under the plugin root when that file exists and parses to a positive
  integer; otherwise a port is drawn by \<open>getRandomCdpPort\<close> and written to the file.
  \<open>parseInt(s, 10)\<close> is JavaScript's: an optional sign and the longest run of decimal
  digits after leading white space, \<open>NaN\<close> (here \<^const>\<open>None\<close>) without digits.
\<close>

definition CDP_PORT_FILE :: path where
  "CDP_PORT_FILE = ''.cdp-port''"

definition parseInt10 :: "string \<Rightarrow> int option" where
  "parseInt10 s =
     (let s1 = dropWhile is_js_space s;
          (sign, s2) = (case s1 of
                          c # r \<Rightarrow> if c = CHR ''-'' then (-1, r) else if c = CHR ''+'' then (1, r) else (1, s1)
                        | [] \<Rightarrow> (1, s1));
          ds = takeWhile is_digit s2
      in if ds = [] then None else Some (sign * int (digits_val ds)))"

text \<open>The \<open>try\<close> block: read, trim, parse, accept a positive value.\<close>

definition read_saved_port :: "nat option js" where
  "read_saved_port =
     catchJ
       (bindJ (readFileJ CDP_PORT_FILE) (\<lambda>c.
          retJ (case parseInt10 (js_trim c) of
                  Some v \<Rightarrow> if v > 0 then Some (nat v) else None
                | None \<Rightarrow> None)))
       (\<lambda>_. retJ None)"

definition getCdpPort :: "nat js" where
  "getCdpPort =
     bindJ (existsJ CDP_PORT_FILE) (\<lambda>ex.
     bindJ (if ex then read_saved_port else retJ None) (\<lambda>saved.
       case saved of
         Some p \<Rightarrow> retJ p
       | None \<Rightarrow>
           bindJ (getsJ (\<lambda>s. getRandomCdpPort (random_draw s))) (\<lambda>port.
           thenJ (writeFileJ CDP_PORT_FILE (show_nat port)) (retJ port))))"

text \<open>The port the file holds, as the \<open>try\<close> block reads it.\<close>

definition port_in_file :: "(path \<rightharpoonup> string) \<Rightarrow> nat option" where
  "port_in_file fs =
     (case fs CDP_PORT_FILE of
        None \<Rightarrow> None
      | Some c \<Rightarrow> (case parseInt10 (js_trim c) of Some v \<Rightarrow> if v > 0 then Some (nat v) else None | None \<Rightarrow> None))"

lemmas port_defs [eval_simps] = CDP_PORT_FILE_def parseInt10_def read_saved_port_def getCdpPort_def

subsection \<open>Lemmas\<close>

lemma digits_no_space: "\<forall>c \<in> set s. is_digit c \<Longrightarrow> dropWhile is_js_space s = s"
  by (cases s) (auto simp: is_digit_def is_js_space_def Let_def)

lemma js_trim_digits: "\<forall>c \<in> set s. is_digit c \<Longrightarrow> js_trim s = s"
  by (simp add: js_trim_def digits_no_space)

lemma parseInt10_digits:
  assumes "\<forall>c \<in> set s. is_digit c" and "s \<noteq> []"
  shows "parseInt10 s = Some (int (digits_val s))"
proof -
  obtain c r where s: "s = c # r" using assms(2) by (cases s) auto
  have "is_digit c" using assms(1) s by simp
  then have "c \<noteq> CHR ''-''" and "c \<noteq> CHR ''+''" by (auto simp: is_digit_def)
  have d: "dropWhile is_js_space (c # r) = c # r" using digits_no_space assms(1) s by blast
  have t: "takeWhile is_digit (c # r) = c # r" using assms(1) s by (simp add: takeWhile_eq_all_conv)
  show ?thesis
    unfolding parseInt10_def Let_def s d
    using \<open>c \<noteq> CHR ''-''\<close> \<open>c \<noteq> CHR ''+''\<close> by (simp only: list.case if_False prod.case t) simp
qed

lemma parseInt10_show_nat [simp]: "parseInt10 (show_nat n) = Some (int n)"
  by (simp add: parseInt10_digits)

lemma port_in_file_show_nat: "0 < n \<Longrightarrow> port_in_file (fs(CDP_PORT_FILE \<mapsto> show_nat n)) = Some n"
  by (simp add: port_in_file_def js_trim_digits)

lemma getRandomCdpPort_pos: "0 < getRandomCdpPort r"
  by (simp add: getRandomCdpPort_def)

lemma read_saved_port_eq: "read_saved_port s = (Inr (port_in_file (files s)), s)"
  by (simp add: read_saved_port_def port_in_file_def readFileJ_def js_simps split: option.splits)

lemma getCdpPort_eq:
  "getCdpPort s =
     (case port_in_file (files s) of
        Some p \<Rightarrow> (Inr p, s)
      | None \<Rightarrow>
          (let q = getRandomCdpPort (random_draw s) in
           if CDP_PORT_FILE \<in> dirs s then (Inl ''EISDIR'', s)
           else (Inr q, s\<lparr>trace := trace s @ [WriteFile CDP_PORT_FILE (show_nat q)],
                           files := (files s)(CDP_PORT_FILE \<mapsto> show_nat q)\<rparr>)))"
proof -
  have nf: "files s CDP_PORT_FILE = None \<Longrightarrow> port_in_file (files s) = None"
    by (simp add: port_in_file_def)
  show ?thesis
    by (cases "port_in_file (files s)")
       (auto simp: getCdpPort_def existsJ_def read_saved_port_eq writeFileJ_def js_simps Let_def nf)
qed

subsection \<open>Properties\<close>

text \<open>C25: once getCdpPort has returned a port, the port file holds it and a later call returns the same port and changes nothing.\<close>

theorem getCdpPort_idempotent:
  assumes "getCdpPort s = (Inr p, s')"
  shows "getCdpPort s' = (Inr p, s') \<and> port_in_file (files s') = Some p"
proof (cases "port_in_file (files s)")
  case (Some q)
  with assms show ?thesis by (simp add: getCdpPort_eq)
next
  case None
  let ?q = "getRandomCdpPort (random_draw s)"
  from assms None have nd: "CDP_PORT_FILE \<notin> dirs s"
    by (auto simp: getCdpPort_eq Let_def split: if_splits)
  from None nd have "getCdpPort s = (Inr ?q, s\<lparr>trace := trace s @ [WriteFile CDP_PORT_FILE (show_nat ?q)],
                     files := (files s)(CDP_PORT_FILE \<mapsto> show_nat ?q)\<rparr>)"
    by (simp add: getCdpPort_eq Let_def)
  from this [symmetric] assms have "(Inr ?q :: string + nat, s\<lparr>trace := trace s @ [WriteFile CDP_PORT_FILE (show_nat ?q)],
                     files := (files s)(CDP_PORT_FILE \<mapsto> show_nat ?q)\<rparr>) = (Inr p, s')"
    by (rule trans)
  then have p: "p = ?q"
    and s': "s' = s\<lparr>trace := trace s @ [WriteFile CDP_PORT_FILE (show_nat ?q)],
                     files := (files s)(CDP_PORT_FILE \<mapsto> show_nat ?q)\<rparr>"
    by auto
  have "port_in_file (files s') = Some p"
    using s' p getRandomCdpPort_pos by (simp add: port_in_file_show_nat)
  then show ?thesis by (simp add: getCdpPort_eq)
qed

theorem getCdpPort_idempotent_witness:
  "getCdpPort fresh_st = (Inr 37500, snd (getCdpPort fresh_st)) \<and>
   getCdpPort (snd (getCdpPort fresh_st)) = (Inr 37500, snd (getCdpPort fresh_st))"
proof -
  have h: "getCdpPort fresh_st = (Inr 37500, snd (getCdpPort fresh_st))"
    by (simp add: getCdpPort_eq fresh_st_def port_in_file_def getRandomCdpPort_def)
  from getCdpPort_idempotent [OF h] h show ?thesis by simp
qed

text \<open>C26: without a port file (and no directory in its place), getCdpPort returns the drawn port and writes it, in decimal, to .cdp-port.\<close>

theorem getCdpPort_fresh:
  assumes "files s CDP_PORT_FILE = None" and "CDP_PORT_FILE \<notin> dirs s"
  shows "getCdpPort s = (Inr (getRandomCdpPort (random_draw s)),
     s\<lparr>trace := trace s @ [WriteFile CDP_PORT_FILE (show_nat (getRandomCdpPort (random_draw s)))],
       files := (files s)(CDP_PORT_FILE \<mapsto> show_nat (getRandomCdpPort (random_draw s)))\<rparr>)"
  using assms by (simp add: getCdpPort_eq port_in_file_def Let_def)

theorem getCdpPort_fresh_witness:
  "fst (getCdpPort fresh_st) = Inr 37500"
proof -
  have "files fresh_st CDP_PORT_FILE = None" and "CDP_PORT_FILE \<notin> dirs fresh_st"
    by (simp_all add: fresh_st_def)
  from getCdpPort_fresh [OF this] show ?thesis
    by (simp add: fresh_st_def getRandomCdpPort_def)
qed

text \<open>The saved port is not range-checked: a file holding 99999 yields port 99999.\<close>

lemma getCdpPort_unchecked_range:
  "getCdpPort (fresh_st\<lparr>files := [CDP_PORT_FILE \<mapsto> ''99999'']\<rparr>) =
   (Inr 99999, fresh_st\<lparr>files := [CDP_PORT_FILE \<mapsto> ''99999'']\<rparr>)"
proof -
  have "port_in_file [CDP_PORT_FILE \<mapsto> ''99999''] = Some 99999"
    by (simp add: port_in_file_def js_trim_digits parseInt10_digits is_digit_def digits_val_def digit_val_def)
  then show ?thesis by (simp add: getCdpPort_eq)
qed

end
