(* ===== verification/Session.thy ===== *)
theory Session
  imports Port
begin

text \<open>
  The session lifecycle of \<open>cli.ts\<close>: \<open>initBrowser\<close> (lines 58--170) and
  \<open>closeBrowser\<close> (lines 172--245), over the state of \<open>World\<close>. \<open>initBrowser\<close> returns
  the existing engine handle when there is one; otherwise it locates Chrome, probes the
  CDP port, spawns Chrome on it when nothing answers (writing the PID file and polling the
  endpoint at most 60 times, 500 ms apart), reads the WebSocket URL, attaches the engine,
  selects the first page, sets the viewport, waits up to 30 times for the page and
  configures downloads. \<open>closeBrowser\<close> closes the engine, terminates a Chrome this
  process started, asks a Chrome still answering on the port to exit through a throw-away
  engine connection, force-kills the PID of the PID file when that process is a Chrome,
  and always deletes the PID file. The engine handle is the WebSocket URL it was created
  with; the page is the index of the page in the engine's context (always the first).
\<close>

definition PROFILE_DIR :: path where
  "PROFILE_DIR = ''.chrome-profile''"

definition PID_FILE :: path where
  "PID_FILE = ''.chrome-pid''"

definition DOWNLOADS_DIR :: path where
  "DOWNLOADS_DIR = ''agent/downloads''"

subsection \<open>The PID record\<close>

definition dq :: char where
  "dq = CHR 0x22"

definition json_key :: "string \<Rightarrow> string" where
  "json_key k = [dq] @ k @ [dq] @ '':''"

text \<open>\<open>JSON.stringify({pid, startTime})\<close>.\<close>

definition pid_json :: "nat \<Rightarrow> nat \<Rightarrow> string" where
  "pid_json pid t = ''{'' @ json_key ''pid'' @ show_nat pid @ '','' @ json_key ''startTime'' @ show_nat t @ ''}''"

text \<open>\<open>JSON.parse(content).pid\<close> on a PID file: the number of a leading \<open>pid\<close> member, as
  \<open>initBrowser\<close> writes it. Content of another shape is \<^const>\<open>None\<close>: the code then
  either throws in \<open>JSON.parse\<close> or passes a non-pid to \<open>ps\<close>, and both are caught with no
  effect but the probe.\<close>

definition pid_parse :: "string \<Rightarrow> nat option" where
  "pid_parse c =
     (let pre = ''{'' @ json_key ''pid'' in
      if \<not> prefix pre c then None
      else
        (let r = drop (length pre) c; ds = takeWhile is_digit r; rest = dropWhile is_digit r in
         if ds \<noteq> [] \<and> (hd ds \<noteq> CHR ''0'' \<or> ds = ''0'') \<and> rest \<noteq> [] \<and> hd rest \<in> {CHR '','', CHR ''}''}
         then Some (digits_val ds) else None))"

subsection \<open>initBrowser\<close>

text \<open>The probe before spawning (lines 73--81): any failure counts as not ready.\<close>

definition probe_chrome :: "nat \<Rightarrow> bool js" where
  "probe_chrome port =
     catchJ
       (bindJ (fetchJ port) (\<lambda>ok.
          if ok then thenJ (logJ (''Reusing existing Chrome instance on port '' @ show_nat port)) (retJ True)
          else retJ False))
       (\<lambda>_. retJ False)"

definition chrome_args :: "nat \<Rightarrow> string list" where
  "chrome_args port =
     [''--remote-debugging-port='' @ show_nat port, ''--user-data-dir='' @ PROFILE_DIR,
      ''--window-position=0,0'', ''--window-size=1920,1080'']"

text \<open>Lines 95--100: a truthy pid is recorded with the clock.\<close>

definition write_pid_file :: "child \<Rightarrow> unit js" where
  "write_pid_file ch =
     (case child_pid ch of
        None \<Rightarrow> skipJ
      | Some pid \<Rightarrow>
          if pid = 0 then skipJ
          else bindJ (getsJ clock) (\<lambda>t. writeFileJ PID_FILE (pid_json pid t)))"

text \<open>The readiness loop (lines 102--113), its counter counting down the tries left.\<close>

fun wait_ready :: "nat \<Rightarrow> nat \<Rightarrow> bool js" where
  "wait_ready port 0 = retJ False"
| "wait_ready port (Suc n) =
     bindJ
       (catchJ
          (bindJ (fetchJ port) (\<lambda>ok.
             if ok then thenJ (modifyJ (\<lambda>s. s\<lparr>weStartedChrome := True\<rparr>)) (retJ True)
             else retJ False))
          (\<lambda>_. retJ False))
       (\<lambda>ready. if ready then retJ True else thenJ (sleepJ 500) (wait_ready port n))"

definition launch_chrome :: "string \<Rightarrow> nat \<Rightarrow> unit js" where
  "launch_chrome chromePath port =
     bindJ (spawnJ chromePath (chrome_args port)) (\<lambda>ch.
     thenJ (modifyJ (\<lambda>s. s\<lparr>chromeProcess := Some ch\<rparr>))
     (thenJ (write_pid_file ch)
     (bindJ (wait_ready port 60) (\<lambda>ready.
        if ready then skipJ else throwJ ''Chrome failed to start''))))"

text \<open>Lines 120--123: \<open>response.json()\<close> of the version endpoint. A failed request throws
  as \<open>fetch\<close> does. The model takes a non-OK answer to have no JSON body, so that
  \<open>response.json()\<close> throws; a server answering non-OK with a JSON body, which would leave
  the URL \<open>undefined\<close> and pass it to the engine, is not modelled.\<close>

definition version_ws_url :: "nat \<Rightarrow> string js" where
  "version_ws_url port =
     bindJ (fetchJ port) (\<lambda>ok. if ok then getsJ ws_url else throwJ ''invalid json response body'')"

text \<open>The page readiness loop (lines 144--154), counting down the retries left.\<close>

fun page_ready :: "nat \<Rightarrow> unit js" where
  "page_ready 0 = skipJ"
| "page_ready (Suc n) =
     catchJ (engineJ ''evaluate'' ''document.readyState'') (\<lambda>_. thenJ (sleepJ 100) (page_ready n))"

definition setup_downloads :: "unit js" where
  "setup_downloads =
     thenJ (bindJ (existsJ DOWNLOADS_DIR) (\<lambda>ex. if ex then skipJ else mkdirJ DOWNLOADS_DIR))
       (engineJ ''Browser.setDownloadBehavior'' DOWNLOADS_DIR)"

text \<open>Lines 120--169: the handle is stored before \<open>init()\<close> runs.\<close>

definition attach_stagehand :: "nat \<Rightarrow> string js" where
  "attach_stagehand port =
     bindJ (version_ws_url port) (\<lambda>wsUrl.
     thenJ (modifyJ (\<lambda>s. s\<lparr>stagehandInstance := Some wsUrl\<rparr>))
     (thenJ (engineJ ''init'' wsUrl)
     (thenJ (modifyJ (\<lambda>s. s\<lparr>currentPage := Some 0\<rparr>))
     (thenJ (engineJ ''Emulation.setDeviceMetricsOverride'' ''1920x1080'')
     (thenJ (page_ready 30)
     (thenJ setup_downloads (retJ wsUrl)))))))"

definition initBrowser :: "nat \<Rightarrow> string js" where
  "initBrowser port =
     bindJ (getsJ stagehandInstance) (\<lambda>si.
       case si of
         Some h \<Rightarrow> retJ h
       | None \<Rightarrow>
           bindJ (getsJ chrome_path) (\<lambda>cp.
             case cp of
               None \<Rightarrow> throwJ ''Could not find Chrome installation''
             | Some chromePath \<Rightarrow>
                 bindJ (probe_chrome port) (\<lambda>ready.
                 thenJ (if ready then skipJ else launch_chrome chromePath port)
                   (attach_stagehand port))))"

subsection \<open>closeBrowser\<close>

definition close_stagehand :: "unit js" where
  "close_stagehand =
     bindJ (getsJ stagehandInstance) (\<lambda>si.
       case si of
         None \<Rightarrow> skipJ
       | Some h \<Rightarrow>
           thenJ (catchJ (engineJ ''close'' h) (\<lambda>e. logJ (''Error closing Stagehand: '' @ e)))
             (modifyJ (\<lambda>s. s\<lparr>stagehandInstance := None, currentPage := None\<rparr>)))"

definition stop_started_chrome :: "unit js" where
  "stop_started_chrome =
     bindJ (getsJ chromeProcess) (\<lambda>cp.
     bindJ (getsJ weStartedChrome) (\<lambda>w.
       case cp of
         None \<Rightarrow> skipJ
       | Some ch \<Rightarrow>
           if \<not> w then skipJ
           else
             thenJ
               (catchJ
                  (thenJ (killChildJ ch SIGTERM)
                  (thenJ (sleepJ 1000)
                  (bindJ (child_running ch) (\<lambda>r. if r then killChildJ ch SIGKILL else skipJ))))
                  (\<lambda>e. logJ (''Error killing Chrome: '' @ e)))
               (modifyJ (\<lambda>s. s\<lparr>chromeProcess := None, weStartedChrome := False\<rparr>))))"

text \<open>\<open>stdout.trim().toLowerCase().includes('chrome')\<close>.\<close>

definition is_chrome_comm :: "string \<Rightarrow> bool" where
  "is_chrome_comm out \<longleftrightarrow> js_includes (lower (js_trim out)) ''chrome''"

text \<open>Lines 221--236: the forced kill after a second probe.\<close>

definition kill_by_pid :: "unit js" where
  "kill_by_pid =
     bindJ (existsJ PID_FILE) (\<lambda>ex.
       if \<not> ex then skipJ
       else
         bindJ (readFileJ PID_FILE) (\<lambda>c.
           case pid_parse c of
             None \<Rightarrow> throwJ ''SyntaxError: Unexpected token in JSON''
           | Some pid \<Rightarrow>
               catchJ
                 (bindJ (psJ pid) (\<lambda>out. if is_chrome_comm out then killPidJ pid SIGKILL else skipJ))
                 (\<lambda>_. skipJ)))"

text \<open>Lines 201--237, the body of the outer \<open>try\<close>.\<close>

definition cdp_shutdown :: "nat \<Rightarrow> unit js" where
  "cdp_shutdown port =
     bindJ (fetchJ port) (\<lambda>ok.
       if \<not> ok then skipJ
       else
         bindJ (getsJ ws_url) (\<lambda>wsUrl.
         thenJ (engineJ ''init'' wsUrl)
         (thenJ (engineJ ''close'' wsUrl)
         (thenJ (sleepJ 2000)
         (catchJ (thenJ (fetchJ port) kill_by_pid) (\<lambda>_. skipJ))))))"

definition remove_pid_file :: "unit js" where
  "remove_pid_file =
     bindJ (existsJ PID_FILE) (\<lambda>ex. if ex then catchJ (unlinkJ PID_FILE) (\<lambda>_. skipJ) else skipJ)"

definition closeBrowser :: "nat \<Rightarrow> unit js" where
  "closeBrowser port =
     thenJ close_stagehand
     (thenJ stop_started_chrome
     (finallyJ (catchJ (cdp_shutdown port) (\<lambda>_. skipJ)) remove_pid_file))"

subsection \<open>Properties of programs on the session\<close>

text \<open>The session invariant: Chrome counts as started by this process only with a child
  handle, and a page is selected only with an engine handle.\<close>

definition session_inv :: "st \<Rightarrow> bool" where
  "session_inv s \<longleftrightarrow>
     (weStartedChrome s \<longrightarrow> chromeProcess s \<noteq> None) \<and>
     (currentPage s \<noteq> None \<longrightarrow> stagehandInstance s \<noteq> None)"

text \<open>A state predicate, kept from the start to the end of a run.\<close>

definition inv_rel :: "(st \<Rightarrow> bool) \<Rightarrow> st \<Rightarrow> st \<Rightarrow> bool" where
  "inv_rel I s s' \<longleftrightarrow> (I s \<longrightarrow> I s')"

definition same_glob :: "st \<Rightarrow> st \<Rightarrow> bool" where
  "same_glob s s' \<longleftrightarrow>
     stagehandInstance s' = stagehandInstance s \<and> currentPage s' = currentPage s \<and>
     chromeProcess s' = chromeProcess s \<and> weStartedChrome s' = weStartedChrome s"

text \<open>The invariant while Chrome is being launched and while the engine is being attached,
  and the predicates that depend on the module-level variables only.\<close>

definition launched_inv :: "st \<Rightarrow> bool" where
  "launched_inv s \<longleftrightarrow> session_inv s \<and> chromeProcess s \<noteq> None"

definition attached_inv :: "st \<Rightarrow> bool" where
  "attached_inv s \<longleftrightarrow> session_inv s \<and> stagehandInstance s \<noteq> None"

definition glob_inv :: "(st \<Rightarrow> bool) \<Rightarrow> bool" where
  "glob_inv I \<longleftrightarrow> (\<forall>s s'. same_glob s s' \<longrightarrow> I s \<longrightarrow> I s')"

text \<open>The processes and the ownership of Chrome are untouched.\<close>

definition owns_same :: "st \<Rightarrow> st \<Rightarrow> bool" where
  "owns_same s s' \<longleftrightarrow>
     procs s' = procs s \<and> chromeProcess s' = chromeProcess s \<and> weStartedChrome s' = weStartedChrome s"

text \<open>No process is started, and every pid signalled by \<open>process.kill\<close> during the run
  belonged, at its start, to a process whose command name contains \<open>chrome\<close>.\<close>

definition kill_guard :: "st \<Rightarrow> st \<Rightarrow> bool" where
  "kill_guard s s' \<longleftrightarrow>
     procs s' \<subseteq>\<^sub>m procs s \<and> prefix (trace s) (trace s') \<and>
     (\<forall>pid sig. KillPid pid sig \<in> set (drop (length (trace s)) (trace s')) \<longrightarrow>
        (\<exists>c. procs s pid = Some c \<and> is_chrome_comm c))"

text \<open>Two example machines: a Chrome left running by an earlier invocation with its PID
  file, and a session of this process that started Chrome.\<close>

definition kill_st :: st where
  "kill_st = fresh_st\<lparr>files := [PID_FILE \<mapsto> pid_json 777 5], procs := [777 \<mapsto> ''chrome''],
     fetches := [FetchOk, FetchOk]\<rparr>"

definition started_st :: st where
  "started_st = fresh_st\<lparr>procs := [4242 \<mapsto> ''/usr/bin/google-chrome''],
     stagehandInstance := Some ''ws://127.0.0.1/devtools/browser/b1'', currentPage := Some 0,
     chromeProcess := Some (Child (Some 4242)), weStartedChrome := True\<rparr>"

lemmas session_defs [eval_simps] = PROFILE_DIR_def PID_FILE_def DOWNLOADS_DIR_def dq_def json_key_def
  pid_json_def pid_parse_def probe_chrome_def chrome_args_def write_pid_file_def launch_chrome_def
  version_ws_url_def setup_downloads_def attach_stagehand_def initBrowser_def close_stagehand_def
  stop_started_chrome_def is_chrome_comm_def kill_by_pid_def cdp_shutdown_def remove_pid_file_def
  closeBrowser_def kill_st_def started_st_def

subsection \<open>The PID record\<close>

text \<open>C30: the PID record initBrowser writes parses back to the pid it records.\<close>

theorem pid_roundtrip: "pid_parse (pid_json pid t) = Some pid"
proof -
  let ?pre = "''{'' @ json_key ''pid''"
  let ?r = "show_nat pid @ CHR '','' # json_key ''startTime'' @ show_nat t @ ''}''"
  have c: "pid_json pid t = ?pre @ ?r" by (simp add: pid_json_def)
  have nd: "\<not> is_digit (CHR '','')" by (simp add: is_digit_def)
  have tw: "takeWhile is_digit ?r = show_nat pid"
    using takeWhile_digits_append [OF show_nat_all_digits nd] by simp
  have dw: "dropWhile is_digit ?r = CHR '','' # json_key ''startTime'' @ show_nat t @ ''}''"
    using dropWhile_digits_append [OF show_nat_all_digits nd] by simp
  have h: "hd (show_nat pid) \<noteq> CHR ''0'' \<or> show_nat pid = ''0''"
    using hd_show_nat_zero show_nat_zero by blast
  show ?thesis
    unfolding pid_parse_def Let_def c using h
    by (simp add: tw dw)
qed

subsection \<open>closeBrowser\<close>

lemma kill_guard_preorder [prog_intros]: "reflp kill_guard" "transp kill_guard"
proof -
  show "reflp kill_guard" by (auto simp: reflp_def kill_guard_def)
  show "transp kill_guard"
  proof (rule transpI)
    fix s s' s'' assume a: "kill_guard s s'" and b: "kill_guard s' s''"
    obtain xs where t1: "trace s' = trace s @ xs" using a by (auto simp: kill_guard_def prefix_def)
    obtain ys where t2: "trace s'' = trace s' @ ys" using b by (auto simp: kill_guard_def prefix_def)
    have le: "procs s' \<subseteq>\<^sub>m procs s" "procs s'' \<subseteq>\<^sub>m procs s'" using a b by (simp_all add: kill_guard_def)
    have "KillPid pid sig \<in> set (drop (length (trace s)) (trace s'')) \<Longrightarrow>
          \<exists>c. procs s pid = Some c \<and> is_chrome_comm c" for pid sig
    proof -
      assume "KillPid pid sig \<in> set (drop (length (trace s)) (trace s''))"
      then have "KillPid pid sig \<in> set xs \<or> KillPid pid sig \<in> set ys" using t1 t2 by simp
      then show ?thesis
      proof
        assume "KillPid pid sig \<in> set xs"
        with a t1 show ?thesis by (auto simp: kill_guard_def)
      next
        assume "KillPid pid sig \<in> set ys"
        with b t2 obtain c where "procs s' pid = Some c" "is_chrome_comm c" by (auto simp: kill_guard_def)
        with le(1) show ?thesis by (auto simp: map_le_def dom_def)
      qed
    qed
    with a b t1 t2 le show "kill_guard s s''"
      by (auto simp: kill_guard_def intro: map_le_trans)
  qed
qed

lemma same_glob_preorder [prog_intros]: "reflp same_glob" "transp same_glob"
  by (auto simp: reflp_def transp_def same_glob_def)

lemma keeps_kill_guard_prims [prog_intros]:
  "keepsJ kill_guard (fetchJ port)" "keepsJ kill_guard (engineJ op arg)"
  "keepsJ kill_guard (sleepJ ms)" "keepsJ kill_guard (logJ msg)"
  "keepsJ kill_guard (existsJ p)" "keepsJ kill_guard (readFileJ p)"
  "keepsJ kill_guard (mkdirJ p)" "keepsJ kill_guard (writeFileJ p c)" "keepsJ kill_guard (unlinkJ p)"
  "keepsJ kill_guard (killChildJ ch sig)" "keepsJ kill_guard (child_running ch)"
  "keepsJ kill_guard (getsJ g)" "keepsJ kill_guard (retJ a)" "keepsJ kill_guard (throwJ e)"
  "keepsJ kill_guard skipJ"
  by (auto simp: keepsJ_def kill_guard_def prim_defs js_simps map_le_def split: list.splits option.splits prod.splits)

lemma keeps_kill_guard_modifyJ [prog_intros]:
  "(\<And>s. procs (g s) = procs s \<and> trace (g s) = trace s) \<Longrightarrow> keepsJ kill_guard (modifyJ g)"
  by (simp add: keepsJ_def kill_guard_def modifyJ_def)

lemma keeps_kill_guard_ps_kill [prog_intros]:
  "keepsJ kill_guard (bindJ (psJ pid) (\<lambda>out. if is_chrome_comm out then killPidJ pid SIGKILL else skipJ))"
  by (auto simp: keepsJ_def kill_guard_def prim_defs js_simps map_le_def split: option.splits)

lemma keeps_glob_prims [prog_intros]:
  "keepsJ same_glob (fetchJ port)" "keepsJ same_glob (engineJ op arg)"
  "keepsJ same_glob (sleepJ ms)" "keepsJ same_glob (logJ msg)"
  "keepsJ same_glob (existsJ p)" "keepsJ same_glob (readFileJ p)"
  "keepsJ same_glob (mkdirJ p)" "keepsJ same_glob (writeFileJ p c)" "keepsJ same_glob (unlinkJ p)"
  "keepsJ same_glob (killChildJ ch sig)" "keepsJ same_glob (child_running ch)"
  "keepsJ same_glob (psJ pid)" "keepsJ same_glob (killPidJ pid sig)" "keepsJ same_glob (spawnJ path args)"
  "keepsJ same_glob (getsJ g)" "keepsJ same_glob (retJ a)" "keepsJ same_glob (throwJ e)"
  "keepsJ same_glob skipJ"
  by (auto simp: keepsJ_def same_glob_def prim_defs js_simps split: list.splits option.splits prod.splits)

lemma nothrow_closeBrowser [prog_intros]: "nothrowJ (closeBrowser port)"
  unfolding closeBrowser_def close_stagehand_def stop_started_chrome_def remove_pid_file_def
  by (intro prog_intros)

text \<open>C11: closeBrowser never throws: every failure of the engine, of the CDP endpoint, of ps and of the file system is caught.\<close>

theorem closeBrowser_never_throws: "fst (closeBrowser port s) = Inr ()"
  using nothrowD [OF nothrow_closeBrowser, of port s] by auto

lemma keeps_closeBrowser:
  assumes "reflp R" "transp R" "keepsJ R close_stagehand" "keepsJ R stop_started_chrome"
    "keepsJ R (cdp_shutdown port)" "keepsJ R remove_pid_file"
  shows "keepsJ R (closeBrowser port)"
  unfolding closeBrowser_def by (intro prog_intros assms)

lemma kill_guard_kill_by_pid: "keepsJ kill_guard kill_by_pid"
  unfolding kill_by_pid_def by (intro prog_intros)

lemma kill_guard_closeBrowser: "keepsJ kill_guard (closeBrowser port)"
proof (rule keeps_closeBrowser)
  show "keepsJ kill_guard (cdp_shutdown port)"
    unfolding cdp_shutdown_def by (intro prog_intros kill_guard_kill_by_pid)
  show "keepsJ kill_guard close_stagehand" "keepsJ kill_guard stop_started_chrome"
    "keepsJ kill_guard remove_pid_file"
    unfolding close_stagehand_def stop_started_chrome_def remove_pid_file_def by (intro prog_intros; simp)+
qed (rule prog_intros)+

lemma files_closeBrowser: "keepsJ (files_agree {PID_FILE}) (closeBrowser port)"
proof (rule keeps_closeBrowser)
  show "keepsJ (files_agree {PID_FILE}) (cdp_shutdown port)"
    unfolding cdp_shutdown_def kill_by_pid_def by (intro prog_intros)
  show "keepsJ (files_agree {PID_FILE}) close_stagehand" "keepsJ (files_agree {PID_FILE}) stop_started_chrome"
    "keepsJ (files_agree {PID_FILE}) remove_pid_file"
    unfolding close_stagehand_def stop_started_chrome_def remove_pid_file_def by (intro prog_intros; simp)+
qed (rule prog_intros)+

lemma files_closeBrowser_mono: "PID_FILE \<in> A \<Longrightarrow> keepsJ (files_agree A) (closeBrowser port)"
  by (rule keeps_files_agree_mono [OF files_closeBrowser]) simp

lemma files_wait_ready: "keepsJ (files_agree A) (wait_ready port n)"
  by (induction n) (simp_all add: prog_intros)

lemma files_page_ready: "keepsJ (files_agree A) (page_ready n)"
  by (induction n) (simp_all add: prog_intros)

text \<open>initBrowser writes no file but the PID file.\<close>

lemma files_initBrowser: "PID_FILE \<in> A \<Longrightarrow> keepsJ (files_agree A) (initBrowser port)"
  unfolding initBrowser_def probe_chrome_def launch_chrome_def write_pid_file_def attach_stagehand_def
    version_ws_url_def setup_downloads_def
  by (intro prog_intros files_wait_ready files_page_ready; simp)

lemma shot_wait_ready: "keepsJ same_shot (wait_ready port n)"
  by (induction n) (simp_all add: prog_intros)

lemma shot_page_ready: "keepsJ same_shot (page_ready n)"
  by (induction n) (simp_all add: prog_intros)

text \<open>Neither function changes the screenshot path of the world, so they keep
  \<^const>\<open>shot_agree\<close> for every set of paths holding the PID file.\<close>

lemma shot_agree_initBrowser: "PID_FILE \<in> A \<Longrightarrow> keepsJ (shot_agree A) (initBrowser port)"
proof (rule keeps_shot_agreeI)
  show "keepsJ same_shot (initBrowser port)"
    unfolding initBrowser_def probe_chrome_def launch_chrome_def write_pid_file_def attach_stagehand_def
      version_ws_url_def setup_downloads_def
    by (intro prog_intros shot_wait_ready shot_page_ready; simp)
qed (rule files_initBrowser)

lemma shot_agree_closeBrowser: "PID_FILE \<in> A \<Longrightarrow> keepsJ (shot_agree A) (closeBrowser port)"
proof (rule keeps_shot_agreeI)
  show "keepsJ same_shot (closeBrowser port)"
  proof (rule keeps_closeBrowser)
    show "keepsJ same_shot (cdp_shutdown port)"
      unfolding cdp_shutdown_def kill_by_pid_def by (intro prog_intros)
    show "keepsJ same_shot close_stagehand" "keepsJ same_shot stop_started_chrome"
      "keepsJ same_shot remove_pid_file"
      unfolding close_stagehand_def stop_started_chrome_def remove_pid_file_def by (intro prog_intros; simp)+
  qed (rule prog_intros)+
qed (rule files_closeBrowser_mono)

lemma dirs_closeBrowser: "keepsJ dirs_grow (closeBrowser port)"
proof (rule keeps_closeBrowser)
  show "keepsJ dirs_grow (cdp_shutdown port)"
    unfolding cdp_shutdown_def kill_by_pid_def by (intro prog_intros)
  show "keepsJ dirs_grow close_stagehand" "keepsJ dirs_grow stop_started_chrome"
    "keepsJ dirs_grow remove_pid_file"
    unfolding close_stagehand_def stop_started_chrome_def remove_pid_file_def by (intro prog_intros; simp)+
qed (rule prog_intros)+

lemma nothrow_close_parts [prog_intros]: "nothrowJ close_stagehand" "nothrowJ stop_started_chrome"
  unfolding close_stagehand_def stop_started_chrome_def by (intro prog_intros)+

lemma remove_pid_file_gone: "files (snd (remove_pid_file s)) PID_FILE = None"
  by (auto simp: remove_pid_file_def prim_defs js_simps split: prod.splits)

text \<open>C2: whatever the engine, the CDP endpoint, ps and kill do during shutdown, closeBrowser
  leaves no PID file behind (unlink of the existing file is modelled as succeeding).\<close>

theorem closeBrowser_removes_pid_file: "files (snd (closeBrowser port s)) PID_FILE = None"
  by (simp add: closeBrowser_def finallyJ_snd remove_pid_file_gone thenJ_nothrow_eq nothrow_close_parts
      nothrow_thenJ)

subsection \<open>The session invariant\<close>

lemma inv_rel_preorder [prog_intros]: "reflp (inv_rel I)" "transp (inv_rel I)"
  by (auto simp: reflp_def transp_def inv_rel_def)

lemma glob_invs [prog_intros]: "glob_inv session_inv" "glob_inv launched_inv" "glob_inv attached_inv"
  by (auto simp: glob_inv_def same_glob_def session_inv_def launched_inv_def attached_inv_def)

lemma keeps_inv_of_glob: "keepsJ same_glob m \<Longrightarrow> glob_inv I \<Longrightarrow> keepsJ (inv_rel I) m"
  unfolding keepsJ_def glob_inv_def inv_rel_def by blast

lemma keeps_inv_prims [prog_intros]:
  "glob_inv I \<Longrightarrow> keepsJ (inv_rel I) (fetchJ port)" "glob_inv I \<Longrightarrow> keepsJ (inv_rel I) (engineJ op arg)"
  "glob_inv I \<Longrightarrow> keepsJ (inv_rel I) (sleepJ ms)" "glob_inv I \<Longrightarrow> keepsJ (inv_rel I) (logJ msg)"
  "glob_inv I \<Longrightarrow> keepsJ (inv_rel I) (existsJ p)" "glob_inv I \<Longrightarrow> keepsJ (inv_rel I) (readFileJ p)"
  "glob_inv I \<Longrightarrow> keepsJ (inv_rel I) (mkdirJ p)" "glob_inv I \<Longrightarrow> keepsJ (inv_rel I) (writeFileJ p c)"
  "glob_inv I \<Longrightarrow> keepsJ (inv_rel I) (unlinkJ p)" "glob_inv I \<Longrightarrow> keepsJ (inv_rel I) (killChildJ ch sig)"
  "glob_inv I \<Longrightarrow> keepsJ (inv_rel I) (child_running ch)" "glob_inv I \<Longrightarrow> keepsJ (inv_rel I) (psJ pid)"
  "glob_inv I \<Longrightarrow> keepsJ (inv_rel I) (killPidJ pid sig)"
  "glob_inv I \<Longrightarrow> keepsJ (inv_rel I) (spawnJ path args)"
  by (intro keeps_inv_of_glob keeps_glob_prims; assumption)+

lemma keeps_inv_modifyJ [prog_intros]: "(\<And>s. I s \<Longrightarrow> I (g s)) \<Longrightarrow> keepsJ (inv_rel I) (modifyJ g)"
  by (simp add: keepsJ_def inv_rel_def modifyJ_def)

text \<open>A modification that establishes a stronger invariant for the rest of a run.\<close>

lemma keeps_inv_establish:
  assumes "\<And>s. I s \<Longrightarrow> J (g s)" and "keepsJ (inv_rel J) n" and "\<And>s. J s \<Longrightarrow> I s"
  shows "keepsJ (inv_rel I) (thenJ (modifyJ g) n)"
  using assms by (simp add: keepsJ_def inv_rel_def thenJ_def bindJ_def modifyJ_def)

lemma launched_wait_ready: "keepsJ (inv_rel launched_inv) (wait_ready port n)"
proof (induction n)
  case 0
  show ?case by (simp add: prog_intros)
next
  case (Suc n)
  show ?case
    unfolding wait_ready.simps
    by (intro prog_intros Suc; simp add: launched_inv_def session_inv_def)
qed

lemma attached_page_ready: "keepsJ (inv_rel attached_inv) (page_ready n)"
  by (induction n) (simp_all add: prog_intros)

lemma launched_rest:
  "keepsJ (inv_rel launched_inv)
     (thenJ (write_pid_file ch)
       (bindJ (wait_ready port 60) (\<lambda>ready. if ready then skipJ else throwJ ''Chrome failed to start'')))"
  unfolding write_pid_file_def by (intro prog_intros launched_wait_ready)

lemma inv_launch_chrome: "keepsJ (inv_rel session_inv) (launch_chrome chromePath port)"
  unfolding launch_chrome_def
proof (rule keeps_bindJ)
  show "keepsJ (inv_rel session_inv) (thenJ (modifyJ (\<lambda>s. s\<lparr>chromeProcess := Some ch\<rparr>))
          (thenJ (write_pid_file ch) (bindJ (wait_ready port 60)
            (\<lambda>ready. if ready then skipJ else throwJ ''Chrome failed to start''))))" for ch
    by (rule keeps_inv_establish [OF _ launched_rest]) (simp_all add: launched_inv_def session_inv_def)
qed (intro prog_intros)+

lemma attached_rest:
  "keepsJ (inv_rel attached_inv)
     (thenJ (engineJ ''init'' wsUrl) (thenJ (modifyJ (\<lambda>s. s\<lparr>currentPage := Some 0\<rparr>))
     (thenJ (engineJ ''Emulation.setDeviceMetricsOverride'' ''1920x1080'')
     (thenJ (page_ready 30) (thenJ setup_downloads (retJ wsUrl))))))"
  unfolding setup_downloads_def
  by (intro prog_intros attached_page_ready; simp add: attached_inv_def session_inv_def)

lemma inv_attach_stagehand: "keepsJ (inv_rel session_inv) (attach_stagehand port)"
  unfolding attach_stagehand_def
proof (rule keeps_bindJ)
  show "keepsJ (inv_rel session_inv) (version_ws_url port)"
    unfolding version_ws_url_def by (intro prog_intros)
  show "keepsJ (inv_rel session_inv) (thenJ (modifyJ (\<lambda>s. s\<lparr>stagehandInstance := Some wsUrl\<rparr>))
          (thenJ (engineJ ''init'' wsUrl) (thenJ (modifyJ (\<lambda>s. s\<lparr>currentPage := Some 0\<rparr>))
          (thenJ (engineJ ''Emulation.setDeviceMetricsOverride'' ''1920x1080'')
          (thenJ (page_ready 30) (thenJ setup_downloads (retJ wsUrl)))))))" for wsUrl
    by (rule keeps_inv_establish [OF _ attached_rest]) (simp_all add: attached_inv_def session_inv_def)
qed (rule prog_intros)

lemma inv_initBrowser: "keepsJ (inv_rel session_inv) (initBrowser port)"
  unfolding initBrowser_def probe_chrome_def
  by (intro prog_intros inv_launch_chrome inv_attach_stagehand)

lemma inv_closeBrowser: "keepsJ (inv_rel session_inv) (closeBrowser port)"
proof (rule keeps_closeBrowser)
  show "keepsJ (inv_rel session_inv) (cdp_shutdown port)"
    unfolding cdp_shutdown_def kill_by_pid_def by (intro prog_intros)
  show "keepsJ (inv_rel session_inv) close_stagehand" "keepsJ (inv_rel session_inv) stop_started_chrome"
    "keepsJ (inv_rel session_inv) remove_pid_file"
    unfolding close_stagehand_def stop_started_chrome_def remove_pid_file_def
    by (intro prog_intros; simp add: session_inv_def)+
qed (rule prog_intros)+

subsection \<open>What closeBrowser does to the session\<close>

lemma close_stagehand_eq:
  "stagehandInstance (snd (close_stagehand s)) = None \<and>
   currentPage (snd (close_stagehand s)) = (if stagehandInstance s = None then currentPage s else None) \<and>
   chromeProcess (snd (close_stagehand s)) = chromeProcess s \<and>
   weStartedChrome (snd (close_stagehand s)) = weStartedChrome s \<and> procs (snd (close_stagehand s)) = procs s"
  by (auto simp: close_stagehand_def prim_defs js_simps split: option.splits list.splits prod.splits sum.splits)

lemma stop_started_chrome_eq:
  "stagehandInstance (snd (stop_started_chrome s)) = stagehandInstance s \<and>
   currentPage (snd (stop_started_chrome s)) = currentPage s \<and>
   chromeProcess (snd (stop_started_chrome s)) = (if weStartedChrome s then None else chromeProcess s) \<and>
   weStartedChrome (snd (stop_started_chrome s)) = (weStartedChrome s \<and> chromeProcess s = None)"
  by (auto simp: stop_started_chrome_def prim_defs js_simps split: option.splits prod.splits sum.splits)

lemma stop_started_chrome_kills:
  "weStartedChrome s \<Longrightarrow> chromeProcess s = Some (Child (Some pid)) \<Longrightarrow>
   procs (snd (stop_started_chrome s)) pid = None"
  by (auto simp: stop_started_chrome_def prim_defs js_simps split: prod.splits sum.splits)

lemma closeBrowser_snd:
  "snd (closeBrowser port s) =
     snd (finallyJ (catchJ (cdp_shutdown port) (\<lambda>_. skipJ)) remove_pid_file
            (snd (stop_started_chrome (snd (close_stagehand s)))))"
  by (simp add: closeBrowser_def thenJ_nothrow_eq nothrow_close_parts)

lemma close_tail_keeps:
  "keepsJ same_glob (finallyJ (catchJ (cdp_shutdown port) (\<lambda>_. skipJ)) remove_pid_file)"
  "keepsJ kill_guard (finallyJ (catchJ (cdp_shutdown port) (\<lambda>_. skipJ)) remove_pid_file)"
  unfolding cdp_shutdown_def kill_by_pid_def remove_pid_file_def
  by (intro prog_intros kill_guard_kill_by_pid [unfolded kill_by_pid_def])+

lemma closeBrowser_detaches: "stagehandInstance (snd (closeBrowser port s)) = None"
proof -
  have "same_glob (snd (stop_started_chrome (snd (close_stagehand s)))) (snd (closeBrowser port s))"
    unfolding closeBrowser_snd by (rule keepsD [OF close_tail_keeps(1)])
  then show ?thesis by (simp add: same_glob_def stop_started_chrome_eq close_stagehand_eq)
qed

text \<open>C15: from a state satisfying the session invariant, closeBrowser clears the engine handle, the page and the ownership flag, and forgets the child exactly when this process had started Chrome.\<close>

theorem closeBrowser_resets:
  assumes "session_inv s"
  shows "stagehandInstance (snd (closeBrowser port s)) = None \<and> currentPage (snd (closeBrowser port s)) = None \<and>
         \<not> weStartedChrome (snd (closeBrowser port s)) \<and>
         chromeProcess (snd (closeBrowser port s)) = (if weStartedChrome s then None else chromeProcess s)"
proof -
  let ?s2 = "snd (stop_started_chrome (snd (close_stagehand s)))"
  have "same_glob ?s2 (snd (closeBrowser port s))"
    unfolding closeBrowser_snd by (rule keepsD [OF close_tail_keeps(1)])
  with assms show ?thesis
    by (auto simp: same_glob_def stop_started_chrome_eq close_stagehand_eq session_inv_def)
qed

text \<open>C14: a Chrome child this process started is no longer running after closeBrowser.\<close>

theorem closeBrowser_stops_started_chrome:
  assumes "weStartedChrome s" and "chromeProcess s = Some (Child (Some pid))"
  shows "procs (snd (closeBrowser port s)) pid = None"
proof -
  let ?s1 = "snd (close_stagehand s)"
  let ?s2 = "snd (stop_started_chrome ?s1)"
  have "procs ?s2 pid = None"
    using assms close_stagehand_eq [of s] by (intro stop_started_chrome_kills) simp_all
  moreover have "kill_guard ?s2 (snd (closeBrowser port s))"
    unfolding closeBrowser_snd by (rule keepsD [OF close_tail_keeps(2)])
  ultimately show ?thesis by (auto simp: kill_guard_def map_le_def dom_def)
qed

subsection \<open>initBrowser\<close>

text \<open>C8: initBrowser is idempotent: with an engine handle present it returns it and changes nothing.\<close>

theorem initBrowser_reuses_handle:
  "stagehandInstance s = Some h \<Longrightarrow> initBrowser port s = (Inr h, s)"
  by (simp add: initBrowser_def js_simps)

text \<open>Without a Chrome installation initBrowser throws Could not find Chrome installation and changes nothing.\<close>

theorem initBrowser_no_chrome:
  "stagehandInstance s = None \<Longrightarrow> chrome_path s = None \<Longrightarrow>
   initBrowser port s = (Inl ''Could not find Chrome installation'', s)"
  by (simp add: initBrowser_def js_simps)

lemma wait_ready_silent:
  "fetches s = [] \<Longrightarrow>
   wait_ready port n s =
     (Inr False, s\<lparr>trace := trace s @ concat (replicate n [Fetch port, Sleep 500]), clock := clock s + 500 * n\<rparr>)"
proof (induction n arbitrary: s)
  case 0
  then show ?case by (simp add: js_simps)
next
  case (Suc n)
  let ?t = "s\<lparr>trace := trace s @ [Fetch port, Sleep 500], clock := clock s + 500\<rparr>"
  have "wait_ready port (Suc n) s = wait_ready port n ?t"
    using Suc.prems by (simp add: fetchJ_Nil sleepJ_def js_simps)
  also have "\<dots> = (Inr False, s\<lparr>trace := trace s @ concat (replicate (Suc n) [Fetch port, Sleep 500]),
                                 clock := clock s + 500 * Suc n\<rparr>)"
    using Suc.prems by (simp add: Suc.IH add.assoc)
  finally show ?case .
qed

lemma wait_ready_ready:
  assumes "fetches s = fs @ FetchOk # rest" and "FetchOk \<notin> set fs" and "length fs < n"
  shows "wait_ready port n s =
     (Inr True, s\<lparr>trace := trace s @ concat (replicate (length fs) [Fetch port, Sleep 500]) @ [Fetch port],
                  fetches := rest, clock := clock s + 500 * length fs, weStartedChrome := True\<rparr>)"
  using assms
proof (induction fs arbitrary: s n)
  case Nil
  then obtain m where "n = Suc m" by (cases n) auto
  with Nil.prems show ?case by (simp add: fetchJ_Cons js_simps)
next
  case (Cons r fs)
  then obtain m where n: "n = Suc m" and m: "length fs < m" by (cases n) auto
  let ?t = "s\<lparr>fetches := fs @ FetchOk # rest, trace := trace s @ [Fetch port, Sleep 500], clock := clock s + 500\<rparr>"
  have "r \<noteq> FetchOk" using Cons.prems by auto
  then have "wait_ready port n s = wait_ready port m ?t"
    using Cons.prems n by (simp add: fetchJ_Cons sleepJ_def js_simps)
  also have "\<dots> = (Inr True, s\<lparr>trace := trace s @ concat (replicate (length (r # fs)) [Fetch port, Sleep 500]) @ [Fetch port],
                  fetches := rest, clock := clock s + 500 * length (r # fs), weStartedChrome := True\<rparr>)"
    using Cons.prems m by (simp add: Cons.IH add.assoc)
  finally show ?case .
qed

lemma initBrowser_silent:
  assumes "stagehandInstance s = None" and "chrome_path s = Some cp" and "fetches s = []"
    and "PID_FILE \<notin> dirs s"
  shows "fst (initBrowser port s) = Inl ''Chrome failed to start'' \<and>
         clock (snd (initBrowser port s)) = clock s + 30000 \<and>
         count_list (trace (snd (initBrowser port s))) (Fetch port) = count_list (trace s) (Fetch port) + 61 \<and>
         chromeProcess (snd (initBrowser port s)) = Some (Child (spawn_pid s)) \<and>
         weStartedChrome (snd (initBrowser port s)) = weStartedChrome s \<and>
         stagehandInstance (snd (initBrowser port s)) = None \<and>
         (\<forall>pid. spawn_pid s = Some pid \<longrightarrow> 0 < pid \<longrightarrow>
            procs (snd (initBrowser port s)) pid = Some cp \<and>
            files (snd (initBrowser port s)) PID_FILE = Some (pid_json pid (clock s)))"
  using assms
  by (simp add: initBrowser_def probe_chrome_def launch_chrome_def write_pid_file_def prim_defs js_simps
      fetchJ_Nil wait_ready_silent count_list_concat_replicate split: option.splits)

text \<open>C21: when nothing ever answers on the CDP port, initBrowser spawns Chrome, probes 61 times over 30 seconds and throws Chrome failed to start, without taking ownership.\<close>

theorem initBrowser_launch_timeout:
  assumes "stagehandInstance s = None" and "chrome_path s = Some cp" and "fetches s = []"
    and "PID_FILE \<notin> dirs s"
  shows "fst (initBrowser port s) = Inl ''Chrome failed to start'' \<and>
         clock (snd (initBrowser port s)) = clock s + 30000 \<and>
         count_list (trace (snd (initBrowser port s))) (Fetch port) = count_list (trace s) (Fetch port) + 61 \<and>
         chromeProcess (snd (initBrowser port s)) = Some (Child (spawn_pid s)) \<and>
         weStartedChrome (snd (initBrowser port s)) = weStartedChrome s \<and>
         stagehandInstance (snd (initBrowser port s)) = None"
  using initBrowser_silent [OF assms] by simp

lemma page_ready_ok:
  "0 < n \<Longrightarrow> engine_faults s = [] \<Longrightarrow>
   page_ready n s = (Inr (), s\<lparr>trace := trace s @ [EngineCall ''evaluate'' ''document.readyState'']\<rparr>)"
  by (cases n) (simp_all add: engineJ_ok js_simps)

text \<open>C20: when the probe fails and a later poll within the 60 tries succeeds, initBrowser spawns Chrome, records its pid, takes ownership and attaches the engine to the first page.\<close>

theorem initBrowser_launch_success:
  assumes "stagehandInstance s = None" and "chrome_path s = Some cp" and "spawn_pid s = Some pid"
    and "0 < pid" and "PID_FILE \<notin> dirs s" and "fetches s = p0 # fs @ FetchOk # FetchOk # rest"
    and "p0 \<noteq> FetchOk" and "FetchOk \<notin> set fs" and "length fs < 60" and "engine_faults s = []"
    and "files s DOWNLOADS_DIR = None"
  shows "fst (initBrowser port s) = Inr (ws_url s) \<and> weStartedChrome (snd (initBrowser port s)) \<and>
         chromeProcess (snd (initBrowser port s)) = Some (Child (Some pid)) \<and>
         procs (snd (initBrowser port s)) pid = Some cp \<and>
         stagehandInstance (snd (initBrowser port s)) = Some (ws_url s) \<and>
         currentPage (snd (initBrowser port s)) = Some 0 \<and>
         files (snd (initBrowser port s)) PID_FILE = Some (pid_json pid (clock s)) \<and>
         clock (snd (initBrowser port s)) = clock s + 500 * length fs \<and>
         DOWNLOADS_DIR \<in> dirs (snd (initBrowser port s))"
  using assms
  by (simp add: initBrowser_def probe_chrome_def launch_chrome_def write_pid_file_def attach_stagehand_def
      version_ws_url_def setup_downloads_def prim_defs js_simps fetchJ_Cons engineJ_ok page_ready_ok
      wait_ready_ready [where fs = fs and rest = "FetchOk # rest"] domIff PID_FILE_def DOWNLOADS_DIR_def)

lemma owns_same_preorder [prog_intros]: "reflp owns_same" "transp owns_same"
  by (auto simp: reflp_def transp_def owns_same_def)

lemma keeps_owns_prims [prog_intros]:
  "keepsJ owns_same (fetchJ port)" "keepsJ owns_same (engineJ op arg)"
  "keepsJ owns_same (sleepJ ms)" "keepsJ owns_same (logJ msg)"
  "keepsJ owns_same (existsJ p)" "keepsJ owns_same (readFileJ p)"
  "keepsJ owns_same (mkdirJ p)" "keepsJ owns_same (writeFileJ p c)" "keepsJ owns_same (unlinkJ p)"
  "keepsJ owns_same (getsJ g)" "keepsJ owns_same (retJ a)" "keepsJ owns_same (throwJ e)"
  "keepsJ owns_same skipJ"
  by (auto simp: keepsJ_def owns_same_def prim_defs js_simps split: list.splits option.splits prod.splits)

lemma keeps_owns_modifyJ [prog_intros]:
  "(\<And>s. owns_same s (g s)) \<Longrightarrow> keepsJ owns_same (modifyJ g)"
  by (simp add: keepsJ_def modifyJ_def)

lemma owns_page_ready: "keepsJ owns_same (page_ready n)"
  by (induction n) (simp_all add: prog_intros)

lemma owns_attach_stagehand: "keepsJ owns_same (attach_stagehand port)"
  unfolding attach_stagehand_def version_ws_url_def setup_downloads_def
  by (intro prog_intros owns_page_ready; simp add: owns_same_def)

text \<open>C19: when a Chrome already answers the probe, initBrowser starts no process and leaves the child handle and the ownership flag as they were.\<close>

theorem initBrowser_attaches_running:
  assumes "stagehandInstance s = None" and "chrome_path s = Some cp" and "fetches s = FetchOk # rest"
  shows "procs (snd (initBrowser port s)) = procs s \<and>
         chromeProcess (snd (initBrowser port s)) = chromeProcess s \<and>
         weStartedChrome (snd (initBrowser port s)) = weStartedChrome s"
proof -
  let ?s1 = "s\<lparr>fetches := rest,
                trace := trace s @ [Fetch port, Log (''Reusing existing Chrome instance on port '' @ show_nat port)]\<rparr>"
  have "initBrowser port s = attach_stagehand port ?s1"
    using assms by (simp add: initBrowser_def probe_chrome_def logJ_def fetchJ_Cons js_simps)
  with keepsD [OF owns_attach_stagehand [of port], of ?s1] show ?thesis by (simp add: owns_same_def)
qed

subsection \<open>closeBrowser: files and processes\<close>

text \<open>C10: closeBrowser changes no file but the PID file and removes no directory: the port file and the persistent profile are kept.\<close>

theorem closeBrowser_preserves_profile:
  "(\<forall>p. p \<noteq> PID_FILE \<longrightarrow> files (snd (closeBrowser port s)) p = files s p) \<and>
   dirs s \<subseteq> dirs (snd (closeBrowser port s))"
  using keepsD [OF files_closeBrowser [of port], of s] keepsD [OF dirs_closeBrowser [of port], of s]
  by (simp add: files_agree_def dirs_grow_def)

text \<open>C3: every process closeBrowser force-kills by pid was, when it started, a process whose command name contains chrome.\<close>

theorem closeBrowser_kills_only_chrome:
  assumes "KillPid pid sig \<in> set (trace (snd (closeBrowser port s)))" and "KillPid pid sig \<notin> set (trace s)"
  shows "\<exists>c. procs s pid = Some c \<and> is_chrome_comm c"
proof -
  have kg: "kill_guard s (snd (closeBrowser port s))" by (rule keepsD [OF kill_guard_closeBrowser])
  then obtain xs where "trace (snd (closeBrowser port s)) = trace s @ xs" by (auto simp: kill_guard_def prefix_def)
  with assms have "KillPid pid sig \<in> set (drop (length (trace s)) (trace (snd (closeBrowser port s))))" by simp
  with kg show ?thesis unfolding kill_guard_def by blast
qed

subsection \<open>Witnesses\<close>

lemma kill_st_run: "KillPid 777 SIGKILL \<in> set (trace (snd (closeBrowser 37500 kill_st)))"
  by (simp add: kill_st_def fresh_st_def closeBrowser_def close_stagehand_def stop_started_chrome_def
      cdp_shutdown_def kill_by_pid_def remove_pid_file_def prim_defs js_simps pid_parse_def pid_json_def
      show_nat.simps js_trim_def eval_simps)

theorem closeBrowser_preserves_profile_witness:
  "files (snd (closeBrowser 37500 kill_st)) CDP_PORT_FILE = files kill_st CDP_PORT_FILE \<and>
   dirs kill_st \<subseteq> dirs (snd (closeBrowser 37500 kill_st))"
  using closeBrowser_preserves_profile [of 37500 kill_st] by (simp add: PID_FILE_def CDP_PORT_FILE_def)

theorem closeBrowser_kills_only_chrome_witness:
  "KillPid 777 SIGKILL \<in> set (trace (snd (closeBrowser 37500 kill_st))) \<and>
   (\<exists>c. procs kill_st 777 = Some c \<and> is_chrome_comm c)"
  using kill_st_run closeBrowser_kills_only_chrome [OF kill_st_run] by (simp add: kill_st_def fresh_st_def)

theorem closeBrowser_resets_witness:
  "stagehandInstance (snd (closeBrowser 37500 started_st)) = None \<and>
   chromeProcess (snd (closeBrowser 37500 started_st)) = None"
  using closeBrowser_resets [of started_st 37500] by (simp add: started_st_def fresh_st_def session_inv_def)

theorem closeBrowser_stops_started_chrome_witness:
  "procs (snd (closeBrowser 37500 started_st)) 4242 = None"
  using closeBrowser_stops_started_chrome [of started_st 4242 37500] by (simp add: started_st_def)

theorem initBrowser_reuses_handle_witness:
  "initBrowser 37500 started_st = (Inr ''ws://127.0.0.1/devtools/browser/b1'', started_st)"
  using initBrowser_reuses_handle [of started_st] by (simp add: started_st_def)

theorem initBrowser_no_chrome_witness:
  "initBrowser 37500 (fresh_st\<lparr>chrome_path := None\<rparr>) =
   (Inl ''Could not find Chrome installation'', fresh_st\<lparr>chrome_path := None\<rparr>)"
  using initBrowser_no_chrome [of "fresh_st\<lparr>chrome_path := None\<rparr>"] by (simp add: fresh_st_def)

theorem initBrowser_launch_timeout_witness:
  "fst (initBrowser 37500 fresh_st) = Inl ''Chrome failed to start'' \<and>
   clock (snd (initBrowser 37500 fresh_st)) = 30000"
  using initBrowser_launch_timeout [of fresh_st "''/usr/bin/google-chrome''" 37500]
  by (simp add: fresh_st_def PID_FILE_def)

theorem initBrowser_launch_success_witness:
  "fst (initBrowser 37500 (fresh_st\<lparr>fetches := [FetchFail, FetchOk, FetchOk]\<rparr>)) =
     Inr ''ws://127.0.0.1/devtools/browser/b1'' \<and>
   weStartedChrome (snd (initBrowser 37500 (fresh_st\<lparr>fetches := [FetchFail, FetchOk, FetchOk]\<rparr>)))"
  using initBrowser_launch_success [of "fresh_st\<lparr>fetches := [FetchFail, FetchOk, FetchOk]\<rparr>"
      "''/usr/bin/google-chrome''" 4242 FetchFail "[]" "[]" 37500]
  by (simp add: fresh_st_def PID_FILE_def DOWNLOADS_DIR_def)

theorem initBrowser_attaches_running_witness:
  "procs (snd (initBrowser 37500 (fresh_st\<lparr>fetches := [FetchOk, FetchOk]\<rparr>))) = Map.empty \<and>
   \<not> weStartedChrome (snd (initBrowser 37500 (fresh_st\<lparr>fetches := [FetchOk, FetchOk]\<rparr>)))"
  using initBrowser_attaches_running [of "fresh_st\<lparr>fetches := [FetchOk, FetchOk]\<rparr>"
      "''/usr/bin/google-chrome''" "[FetchOk]" 37500]
  by (simp add: fresh_st_def)

end
