(* ===== verification/Profile.thy ===== *)
theory Profile
  imports Session
begin

text \<open>
  The persistent Chrome profile. \<open>prepareChromeProfile\<close> lives in \<open>browser-utils.ts\<close>,
  which is not part of the sources, so it is modelled from the spec (section 4.2): when the
  profile directory \<open>.chrome-profile\<close> does not exist, it is created and the files of the
  user's own profile are copied into it, except those whose name is one of
  \<open>PROFILE_EXCLUDED_FILES\<close>; when it exists, nothing happens. \<open>cleanupChromeProfile\<close>
  (\<open>security.ts\<close>, lines 551--561 of \<open>src/src/cli.ts\<close>) removes a directory tree with
  \<open>rmSync(dir, {recursive: true, force: true})\<close>. A path is a string relative to the
  plugin root; a file is under a directory when its path starts with the directory and a
  slash.
\<close>

definition basename :: "path \<Rightarrow> string" where
  "basename p = rev (takeWhile (\<lambda>c. c \<noteq> CHR ''/'') (rev p))"

definition under :: "path \<Rightarrow> path \<Rightarrow> bool" where
  "under d p \<longleftrightarrow> prefix (d @ ''/'') p"

definition profile_target :: "path \<Rightarrow> path" where
  "profile_target p = PROFILE_DIR @ ''/'' @ p"

definition excluded :: "path \<Rightarrow> bool" where
  "excluded p \<longleftrightarrow> basename p \<in> set PROFILE_EXCLUDED_FILES"

text \<open>The copy, one file of the user's profile after the other.\<close>

fun copy_profile :: "(path \<times> string) list \<Rightarrow> unit js" where
  "copy_profile [] = skipJ"
| "copy_profile ((p, c) # fs) =
     thenJ (if excluded p then skipJ else writeFileJ (profile_target p) c) (copy_profile fs)"

definition prepareChromeProfile :: "unit js" where
  "prepareChromeProfile =
     bindJ (existsJ PROFILE_DIR) (\<lambda>ex.
       if ex then skipJ
       else thenJ (mkdirJ PROFILE_DIR) (bindJ (getsJ user_profile) copy_profile))"

text \<open>\<open>rmSync(d, {recursive: true, force: true})\<close>: the directory and everything under it
  disappear; a missing path is no error.\<close>

definition rmTreeJ :: "path \<Rightarrow> unit js" where
  "rmTreeJ d =
     thenJ (emitJ (Unlink d))
       (modifyJ (\<lambda>s. s\<lparr>files := (\<lambda>p. if p = d \<or> under d p then None else files s p),
                         dirs := {x \<in> dirs s. x \<noteq> d \<and> \<not> under d x}\<rparr>))"

definition cleanupChromeProfile :: "path \<Rightarrow> bool js" where
  "cleanupChromeProfile profileDir =
     catchJ
       (bindJ (existsJ profileDir) (\<lambda>ex.
          if ex then thenJ (rmTreeJ profileDir) (retJ True) else retJ False))
       (\<lambda>e. thenJ (logJ (''Warning: Failed to clean up chrome profile: '' @ e)) (retJ False))"

text \<open>The files the preparation may write: copies of non-excluded files, in the profile.\<close>

definition profile_copies :: "path set" where
  "profile_copies = {profile_target q | q. \<not> excluded q}"

lemmas profile_defs [eval_simps] = basename_def under_def profile_target_def excluded_def
  prepareChromeProfile_def rmTreeJ_def cleanupChromeProfile_def

subsection \<open>Lemmas\<close>

lemma keeps_copy_profile: "keepsJ (files_agree profile_copies) (copy_profile fs)"
proof (induction fs rule: copy_profile.induct)
  case 1
  then show ?case by (simp add: prog_intros)
next
  case (2 p c fs)
  have w: "keepsJ (files_agree profile_copies) (if excluded p then skipJ else writeFileJ (profile_target p) c)"
    by (cases "excluded p") (auto simp: profile_copies_def intro: prog_intros)
  show ?case
    unfolding copy_profile.simps by (rule keeps_thenJ [OF _ w "2.IH"]) (rule prog_intros)
qed

lemma dirs_copy_profile: "keepsJ dirs_grow (copy_profile fs)"
  by (induction fs rule: copy_profile.induct) (simp_all add: prog_intros)

lemma prepare_skip:
  "PROFILE_DIR \<in> dom (files s) \<or> PROFILE_DIR \<in> dirs s \<Longrightarrow> prepareChromeProfile s = (Inr (), s)"
  by (simp add: prepareChromeProfile_def existsJ_def js_simps)

lemma prepare_dir_exists: "PROFILE_DIR \<in> dirs (snd (prepareChromeProfile s)) \<or>
    PROFILE_DIR \<in> dom (files (snd (prepareChromeProfile s)))"
proof (cases "PROFILE_DIR \<in> dom (files s) \<or> PROFILE_DIR \<in> dirs s")
  case True
  then show ?thesis by (auto simp: prepareChromeProfile_def existsJ_def js_simps)
next
  case False
  let ?t = "snd (mkdirJ PROFILE_DIR s)"
  have t: "PROFILE_DIR \<in> dirs ?t" by (simp add: mkdirJ_def js_simps)
  have "dirs_grow ?t (snd (copy_profile (user_profile ?t) ?t))"
    by (rule keepsD [OF dirs_copy_profile])
  with False t show ?thesis
    by (auto simp: prepareChromeProfile_def existsJ_def mkdirJ_def js_simps dirs_grow_def)
qed

text \<open>On an existing profile directory the preparation
  does nothing: the diverged profile is never refreshed from the user's profile.\<close>

theorem prepareChromeProfile_noop:
  "PROFILE_DIR \<in> dirs s \<Longrightarrow> prepareChromeProfile s = (Inr (), s)"
  by (simp add: prepare_skip)

text \<open>Running the preparation twice is running it
  once.\<close>

theorem prepareChromeProfile_idempotent:
  "prepareChromeProfile (snd (prepareChromeProfile s)) = (Inr (), snd (prepareChromeProfile s))"
  using prepare_dir_exists [of s] by (intro prepare_skip) blast

text \<open>C12: the preparation changes no file but copies, into
  the profile, of files whose name is not excluded: it never writes a login or autofill
  store.\<close>

theorem prepareChromeProfile_excludes:
  assumes "files (snd (prepareChromeProfile s)) p \<noteq> files s p"
  shows "\<exists>q. p = PROFILE_DIR @ ''/'' @ q \<and> basename q \<notin> set PROFILE_EXCLUDED_FILES"
proof -
  have "keepsJ (files_agree profile_copies) prepareChromeProfile"
    unfolding prepareChromeProfile_def by (intro prog_intros keeps_copy_profile)
  then have "files_agree profile_copies s (snd (prepareChromeProfile s))" by (rule keepsD)
  with assms have "p \<in> profile_copies" by (auto simp: files_agree_def)
  then show ?thesis by (auto simp: profile_copies_def profile_target_def excluded_def)
qed

subsection \<open>Witnesses\<close>

theorem prepareChromeProfile_noop_witness:
  "prepareChromeProfile (fresh_st\<lparr>dirs := {PROFILE_DIR}\<rparr>) = (Inr (), fresh_st\<lparr>dirs := {PROFILE_DIR}\<rparr>)"
  using prepareChromeProfile_noop [of "fresh_st\<lparr>dirs := {PROFILE_DIR}\<rparr>"] by simp

theorem prepareChromeProfile_excludes_witness:
  "files (snd (prepareChromeProfile fresh_st)) ''.chrome-profile/Default/Cookies'' = Some ''c'' \<and>
   basename ''Default/Cookies'' \<notin> set PROFILE_EXCLUDED_FILES"
proof -
  have run: "files (snd (prepareChromeProfile fresh_st)) ''.chrome-profile/Default/Cookies'' = Some ''c''"
    by (simp add: fresh_st_def prepareChromeProfile_def existsJ_def mkdirJ_def writeFileJ_def js_simps
        PROFILE_DIR_def profile_target_def excluded_def basename_def PROFILE_EXCLUDED_FILES_def)
  have "files (snd (prepareChromeProfile fresh_st)) ''.chrome-profile/Default/Cookies'' \<noteq>
        files fresh_st ''.chrome-profile/Default/Cookies''"
    using run by (simp add: fresh_st_def)
  from prepareChromeProfile_excludes [OF this] run show ?thesis
    by (auto simp: PROFILE_DIR_def)
qed

end
