(* ===== verification/Commands.thy ===== *)
theory Commands
  imports Profile
begin

text \<open>
  The commands of \<open>cli.ts\<close> (lines 247--353), the dispatcher \<open>main\<close> (lines 356--416)
  and one run of the CLI process (the module top level, lines 27--35, 56 and 429). A command
  returns a \<open>cmd_result\<close>: \<open>{success: true, message?, screenshot?}\<close> or
  \<open>{success: false, error}\<close>. \<open>takeScreenshot\<close> (in \<open>browser-utils.ts\<close>, not part of the
  sources) asks the engine for an image and saves it to a file under the plugin root whose
  path it returns: the path is the screenshot path of the world, the image content is not
  modelled.
  \<open>JSON.parse(args[2])\<close> followed by \<open>Object.entries\<close> is the parameter \<open>jp\<close> of the
  dispatcher: \<^const>\<open>None\<close> when \<open>JSON.parse\<close> throws, \<open>Some None\<close> for a falsy value,
  \<open>Some (Some entries)\<close> otherwise, a type that is not a string being any other text.
  A run of the process resets the module-level variables, exits with code 1 when no API
  key is found, computes \<open>CDP_PORT\<close> with \<open>getCdpPort\<close> (a throw there is an uncaught
  exception of the module) and runs \<open>main\<close>, whose rejection is printed by
  \<open>main().catch(console.error)\<close>.
\<close>

datatype cmd_result = Ok "string option" "string option" | Err string

datatype outcome = NoApiKey | Crashed string | Rejected string | Printed nat cmd_result

definition nl :: char where
  "nl = CHR 0x0A"

definition quoted :: "string \<Rightarrow> string" where
  "quoted s = [dq] @ s @ [dq]"

definition takeScreenshot :: "string js" where
  "takeScreenshot =
     thenJ (engineJ ''screenshot'' [])
       (bindJ (getsJ shot_path) (\<lambda>p. thenJ (writeFileJ p ''<png>'') (retJ p)))"

subsection \<open>The commands\<close>

text \<open>Lines 262--264: the second \<open>goto\<close> runs when the first rejects.\<close>

definition page_goto :: "string \<Rightarrow> unit js" where
  "page_goto url =
     catchJ (engineJ ''goto networkidle'' url) (\<lambda>_. engineJ ''goto domcontentloaded'' url)"

definition navigate :: "string list \<Rightarrow> nat \<Rightarrow> string \<Rightarrow> cmd_result js" where
  "navigate bl port url =
     (let blockedDomain = getBlockedDomain bl url in
      if js_truthy blockedDomain then
        retJ (Err (''BLOCKED: Navigation to '' @ quoted (the blockedDomain) @ '' is restricted by security policy.''))
      else
        catchJ
          (bindJ (initBrowser port) (\<lambda>_.
           thenJ (page_goto url)
           (thenJ (sleepJ 3000)
           (bindJ takeScreenshot (\<lambda>p. retJ (Ok (Some (''Successfully navigated to '' @ url)) (Some p)))))))
          (\<lambda>e. retJ (Err e)))"

definition act :: "string list \<Rightarrow> nat \<Rightarrow> string \<Rightarrow> cmd_result js" where
  "act bl port action =
     (let blockedDomain = actionReferencesBlockedDomain bl action in
      if js_truthy blockedDomain then
        retJ (Err (''BLOCKED: Action references restricted domain '' @ quoted (the blockedDomain) @ ''.''))
      else
        catchJ
          (bindJ (initBrowser port) (\<lambda>_.
           thenJ (engineJ ''act'' action)
           (bindJ takeScreenshot (\<lambda>p.
              retJ (Ok (Some (''Successfully performed action: '' @ action)) (Some p))))))
          (\<lambda>e. retJ (Err e)))"

text \<open>The zod type of a schema entry (lines 310--315).\<close>

definition zod_type :: "string \<Rightarrow> string option" where
  "zod_type t =
     (if t = ''string'' then Some ''z.string()''
      else if t = ''number'' then Some ''z.number()''
      else if t = ''boolean'' then Some ''z.boolean()'' else None)"

text \<open>Lines 304--320: the loop over the entries and the final test. \<open>zodSchema\<close> is an
  object literal: assigning a zod type (an object) to its key \<open>__proto__\<close> replaces its
  prototype and adds no own key, so \<open>Object.keys\<close> does not count it.\<close>

definition build_schema :: "(string \<times> string) list \<Rightarrow> (string \<times> string) list option" where
  "build_schema entries =
     (let (zodSchema, hasValidTypes) =
        foldl (\<lambda>(z, ok) (key, ty).
                 case zod_type ty of
                   Some zt \<Rightarrow> (if key = ''__proto__'' then z else z @ [(key, zt)], ok)
                 | None \<Rightarrow> (z, False))
              ([], True) entries
      in if hasValidTypes \<and> zodSchema \<noteq> [] then Some zodSchema else None)"

definition extract_arg :: "string \<Rightarrow> (string \<times> string) list option \<Rightarrow> string" where
  "extract_arg instruction zso =
     (case zso of None \<Rightarrow> instruction | Some z \<Rightarrow> instruction @ '' schema: '' @ js_join '','' (map fst z))"

definition extract_cmd :: "nat \<Rightarrow> string \<Rightarrow> (string \<times> string) list option \<Rightarrow> cmd_result js" where
  "extract_cmd port instruction schema =
     catchJ
       (bindJ (initBrowser port) (\<lambda>_.
        let zso = (case schema of None \<Rightarrow> None | Some entries \<Rightarrow> build_schema entries) in
        thenJ (engineJ ''extract'' (extract_arg instruction zso))
        (bindJ (getsJ extract_json) (\<lambda>result.
         bindJ takeScreenshot (\<lambda>p.
           retJ (Ok (Some (''Successfully extracted data: '' @ result)) (Some p)))))))
       (\<lambda>e. retJ (Err e))"

text \<open>Line 339: \<open>${actions}\<close> of an array of action objects is their string
  conversions, \<open>[object Object]\<close>, joined by commas.\<close>

definition observe :: "nat \<Rightarrow> string \<Rightarrow> cmd_result js" where
  "observe port query =
     catchJ
       (bindJ (initBrowser port) (\<lambda>_.
        thenJ (engineJ ''observe'' query)
        (bindJ (getsJ observe_count) (\<lambda>n.
         bindJ takeScreenshot (\<lambda>p.
           retJ (Ok (Some (''Successfully observed: '' @ js_join '','' (replicate n ''[object Object]'')))
                    (Some p)))))))
       (\<lambda>e. retJ (Err e))"

definition screenshot :: "nat \<Rightarrow> cmd_result js" where
  "screenshot port =
     catchJ
       (bindJ (initBrowser port) (\<lambda>_. bindJ takeScreenshot (\<lambda>p. retJ (Ok None (Some p)))))
       (\<lambda>e. retJ (Err e))"

text \<open>Lines 393--400: the \<open>close\<close> command.\<close>

definition close_cmd :: "nat \<Rightarrow> cmd_result js" where
  "close_cmd port =
     thenJ (closeBrowser port)
     (thenJ (bindJ (existsJ CDP_PORT_FILE) (\<lambda>ex.
               if ex then catchJ (unlinkJ CDP_PORT_FILE) (\<lambda>_. skipJ) else skipJ))
       (retJ (Ok (Some ''Browser closed (profile preserved)'') None)))"

subsection \<open>The dispatcher and the process\<close>

definition usage :: "string \<Rightarrow> string \<Rightarrow> string" where
  "usage cmd arg = ''Usage: browser '' @ cmd @ '' '' @ arg"

definition command_name :: "string list \<Rightarrow> string" where
  "command_name args = (case args of [] \<Rightarrow> ''undefined'' | c # _ \<Rightarrow> c)"

definition unknown_command :: "string \<Rightarrow> string" where
  "unknown_command c =
     ''Unknown command: '' @ c @ [nl] @ ''Available: navigate, act, extract, observe, screenshot, close''"

type_synonym schema_parser = "string \<Rightarrow> (string \<times> string) list option option"

text \<open>The \<open>switch\<close> of \<open>main\<close> (lines 366--404); \<open>args\<close> is \<open>process.argv.slice(2)\<close>.\<close>

definition dispatch :: "string list \<Rightarrow> nat \<Rightarrow> schema_parser \<Rightarrow> string list \<Rightarrow> cmd_result js" where
  "dispatch bl port jp args =
     (let command = command_name args; rest = drop 1 args in
      if command = ''navigate'' then
        (if rest = [] then throwJ (usage ''navigate'' ''<url>'') else navigate bl port (rest ! 0))
      else if command = ''act'' then
        (if rest = [] then throwJ (usage ''act'' (quoted ''<action>''))
         else act bl port (js_join '' '' rest))
      else if command = ''extract'' then
        (if rest = [] then throwJ (usage ''extract'' (quoted ''<instruction>''))
         else if 2 \<le> length rest \<and> rest ! 1 \<noteq> [] then
           (case jp (rest ! 1) of
              None \<Rightarrow> throwJ ''SyntaxError: Unexpected token in JSON''
            | Some schema \<Rightarrow> extract_cmd port (rest ! 0) schema)
         else extract_cmd port (rest ! 0) None)
      else if command = ''observe'' then
        (if rest = [] then throwJ (usage ''observe'' (quoted ''<query>''))
         else observe port (js_join '' '' rest))
      else if command = ''screenshot'' then screenshot port
      else if command = ''close'' then close_cmd port
      else throwJ (unknown_command command))"

text \<open>\<open>main\<close>: the profile is prepared outside the \<open>try\<close>; a thrown error is printed
  after \<open>closeBrowser\<close> with exit code 1, a result with exit code 0.\<close>

definition main :: "string list \<Rightarrow> schema_parser \<Rightarrow> nat \<Rightarrow> string list \<Rightarrow> outcome js" where
  "main bl jp port args =
     thenJ prepareChromeProfile
       (catchJ (bindJ (dispatch bl port jp args) (\<lambda>r. retJ (Printed 0 r)))
          (\<lambda>e. thenJ (closeBrowser port) (retJ (Printed 1 (Err e)))))"

definition cli_run :: "string list \<Rightarrow> schema_parser \<Rightarrow> string list \<Rightarrow> outcome js" where
  "cli_run bl jp args =
     thenJ (modifyJ new_process)
       (bindJ (getsJ api_key) (\<lambda>k.
          case k of
            None \<Rightarrow> retJ NoApiKey
          | Some _ \<Rightarrow>
              catchJ (bindJ getCdpPort (\<lambda>port. catchJ (main bl jp port args) (\<lambda>e. retJ (Rejected e))))
                (\<lambda>e. retJ (Crashed e))))"

text \<open>The exit code of the process: \<open>process.exit\<close> after printing, 1 for a missing key
  and for an uncaught exception, 0 when the event loop ends after \<open>console.error\<close>.\<close>

definition exit_code :: "outcome \<Rightarrow> nat" where
  "exit_code out =
     (case out of NoApiKey \<Rightarrow> 1 | Crashed _ \<Rightarrow> 1 | Rejected _ \<Rightarrow> 0 | Printed c _ \<Rightarrow> c)"

text \<open>The \<open>SIGINT\<close> and \<open>SIGTERM\<close> handlers (lines 419--427).\<close>

definition on_signal :: "nat \<Rightarrow> nat js" where
  "on_signal port = thenJ (closeBrowser port) (retJ 0)"

subsection \<open>The process as a state machine\<close>

text \<open>The steps a CLI process can take on its state: a command, the handler of a signal,
  and any change other processes make to the world (they cannot touch this process's
  module-level variables).\<close>

inductive proc_step :: "string list \<Rightarrow> nat \<Rightarrow> st \<Rightarrow> st \<Rightarrow> bool" for bl port where
  navigate_step: "proc_step bl port s (snd (navigate bl port url s))"
| act_step: "proc_step bl port s (snd (act bl port action s))"
| extract_step: "proc_step bl port s (snd (extract_cmd port instruction schema s))"
| observe_step: "proc_step bl port s (snd (observe port query s))"
| screenshot_step: "proc_step bl port s (snd (screenshot port s))"
| close_step: "proc_step bl port s (snd (close_cmd port s))"
| signal_step: "proc_step bl port s (snd (on_signal port s))"
| world_step: "same_glob s s' \<Longrightarrow> proc_step bl port s s'"

text \<open>Effects that reach the browser or another process.\<close>

fun browser_effect :: "effect \<Rightarrow> bool" where
  "browser_effect (Fetch _) = True"
| "browser_effect (Spawn _ _) = True"
| "browser_effect (EngineCall _ _) = True"
| "browser_effect (KillChild _) = True"
| "browser_effect (KillPid _ _) = True"
| "browser_effect (Ps _) = True"
| "browser_effect _ = False"

definition no_browser :: "st \<Rightarrow> st \<Rightarrow> bool" where
  "no_browser s s' \<longleftrightarrow>
     prefix (trace s) (trace s') \<and> (\<forall>e \<in> set (drop (length (trace s)) (trace s')). \<not> browser_effect e)"

text \<open>The example machine with the profile already prepared.\<close>

definition prepared_st :: st where
  "prepared_st = fresh_st\<lparr>dirs := {PROFILE_DIR}\<rparr>"

lemmas commands_defs [eval_simps] = nl_def quoted_def takeScreenshot_def page_goto_def navigate_def
  act_def zod_type_def build_schema_def extract_arg_def extract_cmd_def observe_def screenshot_def
  close_cmd_def usage_def command_name_def unknown_command_def dispatch_def main_def cli_run_def
  exit_code_def on_signal_def prepared_st_def

subsection \<open>Commands\<close>

lemma nothrow_commands [prog_intros]:
  "nothrowJ (navigate bl port url)" "nothrowJ (act bl port action)"
  "nothrowJ (extract_cmd port instruction schema)" "nothrowJ (observe port query)"
  "nothrowJ (screenshot port)" "nothrowJ (close_cmd port)"
  unfolding navigate_def act_def extract_cmd_def observe_def screenshot_def close_cmd_def Let_def
  by (intro prog_intros)+

lemma navigate_blocked:
  "js_truthy (getBlockedDomain bl url) \<Longrightarrow>
   navigate bl port url = retJ (Err (''BLOCKED: Navigation to '' @ quoted (the (getBlockedDomain bl url)) @
     '' is restricted by security policy.''))"
  by (simp add: navigate_def)

lemma act_blocked:
  "js_truthy (actionReferencesBlockedDomain bl action) \<Longrightarrow>
   act bl port action = retJ (Err (''BLOCKED: Action references restricted domain '' @
     quoted (the (actionReferencesBlockedDomain bl action)) @ ''.''))"
  by (simp add: act_def)

lemma shot_agree_takeScreenshot: "keepsJ (shot_agree A) takeScreenshot"
  unfolding keepsJ_def
proof
  fix s
  obtain r s1 where e: "engineJ ''screenshot'' [] s = (r, s1)" by fastforce
  have "same_shot s (snd (engineJ ''screenshot'' [] s))" "files_agree {} s (snd (engineJ ''screenshot'' [] s))"
    by (rule keepsD, rule prog_intros)+
  then have "same_shot s s1" "files_agree {} s s1" using e by simp_all
  then show "shot_agree A s (snd (takeScreenshot s))" using e
    by (cases r) (auto simp: takeScreenshot_def shot_agree_def same_shot_def files_agree_def writeFileJ_def js_simps)
qed

text \<open>No command writes a file but the PID file, the port file and the screenshot.\<close>

lemma shot_agree_dispatch: "keepsJ (shot_agree {PID_FILE, CDP_PORT_FILE}) (dispatch bl port jp args)"
  unfolding dispatch_def navigate_def act_def extract_cmd_def observe_def screenshot_def close_cmd_def
    page_goto_def Let_def
  by (intro prog_intros shot_agree_initBrowser shot_agree_closeBrowser shot_agree_takeScreenshot; simp)

subsection \<open>Blocked commands never reach the browser\<close>

lemma no_browser_preorder [prog_intros]: "reflp no_browser" "transp no_browser"
proof -
  show "reflp no_browser" by (simp add: reflp_def no_browser_def)
  show "transp no_browser"
  proof (rule transpI)
    fix s s' s'' assume a: "no_browser s s'" and b: "no_browser s' s''"
    obtain xs where 1: "trace s' = trace s @ xs" using a by (auto simp: no_browser_def prefix_def)
    obtain ys where 2: "trace s'' = trace s' @ ys" using b by (auto simp: no_browser_def prefix_def)
    show "no_browser s s''" using a b 1 2 by (auto simp: no_browser_def)
  qed
qed

lemma keeps_no_browser_prims [prog_intros]:
  "keepsJ no_browser (sleepJ ms)" "keepsJ no_browser (logJ msg)"
  "keepsJ no_browser (existsJ p)" "keepsJ no_browser (readFileJ p)"
  "keepsJ no_browser (mkdirJ p)" "keepsJ no_browser (writeFileJ p c)" "keepsJ no_browser (unlinkJ p)"
  "keepsJ no_browser (getsJ g)" "keepsJ no_browser (retJ a)" "keepsJ no_browser (throwJ e)"
  "keepsJ no_browser skipJ"
  by (auto simp: keepsJ_def no_browser_def prim_defs js_simps split: list.splits option.splits prod.splits)

lemma keeps_no_browser_modifyJ [prog_intros]:
  "(\<And>s. trace (g s) = trace s) \<Longrightarrow> keepsJ no_browser (modifyJ g)"
  by (simp add: keepsJ_def no_browser_def modifyJ_def)

lemma no_browser_copy_profile: "keepsJ no_browser (copy_profile fs)"
  by (induction fs rule: copy_profile.induct) (simp_all add: prog_intros)

lemma no_browser_setup:
  "keepsJ no_browser getCdpPort" "keepsJ no_browser prepareChromeProfile"
  unfolding getCdpPort_def read_saved_port_def prepareChromeProfile_def
  by (intro prog_intros no_browser_copy_profile)+

lemma keeps_cli_run_ret:
  assumes "\<And>port. dispatch bl port jp args = retJ (r port)"
  shows "keepsJ no_browser (cli_run bl jp args)"
  unfolding cli_run_def main_def assms bindJ_retJ catchJ_retJ
  by (intro prog_intros no_browser_setup; simp add: new_process_def)

text \<open>C1: a navigate whose URL is blocked, or an act whose text references a blocked domain, runs as a whole CLI process without a single effect on the browser or another process: no CDP request, no spawn, no engine call, no signal.\<close>

theorem cli_blocked_no_browser:
  assumes "(args = ''navigate'' # url # extra \<and> js_truthy (getBlockedDomain bl url)) \<or>
           (args = ''act'' # words \<and> words \<noteq> [] \<and> js_truthy (actionReferencesBlockedDomain bl (js_join '' '' words)))"
  shows "no_browser s (snd (cli_run bl jp args s))"
proof -
  from assms obtain r where "\<And>port. dispatch bl port jp args = retJ r"
    by (auto simp: dispatch_def command_name_def navigate_blocked act_blocked)
  then show ?thesis by (rule keepsD [OF keeps_cli_run_ret])
qed

subsection \<open>Exit codes and results of main\<close>

lemma main_throw:
  assumes "PROFILE_DIR \<in> dirs s" and "fst (dispatch bl port jp args s) = Inl e"
  shows "fst (main bl jp port args s) = Inr (Printed 1 (Err e))"
proof -
  obtain s1 where d: "dispatch bl port jp args s = (Inl e, s1)" using assms(2) by (cases "dispatch bl port jp args s") auto
  have "main bl jp port args s =
        catchJ (bindJ (dispatch bl port jp args) (\<lambda>r. retJ (Printed 0 r)))
          (\<lambda>e. thenJ (closeBrowser port) (retJ (Printed 1 (Err e)))) s"
    using assms(1) by (simp add: main_def thenJ_def bindJ_def prepare_skip)
  then show ?thesis
    using d thenJ_nothrow_retJ [OF nothrow_closeBrowser, of port "Printed 1 (Err e)" s1]
    by (simp add: catchJ_def bindJ_def)
qed

text \<open>C13: once the persistent profile exists, a whole CLI process changes no file but the
  PID file, the port file and the screenshot it saves, whatever the command and whatever
  fails: the profile is never refreshed from the user's profile and no command writes into
  it unless the screenshot path lies in it.\<close>

theorem main_profile_untouched:
  assumes "PROFILE_DIR \<in> dirs s"
  shows "\<forall>p. p \<noteq> PID_FILE \<and> p \<noteq> CDP_PORT_FILE \<and> p \<noteq> shot_path s \<longrightarrow>
           files (snd (main bl jp port args s)) p = files s p"
proof -
  have "keepsJ (shot_agree {PID_FILE, CDP_PORT_FILE})
          (catchJ (bindJ (dispatch bl port jp args) (\<lambda>r. retJ (Printed 0 r)))
             (\<lambda>e. thenJ (closeBrowser port) (retJ (Printed 1 (Err e)))))"
    by (intro prog_intros shot_agree_dispatch shot_agree_closeBrowser; simp)
  then have "shot_agree {PID_FILE, CDP_PORT_FILE} s (snd (main bl jp port args s))"
    using assms by (simp add: keepsJ_def main_def thenJ_def bindJ_def prepare_skip)
  then show ?thesis by (simp add: shot_agree_def files_agree_def)
qed

text \<open>C27: main always prints a result: exit code 1 exactly when the dispatched command
  throws, 0 when it returns, whether the result is a success or a handled failure.\<close>

theorem main_exit_code:
  assumes "PROFILE_DIR \<in> dirs s"
  shows "\<exists>r. fst (main bl jp port args s) =
               Inr (Printed (if isl (fst (dispatch bl port jp args s)) then 1 else 0) r)"
proof (cases "dispatch bl port jp args s")
  case (Pair r s1)
  then show ?thesis
  proof (cases r)
    case (Inl e)
    with Pair main_throw [OF assms, of bl port jp args e] show ?thesis by auto
  next
    case (Inr v)
    with Pair assms show ?thesis by (simp add: main_def thenJ_def bindJ_def catchJ_def retJ_def prepare_skip)
  qed
qed

text \<open>C17: an unknown command (or none) is printed as an error naming it, with exit code 1.\<close>

theorem main_unknown_command:
  assumes "PROFILE_DIR \<in> dirs s"
    and "command_name args \<notin> set [''navigate'', ''act'', ''extract'', ''observe'', ''screenshot'', ''close'']"
  shows "fst (main bl jp port args s) = Inr (Printed 1 (Err (unknown_command (command_name args))))"
  using assms by (intro main_throw) (auto simp: dispatch_def Let_def js_simps)

text \<open>C18: navigate, act, extract or observe without an argument is a usage error with exit code 1.\<close>

theorem main_usage_error:
  assumes "PROFILE_DIR \<in> dirs s" and "c \<in> {''navigate'', ''act'', ''extract'', ''observe''}"
  shows "\<exists>msg. fst (main bl jp port [c] s) = Inr (Printed 1 (Err msg)) \<and> prefix ''Usage: browser '' msg"
proof -
  have "\<exists>msg. fst (dispatch bl port jp [c] s) = Inl msg \<and> prefix ''Usage: browser '' msg"
    using assms(2) by (auto simp: dispatch_def command_name_def usage_def js_simps)
  then obtain msg where "fst (dispatch bl port jp [c] s) = Inl msg" and "prefix ''Usage: browser '' msg"
    by blast
  with main_throw [OF assms(1)] show ?thesis by blast
qed

lemma main_nothrow_dispatch:
  assumes "PROFILE_DIR \<in> dirs s" and "nothrowJ (dispatch bl port jp args)"
  shows "main bl jp port args s = bindJ (dispatch bl port jp args) (\<lambda>r. retJ (Printed 0 r)) s"
proof -
  have "nothrowJ (bindJ (dispatch bl port jp args) (\<lambda>r. retJ (Printed 0 r)))"
    using assms(2) by (intro prog_intros)
  with assms(1) show ?thesis by (simp add: main_def thenJ_def bindJ_def prepare_skip catchJ_nothrow)
qed

lemma unlink_port_file:
  "fst (bindJ (existsJ CDP_PORT_FILE) (\<lambda>ex. if ex then catchJ (unlinkJ CDP_PORT_FILE) (\<lambda>_. skipJ) else skipJ) s) = Inr () \<and>
   files (snd (bindJ (existsJ CDP_PORT_FILE) (\<lambda>ex. if ex then catchJ (unlinkJ CDP_PORT_FILE) (\<lambda>_. skipJ) else skipJ) s)) =
     (files s)(CDP_PORT_FILE := None) \<and>
   dirs (snd (bindJ (existsJ CDP_PORT_FILE) (\<lambda>ex. if ex then catchJ (unlinkJ CDP_PORT_FILE) (\<lambda>_. skipJ) else skipJ) s)) =
     dirs s"
  by (auto simp: existsJ_def unlinkJ_def js_simps fun_eq_iff)

lemma close_cmd_effect:
  "fst (close_cmd port s) = Inr (Ok (Some ''Browser closed (profile preserved)'') None) \<and>
   files (snd (close_cmd port s)) PID_FILE = None \<and> files (snd (close_cmd port s)) CDP_PORT_FILE = None \<and>
   (\<forall>p. p \<noteq> PID_FILE \<and> p \<noteq> CDP_PORT_FILE \<longrightarrow> files (snd (close_cmd port s)) p = files s p) \<and>
   dirs s \<subseteq> dirs (snd (close_cmd port s)) \<and>
   same_glob (snd (closeBrowser port s)) (snd (close_cmd port s))"
proof -
  let ?s1 = "snd (closeBrowser port s)"
  have pid: "files ?s1 PID_FILE = None"
    by (simp add: closeBrowser_snd finallyJ_snd remove_pid_file_gone)
  have fa: "files_agree {PID_FILE} s ?s1" by (rule keepsD [OF files_closeBrowser])
  have dg: "dirs_grow s ?s1" by (rule keepsD [OF dirs_closeBrowser])
  have ne: "CDP_PORT_FILE \<noteq> PID_FILE" by (simp add: CDP_PORT_FILE_def PID_FILE_def)
  have g: "same_glob ?s1 (snd (bindJ (existsJ CDP_PORT_FILE)
             (\<lambda>ex. if ex then catchJ (unlinkJ CDP_PORT_FILE) (\<lambda>_. skipJ) else skipJ) ?s1))"
    by (rule keepsD) (intro prog_intros)
  show ?thesis
    using unlink_port_file [of ?s1] pid fa dg ne g
    unfolding close_cmd_def thenJ_nothrow_eq [OF nothrow_closeBrowser]
    by (auto simp: bindJ_def thenJ_def retJ_def files_agree_def dirs_grow_def split: prod.splits sum.splits)
qed

text \<open>C7: the close command reports success with exit code 0, removes the PID file and the port file, changes no other file and removes no directory, so the persistent profile is kept.\<close>

theorem main_close:
  assumes "PROFILE_DIR \<in> dirs s"
  shows "fst (main bl jp port [''close''] s) = Inr (Printed 0 (Ok (Some ''Browser closed (profile preserved)'') None)) \<and>
         files (snd (main bl jp port [''close''] s)) PID_FILE = None \<and>
         files (snd (main bl jp port [''close''] s)) CDP_PORT_FILE = None \<and>
         (\<forall>p. p \<noteq> PID_FILE \<and> p \<noteq> CDP_PORT_FILE \<longrightarrow> files (snd (main bl jp port [''close''] s)) p = files s p) \<and>
         dirs s \<subseteq> dirs (snd (main bl jp port [''close''] s))"
proof -
  have d: "dispatch bl port jp [''close''] = close_cmd port" by (simp add: dispatch_def command_name_def)
  have m: "main bl jp port [''close''] s = bindJ (close_cmd port) (\<lambda>r. retJ (Printed 0 r)) s"
    using main_nothrow_dispatch [OF assms] d by (simp add: prog_intros)
  obtain r s' where c: "close_cmd port s = (r, s')" by fastforce
  show ?thesis
    using close_cmd_effect [of port s] c unfolding m by (auto simp: bindJ_def retJ_def)
qed

text \<open>C23: without a Chrome installation a browser command is printed as a failure with exit code 0 and changes nothing.\<close>

theorem main_no_chrome:
  assumes "PROFILE_DIR \<in> dirs s" and "stagehandInstance s = None" and "chrome_path s = None"
  shows "main bl jp port [''screenshot''] s = (Inr (Printed 0 (Err ''Could not find Chrome installation'')), s)"
  using assms
  by (simp add: main_def dispatch_def command_name_def screenshot_def initBrowser_def prepare_skip js_simps)

text \<open>C22: when the spawned Chrome never answers, a browser command is printed as a failure with exit code 0 and closeBrowser is not run: the child keeps running and the PID file stays.\<close>

theorem main_launch_failure:
  assumes "PROFILE_DIR \<in> dirs s" and "stagehandInstance s = None" and "chrome_path s = Some cp"
    and "fetches s = []" and "PID_FILE \<notin> dirs s" and "spawn_pid s = Some pid" and "0 < pid"
    and "\<not> weStartedChrome s"
  shows "fst (main bl jp port [''screenshot''] s) = Inr (Printed 0 (Err ''Chrome failed to start'')) \<and>
         procs (snd (main bl jp port [''screenshot''] s)) pid = Some cp \<and>
         files (snd (main bl jp port [''screenshot''] s)) PID_FILE = Some (pid_json pid (clock s)) \<and>
         \<not> weStartedChrome (snd (main bl jp port [''screenshot''] s))"
proof -
  have d: "dispatch bl port jp [''screenshot''] = screenshot port" by (simp add: dispatch_def command_name_def)
  have m: "main bl jp port [''screenshot''] s = bindJ (screenshot port) (\<lambda>r. retJ (Printed 0 r)) s"
    using main_nothrow_dispatch [OF assms(1)] d by (simp add: prog_intros)
  obtain s1 where i: "initBrowser port s = (Inl ''Chrome failed to start'', s1)"
    using initBrowser_silent [OF assms(2-5), of port] by (cases "initBrowser port s") auto
  have "screenshot port s = (Inr (Err ''Chrome failed to start''), s1)"
    using i by (simp add: screenshot_def js_simps)
  with m i initBrowser_silent [OF assms(2-5), of port] assms(6-8) show ?thesis
    by (simp add: js_simps)
qed

subsection \<open>Start-up and the extract schema\<close>

text \<open>C24: without an API key the process exits with code 1 before any command or file access.\<close>

theorem cli_no_api_key:
  "api_key s = None \<Longrightarrow> cli_run bl jp args s = (Inr NoApiKey, new_process s)"
  by (simp add: cli_run_def js_simps new_process_def)

lemma build_schema_fold:
  "foldl (\<lambda>(z, ok) (key, ty).
            case zod_type ty of
              Some zt \<Rightarrow> (if key = ''__proto__'' then z else z @ [(key, zt)], ok)
            | None \<Rightarrow> (z, False))
     (z0, ok0) entries =
   (z0 @ map (\<lambda>(k, t). (k, the (zod_type t)))
           (filter (\<lambda>(k, t). zod_type t \<noteq> None \<and> k \<noteq> ''__proto__'') entries),
    ok0 \<and> (\<forall>(k, t) \<in> set entries. zod_type t \<noteq> None))"
  by (induction entries arbitrary: z0 ok0) (auto split: option.splits)

text \<open>C34: the extract schema is built only when every field has a known type; one unknown
  type drops the whole schema. The fields are the entries but \<open>__proto__\<close>, in order; a
  schema whose only field is \<open>__proto__\<close> is dropped as well.\<close>

theorem build_schema_all_or_nothing:
  "build_schema entries =
     (let fields = filter (\<lambda>(k, t). k \<noteq> ''__proto__'') entries in
      if fields \<noteq> [] \<and> (\<forall>(k, t) \<in> set entries. zod_type t \<noteq> None)
      then Some (map (\<lambda>(k, t). (k, the (zod_type t))) fields) else None)"
proof -
  have "(\<forall>(k, t) \<in> set entries. zod_type t \<noteq> None) \<Longrightarrow>
        filter (\<lambda>(k, t). zod_type t \<noteq> None \<and> k \<noteq> ''__proto__'') entries =
        filter (\<lambda>(k, t). k \<noteq> ''__proto__'') entries"
    by (induction entries) auto
  then show ?thesis by (auto simp: build_schema_def build_schema_fold Let_def)
qed

subsection \<open>The session invariant over a process\<close>

lemma inv_commands:
  "keepsJ (inv_rel session_inv) (navigate bl port url)" "keepsJ (inv_rel session_inv) (act bl port action)"
  "keepsJ (inv_rel session_inv) (extract_cmd port instruction schema)"
  "keepsJ (inv_rel session_inv) (observe port query)" "keepsJ (inv_rel session_inv) (screenshot port)"
  "keepsJ (inv_rel session_inv) (close_cmd port)" "keepsJ (inv_rel session_inv) (on_signal port)"
  unfolding navigate_def act_def extract_cmd_def observe_def screenshot_def close_cmd_def on_signal_def
    Let_def takeScreenshot_def page_goto_def
  by (intro prog_intros inv_initBrowser inv_closeBrowser)+

text \<open>C6: every state a CLI process reaches by its commands, its signal handlers and changes to the world by other processes satisfies the session invariant.\<close>

theorem session_inv_reachable:
  assumes "(proc_step bl port)\<^sup>*\<^sup>* (new_process w) s"
  shows "session_inv s"
  using assms
proof (induction rule: rtranclp_induct)
  case base
  show ?case by (simp add: new_process_def session_inv_def)
next
  case (step s s')
  from step.hyps(2) step.IH show ?case
  proof cases
    case (world_step)
    with step.IH show ?thesis by (simp add: same_glob_def session_inv_def)
  qed (use step.IH inv_commands in \<open>simp_all add: keepsJ_def inv_rel_def\<close>)
qed

text \<open>C16: no command lets an exception escape: every failure becomes an error result.\<close>

theorem commands_never_throw:
  "\<not> isl (fst (navigate bl port url s)) \<and> \<not> isl (fst (act bl port action s)) \<and>
   \<not> isl (fst (extract_cmd port instruction schema s)) \<and> \<not> isl (fst (observe port query s)) \<and>
   \<not> isl (fst (screenshot port s)) \<and> \<not> isl (fst (close_cmd port s))"
  using nothrow_commands by (simp add: nothrowJ_def)

subsection \<open>Witnesses\<close>

theorem cli_blocked_no_browser_witness:
  "no_browser fresh_st (snd (cli_run [''chase.com''] (\<lambda>_. None) [''navigate'', ''https://chase.com/login''] fresh_st))"
proof -
  have "js_truthy (getBlockedDomain [''chase.com''] ''https://chase.com/login'')"
    unfolding getBlockedDomain_def js_truthy_def entry_matches_def by (simp add: eval_simps)
  then show ?thesis by (intro cli_blocked_no_browser) simp
qed

lemma cli_blocked_example:
  "fst (cli_run [''chase.com''] (\<lambda>_. None) [''navigate'', ''https://chase.com/login''] fresh_st) =
   Inr (Printed 0 (Err (''BLOCKED: Navigation to '' @ quoted ''chase.com'' @ '' is restricted by security policy.'')))"
proof -
  have b: "getBlockedDomain [''chase.com''] ''https://chase.com/login'' = Some ''chase.com''"
    unfolding getBlockedDomain_def entry_matches_def by (simp add: eval_simps)
  show ?thesis
    by (simp add: cli_run_def main_def dispatch_def command_name_def navigate_def b js_truthy_def js_simps
        fresh_st_def new_process_def getCdpPort_def read_saved_port_def existsJ_def writeFileJ_def
        prepareChromeProfile_def mkdirJ_def PROFILE_DIR_def CDP_PORT_FILE_def profile_target_def
        excluded_def basename_def PROFILE_EXCLUDED_FILES_def)
qed

theorem main_unknown_command_witness:
  "fst (main [] (\<lambda>_. None) 37500 [''go''] prepared_st) = Inr (Printed 1 (Err (unknown_command ''go'')))"
  using main_unknown_command [of prepared_st "[''go'']" "[]" "\<lambda>_. None" 37500]
  by (simp add: prepared_st_def command_name_def)

theorem main_usage_error_witness:
  "\<exists>msg. fst (main [] (\<lambda>_. None) 37500 [''act''] prepared_st) = Inr (Printed 1 (Err msg)) \<and>
     prefix ''Usage: browser '' msg"
  using main_usage_error [of prepared_st "''act''" "[]" "\<lambda>_. None" 37500] by (simp add: prepared_st_def)

theorem main_profile_untouched_witness:
  "PROFILE_DIR \<in> dirs prepared_st \<and>
   files (snd (main [] (\<lambda>_. None) 37500 [''navigate'', ''https://example.com'']
     (prepared_st\<lparr>files := [''notes.txt'' \<mapsto> ''n'']\<rparr>))) ''notes.txt'' = Some ''n''"
proof -
  have "PROFILE_DIR \<in> dirs (prepared_st\<lparr>files := [''notes.txt'' \<mapsto> ''n'']\<rparr>)"
    by (simp add: prepared_st_def)
  from main_profile_untouched [OF this, of "[]" "\<lambda>_. None" 37500 "[''navigate'', ''https://example.com'']"]
  show ?thesis by (simp add: prepared_st_def fresh_st_def PID_FILE_def CDP_PORT_FILE_def)
qed

theorem main_exit_code_witness:
  "\<exists>r. fst (main [] (\<lambda>_. None) 37500 [''close''] prepared_st) = Inr (Printed 0 r)"
proof -
  have "PROFILE_DIR \<in> dirs prepared_st" by (simp add: prepared_st_def)
  from main_exit_code [OF this, of "[]" "\<lambda>_. None" 37500 "[''close'']"]
  show ?thesis using nothrow_commands(6) [of 37500]
    by (simp add: dispatch_def command_name_def nothrowJ_def split: prod.splits)
qed

theorem main_close_witness:
  "files (snd (main [] (\<lambda>_. None) 37500 [''close'']
      (prepared_st\<lparr>files := [CDP_PORT_FILE \<mapsto> ''37500'', PID_FILE \<mapsto> pid_json 4242 0]\<rparr>))) = Map.empty"
proof -
  let ?s = "prepared_st\<lparr>files := [CDP_PORT_FILE \<mapsto> ''37500'', PID_FILE \<mapsto> pid_json 4242 0]\<rparr>"
  have "PROFILE_DIR \<in> dirs ?s" by (simp add: prepared_st_def)
  note c = main_close [OF this, of "[]" "\<lambda>_. None" 37500]
  show ?thesis
  proof (rule ext)
    fix x
    show "files (snd (main [] (\<lambda>_. None) 37500 [''close''] ?s)) x = Map.empty x"
      using c by (cases "x = PID_FILE"; cases "x = CDP_PORT_FILE") auto
  qed
qed

theorem main_no_chrome_witness:
  "main [] (\<lambda>_. None) 37500 [''screenshot''] (prepared_st\<lparr>chrome_path := None\<rparr>) =
   (Inr (Printed 0 (Err ''Could not find Chrome installation'')), prepared_st\<lparr>chrome_path := None\<rparr>)"
  by (rule main_no_chrome) (simp_all add: prepared_st_def fresh_st_def)

theorem main_launch_failure_witness:
  "fst (main [] (\<lambda>_. None) 37500 [''screenshot''] prepared_st) = Inr (Printed 0 (Err ''Chrome failed to start'')) \<and>
   procs (snd (main [] (\<lambda>_. None) 37500 [''screenshot''] prepared_st)) 4242 = Some ''/usr/bin/google-chrome''"
  using main_launch_failure [of prepared_st "''/usr/bin/google-chrome''" 4242 "[]" "\<lambda>_. None" 37500]
  by (simp add: prepared_st_def fresh_st_def PID_FILE_def PROFILE_DIR_def)

theorem cli_no_api_key_witness:
  "cli_run [] (\<lambda>_. None) [''screenshot''] (fresh_st\<lparr>api_key := None\<rparr>) = (Inr NoApiKey, new_process (fresh_st\<lparr>api_key := None\<rparr>))"
  using cli_no_api_key [of "fresh_st\<lparr>api_key := None\<rparr>"] by simp

theorem build_schema_all_or_nothing_witness:
  "build_schema [(''price'', ''number''), (''color'', ''purple'')] = None"
  using build_schema_all_or_nothing [of "[(''price'', ''number''), (''color'', ''purple'')]"]
  by (simp add: zod_type_def)

theorem session_inv_reachable_witness:
  "session_inv (snd (screenshot 37500 (new_process fresh_st)))"
proof -
  have "proc_step [] 37500 (new_process fresh_st) (snd (screenshot 37500 (new_process fresh_st)))"
    by (rule proc_step.screenshot_step)
  then show ?thesis by (intro session_inv_reachable [of "[]" 37500 fresh_st]) simp
qed

end
