(* ===== verification/Json.thy ===== *)
theory Json
  imports Url
begin

text \<open>
  The JSON values the CLI prints and reads, with \<open>JSON.stringify\<close> and \<open>JSON.parse\<close> of
  ECMAScript, which the sources call (lines 96, 224, 380, 406 and 410 of \<open>src/src/cli.ts\<close>)
  but do not define; they are modelled from ECMA-262 (SerializeJSONProperty,
  QuoteJSONString, the JSON grammar). A string is a list of 8-bit code units: a
  \<open>\u\<close> escape above \<open>00FF\<close> is outside this type and makes the parse fail. A number is
  kept as its lexeme; the development stringifies only canonical naturals, whose lexeme
  is \<open>Number.prototype.toString\<close>. The parser takes the longest run of number characters
  and checks it against the number grammar: where JavaScript stops earlier, the next
  character is a number character, which no context of the grammar accepts, so the whole
  parse fails in both. The parser runs on fuel, one unit per nested call;
  \<open>json_parse\<close> gives twice the input length plus one, and \<open>json_parse_fuel\<close> shows that
  more fuel changes nothing. \<open>json_parse_stringify\<close> is the round trip of the printer
  with indentation (\<open>JSON.stringify(v, null, 2)\<close>) for every value whose numbers are
  valid lexemes.
\<close>

subsection \<open>JSON.stringify\<close>

datatype json = JNull | JBool bool | JNum string | JStr string | JArr "json list"
  | JObj "(string \<times> json) list"

definition bs :: char where
  "bs = CHR 0x5C"

definition lf :: char where
  "lf = CHR 0x0A"

definition hex_digit :: "nat \<Rightarrow> char" where
  "hex_digit d = (if d < 10 then dec_digit d else char_of (87 + d))"

definition json_quote_char :: "char \<Rightarrow> string" where
  "json_quote_char c =
     (if c = CHR 0x08 then [bs, CHR ''b'']
      else if c = CHR 0x09 then [bs, CHR ''t'']
      else if c = CHR 0x0A then [bs, CHR ''n'']
      else if c = CHR 0x0C then [bs, CHR ''f'']
      else if c = CHR 0x0D then [bs, CHR ''r'']
      else if c = CHR 0x22 then [bs, CHR 0x22]
      else if c = bs then [bs, bs]
      else if of_char c < (32::nat) then
        [bs, CHR ''u'', CHR ''0'', CHR ''0'', hex_digit (of_char c div 16), hex_digit (of_char c mod 16)]
      else [c])"

definition json_quote :: "string \<Rightarrow> string" where
  "json_quote s = CHR 0x22 # concat (map json_quote_char s) @ [CHR 0x22]"

definition gap :: string where
  "gap = ''  ''"

fun stringify :: "string \<Rightarrow> json \<Rightarrow> string" where
  "stringify ind JNull = ''null''"
| "stringify ind (JBool b) = (if b then ''true'' else ''false'')"
| "stringify ind (JNum l) = l"
| "stringify ind (JStr s) = json_quote s"
| "stringify ind (JArr vs) =
     (if vs = [] then ''[]''
      else ''['' @ [lf] @ ind @ gap @
           js_join ('','' @ [lf] @ ind @ gap) (map (stringify (ind @ gap)) vs) @ [lf] @ ind @ '']'')"
| "stringify ind (JObj kvs) =
     (if kvs = [] then ''{}''
      else ''{'' @ [lf] @ ind @ gap @
           js_join ('','' @ [lf] @ ind @ gap)
             (map (\<lambda>(k, v). json_quote k @ '': '' @ stringify (ind @ gap) v) kvs) @ [lf] @ ind @ ''}'')"

subsection \<open>JSON.parse\<close>

definition is_json_ws :: "char \<Rightarrow> bool" where
  "is_json_ws c \<longleftrightarrow> c = CHR 0x20 \<or> c = CHR 0x09 \<or> c = CHR 0x0A \<or> c = CHR 0x0D"

definition json_ws :: "string \<Rightarrow> string" where
  "json_ws s = dropWhile is_json_ws s"

definition hex4_val :: "string \<Rightarrow> nat option" where
  "hex4_val t =
     (if length t = 4 \<and> (\<forall>c \<in> set t. is_hex c) then Some (foldl (\<lambda>a c. 16 * a + hex_val c) 0 t)
      else None)"

definition json_unescape :: "char \<Rightarrow> char option" where
  "json_unescape e =
     (if e = CHR 0x22 then Some (CHR 0x22)
      else if e = bs then Some bs
      else if e = CHR ''/'' then Some (CHR ''/'')
      else if e = CHR ''b'' then Some (CHR 0x08)
      else if e = CHR ''f'' then Some (CHR 0x0C)
      else if e = CHR ''n'' then Some (CHR 0x0A)
      else if e = CHR ''r'' then Some (CHR 0x0D)
      else if e = CHR ''t'' then Some (CHR 0x09)
      else None)"

fun lex_string :: "string \<Rightarrow> (string \<times> string) option" where
  "lex_string [] = None"
| "lex_string (c # s) =
     (if c = CHR 0x22 then Some ([], s)
      else if c = bs then
        (case s of
           [] \<Rightarrow> None
         | e # s' \<Rightarrow>
             if e = CHR ''u'' then
               (case hex4_val (take 4 s') of
                  Some k \<Rightarrow> if k < 256 then map_option (apfst (Cons (char_of k))) (lex_string (drop 4 s'))
                            else None
                | None \<Rightarrow> None)
             else
               (case json_unescape e of
                  Some d \<Rightarrow> map_option (apfst (Cons d)) (lex_string s')
                | None \<Rightarrow> None))
      else if of_char c < (32::nat) then None
      else map_option (apfst (Cons c)) (lex_string s))"

definition lex_frac :: "string \<Rightarrow> (string \<times> string) option" where
  "lex_frac s =
     (case s of
        c # r \<Rightarrow>
          if c = CHR ''.'' then
            (let d = takeWhile is_digit r in if d = [] then None else Some (c # d, dropWhile is_digit r))
          else Some ([], s)
      | [] \<Rightarrow> Some ([], []))"

definition lex_exp :: "string \<Rightarrow> (string \<times> string) option" where
  "lex_exp s =
     (case s of
        c # r \<Rightarrow>
          if c = CHR ''e'' \<or> c = CHR ''E'' then
            (let sg = (if r \<noteq> [] \<and> (hd r = CHR ''+'' \<or> hd r = CHR ''-'') then [hd r] else []);
                 r' = drop (length sg) r;
                 d = takeWhile is_digit r' in
             if d = [] then None else Some (c # sg @ d, dropWhile is_digit r'))
          else Some ([], s)
      | [] \<Rightarrow> Some ([], []))"

definition lex_number :: "string \<Rightarrow> (string \<times> string) option" where
  "lex_number s =
     (let sg = (if s \<noteq> [] \<and> hd s = CHR ''-'' then ''-'' else []);
          s1 = drop (length sg) s;
          ip = takeWhile is_digit s1 in
      if ip = [] \<or> (hd ip = CHR ''0'' \<and> 1 < length ip) then None
      else
        (case lex_frac (dropWhile is_digit s1) of
           None \<Rightarrow> None
         | Some (f, s3) \<Rightarrow>
             (case lex_exp s3 of
                None \<Rightarrow> None
              | Some (e, s4) \<Rightarrow> Some (sg @ ip @ f @ e, s4))))"

definition json_number_ok :: "string \<Rightarrow> bool" where
  "json_number_ok t = (case lex_number t of Some (_, r) \<Rightarrow> r = [] | None \<Rightarrow> False)"

definition is_num_char :: "char \<Rightarrow> bool" where
  "is_num_char c \<longleftrightarrow> is_digit c \<or> c \<in> set ''+-.eE''"

text \<open>The pieces of the grammar that do not nest: after white space, the next character
  and what follows it; a member name and its colon; a literal, a string or a number.\<close>

definition jsep :: "string \<Rightarrow> (char \<times> string) option" where
  "jsep s = (case json_ws s of [] \<Rightarrow> None | c # r \<Rightarrow> Some (c, r))"

definition jkey :: "string \<Rightarrow> (string \<times> string) option" where
  "jkey s =
     (case s of
        c # r \<Rightarrow>
          if c \<noteq> CHR 0x22 then None
          else
            (case lex_string r of
               None \<Rightarrow> None
             | Some (k, r1) \<Rightarrow>
                 (case jsep r1 of
                    Some (d, r2) \<Rightarrow> if d = CHR '':'' then Some (k, json_ws r2) else None
                  | None \<Rightarrow> None))
      | [] \<Rightarrow> None)"

definition jscalar :: "string \<Rightarrow> (json \<times> string) option" where
  "jscalar s =
     (if s \<noteq> [] \<and> hd s = CHR 0x22 then map_option (apfst JStr) (lex_string (tl s))
      else if prefix ''null'' s then Some (JNull, drop 4 s)
      else if prefix ''true'' s then Some (JBool True, drop 4 s)
      else if prefix ''false'' s then Some (JBool False, drop 5 s)
      else
        (let t = takeWhile is_num_char s in
         if json_number_ok t then Some (JNum t, dropWhile is_num_char s) else None))"

text \<open>The nesting part, one unit of fuel per call (see \<open>jv_fuel\<close>): a value, the
  members of an object after its brace, the elements of an array after its bracket.\<close>

fun jv :: "nat \<Rightarrow> string \<Rightarrow> (json \<times> string) option"
  and jmembers :: "nat \<Rightarrow> string \<Rightarrow> ((string \<times> json) list \<times> string) option"
  and jelems :: "nat \<Rightarrow> string \<Rightarrow> (json list \<times> string) option" where
  "jv 0 s = None"
| "jv (Suc n) s =
     (case s of
        [] \<Rightarrow> None
      | c # r \<Rightarrow>
          if c = CHR ''{'' then
            (case jsep r of
               Some (d, r') \<Rightarrow> if d = CHR ''}'' then Some (JObj [], r')
                               else map_option (apfst JObj) (jmembers n (json_ws r))
             | None \<Rightarrow> None)
          else if c = CHR ''['' then
            (case jsep r of
               Some (d, r') \<Rightarrow> if d = CHR '']'' then Some (JArr [], r')
                               else map_option (apfst JArr) (jelems n (json_ws r))
             | None \<Rightarrow> None)
          else jscalar s)"
| "jmembers 0 s = None"
| "jmembers (Suc n) s =
     (case jkey s of
        None \<Rightarrow> None
      | Some (k, r2) \<Rightarrow>
          (case jv n r2 of
             None \<Rightarrow> None
           | Some (v, r3) \<Rightarrow>
               (case jsep r3 of
                  Some (e, r4) \<Rightarrow>
                    if e = CHR ''}'' then Some ([(k, v)], r4)
                    else if e = CHR '','' then map_option (apfst (Cons (k, v))) (jmembers n (json_ws r4))
                    else None
                | None \<Rightarrow> None)))"
| "jelems 0 s = None"
| "jelems (Suc n) s =
     (case jv n s of
        None \<Rightarrow> None
      | Some (v, r3) \<Rightarrow>
          (case jsep r3 of
             Some (e, r4) \<Rightarrow>
               if e = CHR '']'' then Some ([v], r4)
               else if e = CHR '','' then map_option (apfst (Cons v)) (jelems n (json_ws r4))
               else None
           | None \<Rightarrow> None))"

text \<open>The values \<open>JSON.stringify\<close> prints and \<open>JSON.parse\<close> reads back: every number
  is a valid JSON number lexeme.\<close>

fun json_wf :: "json \<Rightarrow> bool" where
  "json_wf (JNum l) \<longleftrightarrow> json_number_ok l \<and> (\<forall>c \<in> set l. is_num_char c)"
| "json_wf (JArr vs) \<longleftrightarrow> (\<forall>v \<in> set vs. json_wf v)"
| "json_wf (JObj kvs) \<longleftrightarrow> (\<forall>kv \<in> set kvs. json_wf (snd kv))"
| "json_wf _ \<longleftrightarrow> True"

definition json_parse :: "string \<Rightarrow> json option" where
  "json_parse s =
     (case jv (Suc (2 * length s)) (json_ws s) of
        Some (v, r) \<Rightarrow> if json_ws r = [] then Some v else None
      | None \<Rightarrow> None)"

subsection \<open>Lemmas\<close>


lemma length_json_ws: "length (json_ws s) \<le> length s"
  by (simp add: json_ws_def length_dropWhile_le)

lemma jsep_length: "jsep s = Some (c, r) \<Longrightarrow> length r < length s"
  using length_json_ws [of s] by (auto simp: jsep_def split: list.splits)

lemma lex_string_length: "lex_string s = Some (x, r) \<Longrightarrow> length r < length s"
proof (induction s arbitrary: x rule: lex_string.induct)
  case 1 then show ?case by simp
next
  case (2 c s)
  then show ?case by (fastforce split: if_splits list.splits option.splits)
qed

lemma json_ws_less: "length s < n \<Longrightarrow> length (json_ws s) < n"
  using length_json_ws [of s] by linarith

lemma less_json_ws: "n < length (json_ws s) \<Longrightarrow> n < length s"
  using length_json_ws [of s] by linarith

lemma jkey_length: "jkey s = Some (k, r) \<Longrightarrow> length r < length s"
  by (auto simp: jkey_def split: list.splits if_splits option.splits
      dest!: lex_string_length jsep_length intro!: json_ws_less)

lemma json_number_ok_Nil [simp]: "\<not> json_number_ok []"
  by (simp add: json_number_ok_def lex_number_def)

lemma jscalar_length: "jscalar s = Some (v, r) \<Longrightarrow> length r < length s"
proof -
  assume a: "jscalar s = Some (v, r)"
  have "json_number_ok (takeWhile is_num_char s) \<Longrightarrow> length (dropWhile is_num_char s) < length s"
    by (metis json_number_ok_Nil length_append less_add_same_cancel2 length_greater_0_conv takeWhile_dropWhile_id)
  with a show ?thesis
    by (cases s) (auto simp: jscalar_def prefix_def Let_def split: if_splits dest!: lex_string_length)
qed

lemma jv_consumes:
  "(\<forall>s v r. jv n s = Some (v, r) \<longrightarrow> length r < length s) \<and>
   (\<forall>s kvs r. jmembers n s = Some (kvs, r) \<longrightarrow> length r < length s) \<and>
   (\<forall>s vs r. jelems n s = Some (vs, r) \<longrightarrow> length r < length s)"
proof (induction n)
  case 0 then show ?case by simp
next
  case (Suc n)
  note IH = Suc [THEN conjunct1, rule_format] Suc [THEN conjunct2, THEN conjunct1, rule_format]
    Suc [THEN conjunct2, THEN conjunct2, rule_format]
  have "jv (Suc n) s = Some (v, r) \<Longrightarrow> length r < length s" for s v r
    by (auto split: list.splits if_splits option.splits
        dest!: jsep_length jscalar_length IH less_json_ws intro!: json_ws_less)
  moreover have "jmembers (Suc n) s = Some (kvs, r) \<Longrightarrow> length r < length s" for s kvs r
    by (auto split: if_splits option.splits dest!: jsep_length jkey_length IH less_json_ws intro!: json_ws_less)
  moreover have "jelems (Suc n) s = Some (vs, r) \<Longrightarrow> length r < length s" for s vs r
    by (auto split: if_splits option.splits dest!: jsep_length IH less_json_ws intro!: json_ws_less)
  ultimately show ?case by blast
qed

lemmas jv_consumes_jv = jv_consumes [THEN conjunct1, rule_format]

lemma jv_fuel_step:
  "(\<forall>s. 2 * length s < n \<longrightarrow> jv (Suc n) s = jv n s) \<and>
   (\<forall>s. 2 * length s < n \<longrightarrow> jmembers (Suc n) s = jmembers n s) \<and>
   (\<forall>s. 2 * length s + 1 < n \<longrightarrow> jelems (Suc n) s = jelems n s)"
proof (induction n)
  case 0 then show ?case by simp
next
  case (Suc n)
  note IH1 = Suc [THEN conjunct1, rule_format] and IH2 = Suc [THEN conjunct2, THEN conjunct1, rule_format]
    and IH3 = Suc [THEN conjunct2, THEN conjunct2, rule_format]
  have A: "jv (Suc (Suc n)) s = jv (Suc n) s" if "2 * length s < Suc n" for s
  proof (cases s)
    case Nil then show ?thesis by simp
  next
    case (Cons c t)
    have w1: "2 * length (json_ws t) < n" and w2: "2 * length (json_ws t) + 1 < n"
      using that Cons length_json_ws [of t] by simp_all
    show ?thesis unfolding Cons jv.simps(2) list.case IH2 [OF w1] IH3 [OF w2] ..
  qed
  have B: "jmembers (Suc (Suc n)) s = jmembers (Suc n) s" if "2 * length s < Suc n" for s
  proof (cases "jkey s")
    case None then show ?thesis by simp
  next
    case (Some a)
    obtain k r2 where a: "a = (k, r2)" by fastforce
    have r2: "length r2 < length s" using Some a jkey_length by blast
    then have jv: "jv (Suc n) r2 = jv n r2" using that by (intro IH1) simp
    show ?thesis
    proof (cases "jv n r2")
      case None then show ?thesis using Some a jv by simp
    next
      case (Some b)
      obtain v r3 where b: "b = (v, r3)" by fastforce
      have r3: "length r3 < length r2" using Some b jv_consumes_jv by blast
      show ?thesis
      proof (cases "jsep r3")
        case None then show ?thesis using \<open>jkey s = Some a\<close> a Some b jv by simp
      next
        case (Some c)
        obtain e r4 where c: "c = (e, r4)" by fastforce
        have "length r4 < length r3" using Some c jsep_length by blast
        then have "2 * length (json_ws r4) < n"
          using that r2 r3 length_json_ws [of r4] by simp
        then show ?thesis using \<open>jkey s = Some a\<close> a \<open>jv n r2 = Some b\<close> b Some c jv
          by (simp add: IH2 jmembers.simps(2) [of "Suc n" s] jmembers.simps(2) [of n s]
              del: jv.simps jmembers.simps jelems.simps)
      qed
    qed
  qed
  have C: "jelems (Suc (Suc n)) s = jelems (Suc n) s" if "2 * length s + 1 < Suc n" for s
  proof -
    have jv: "jv (Suc n) s = jv n s" using that by (intro IH1) simp
    show ?thesis
    proof (cases "jv n s")
      case None then show ?thesis using jv by simp
    next
      case (Some b)
      obtain v r3 where b: "b = (v, r3)" by fastforce
      have r3: "length r3 < length s" using Some b jv_consumes_jv by blast
      show ?thesis
      proof (cases "jsep r3")
        case None then show ?thesis using \<open>jv n s = Some b\<close> b jv by simp
      next
        case (Some c)
        obtain e r4 where c: "c = (e, r4)" by fastforce
        have "length r4 < length r3" using Some c jsep_length by blast
        then have "2 * length (json_ws r4) + 1 < n"
          using that r3 length_json_ws [of r4] by simp
        then show ?thesis using \<open>jv n s = Some b\<close> b Some c jv
          by (simp add: IH3 jelems.simps(2) [of "Suc n" s] jelems.simps(2) [of n s]
              del: jv.simps jmembers.simps jelems.simps)
      qed
    qed
  qed
  show ?case using A B C by blast
qed

lemma jv_fuel: "2 * length s < n \<Longrightarrow> jv n s = jv (Suc (2 * length s)) s"
proof (induction n)
  case 0 then show ?case by simp
next
  case (Suc n)
  show ?case
  proof (cases "2 * length s < n")
    case True
    then show ?thesis using Suc jv_fuel_step [THEN conjunct1, rule_format, of s n] by simp
  next
    case False
    then show ?thesis using Suc.prems by (simp add: le_antisym less_Suc_eq_le)
  qed
qed

lemma hex_digit_ok: "d < 16 \<Longrightarrow> is_hex (hex_digit d) \<and> hex_val (hex_digit d) = d"
proof -
  assume "d < 16"
  then consider "d < 10" | "d = 10" | "d = 11" | "d = 12" | "d = 13" | "d = 14" | "d = 15" by linarith
  then show ?thesis
    by cases (simp_all add: hex_digit_def is_hex_def hex_val_def char_defs chr_code_def)
qed

lemma lex_string_quote_char:
  "lex_string (json_quote_char c @ t) = map_option (apfst (Cons c)) (lex_string t)"
proof -
  let ?n = "of_char c :: nat"
  have ctrl: "lex_string ([bs, CHR ''u'', CHR ''0'', CHR ''0'', hex_digit (?n div 16), hex_digit (?n mod 16)] @ t) =
      map_option (apfst (Cons c)) (lex_string t)" if "?n < 32"
  proof -
    have "?n div 16 < 16" "?n mod 16 < 16" using that by simp_all
    then have "hex4_val [CHR ''0'', CHR ''0'', hex_digit (?n div 16), hex_digit (?n mod 16)] = Some ?n"
      using hex_digit_ok by (simp add: hex4_val_def is_hex_def hex_val_def char_defs chr_code_def)
    with that show ?thesis by (simp add: bs_def)
  qed
  show ?thesis
    unfolding json_quote_char_def
    using ctrl by (simp add: bs_def json_unescape_def)
qed

lemma lex_string_quote:
  "lex_string (concat (map json_quote_char s) @ CHR 0x22 # rest) = Some (s, rest)"
  by (induction s) (simp_all add: lex_string_quote_char)

lemma json_number_ok_hd: "json_number_ok l \<Longrightarrow> \<exists>c t. l = c # t \<and> (c = CHR ''-'' \<or> is_digit c)"
  by (cases l) (auto simp: json_number_ok_def lex_number_def Let_def split: if_splits)

lemma stringify_hd:
  "json_wf v \<Longrightarrow> \<exists>c t. stringify ind v = c # t \<and> \<not> is_json_ws c \<and> c \<noteq> CHR '']'' \<and> c \<noteq> CHR ''}''"
proof (cases v)
  case (JNum l)
  assume "json_wf v"
  with JNum have "json_number_ok l" by simp
  then obtain c t where "l = c # t" "c = CHR ''-'' \<or> is_digit c"
    using json_number_ok_hd by blast
  with JNum show ?thesis by (auto simp: is_json_ws_def is_digit_def)
qed (auto simp: is_json_ws_def json_quote_def)

lemma json_ws_spaces: "set p \<subseteq> {CHR '' '', lf} \<Longrightarrow> json_ws (p @ t) = json_ws t"
  by (induction p) (auto simp: json_ws_def is_json_ws_def lf_def)

lemma json_ws_stop: "\<not> is_json_ws c \<Longrightarrow> json_ws (c # t) = c # t"
  by (simp add: json_ws_def)

lemma jsep_stop: "\<not> is_json_ws c \<Longrightarrow> jsep (c # t) = Some (c, t)"
  by (simp add: jsep_def json_ws_stop)

lemma js_join_Cons: "ws \<noteq> [] \<Longrightarrow> js_join sep (w # ws) = w @ sep @ js_join sep ws"
  by (cases ws) simp_all

lemma json_ws_indent:
  "set ind \<subseteq> {CHR '' ''} \<Longrightarrow> \<not> is_json_ws c \<Longrightarrow> json_ws (lf # ind @ c # t) = c # t"
  using json_ws_spaces [of "lf # ind" "c # t"] json_ws_stop [of c t] by auto

lemma jsep_indent:
  "set ind \<subseteq> {CHR '' ''} \<Longrightarrow> \<not> is_json_ws c \<Longrightarrow> jsep (lf # ind @ c # t) = Some (c, t)"
  by (simp add: jsep_def json_ws_indent)

lemma jkey_member:
  assumes "json_wf v"
  shows "jkey (json_quote k @ CHR '':'' # CHR '' '' # stringify ind v @ t) = Some (k, stringify ind v @ t)"
proof -
  obtain c u where v: "stringify ind v = c # u" "\<not> is_json_ws c"
    using stringify_hd [OF assms] by blast
  have "json_ws (CHR '' '' # stringify ind v @ t) = stringify ind v @ t"
    using v json_ws_spaces [of "'' ''" "c # u @ t"] json_ws_stop [of c "u @ t"] by simp
  then show ?thesis
    by (simp add: jkey_def json_quote_def lex_string_quote jsep_def json_ws_stop is_json_ws_def)
qed

lemma jmembers_join:
  assumes "kvs \<noteq> []"
    and IH: "\<And>k v ind' rest' n'. (k, v) \<in> set kvs \<Longrightarrow> set ind' \<subseteq> {CHR '' ''} \<Longrightarrow>
      rest' = [] \<or> \<not> is_num_char (hd rest') \<Longrightarrow> 2 * length (stringify ind' v @ rest') < n' \<Longrightarrow>
      jv n' (stringify ind' v @ rest') = Some (v, rest')"
    and ind: "set ind \<subseteq> {CHR '' ''}" and ind0: "set ind0 \<subseteq> {CHR '' ''}"
    and wf: "\<forall>kv \<in> set kvs. json_wf (snd kv)"
    and "2 * length (js_join (CHR '','' # lf # ind) (map (\<lambda>(k, v). json_quote k @ '': '' @ stringify ind v) kvs)
           @ lf # ind0 @ CHR ''}'' # rest) < n"
  shows "jmembers n (js_join (CHR '','' # lf # ind) (map (\<lambda>(k, v). json_quote k @ '': '' @ stringify ind v) kvs)
           @ lf # ind0 @ CHR ''}'' # rest) = Some (kvs, rest)"
  using assms
proof (induction kvs arbitrary: n rule: list_nonempty_induct)
  case (single kv)
  obtain k v where kv: "kv = (k, v)" by fastforce
  obtain m where n: "n = Suc m" using single.prems(5) by (cases n) auto
  let ?tail = "lf # ind0 @ CHR ''}'' # rest"
  have wfv: "json_wf v" using single.prems(4) kv by simp
  have val: "jv m (stringify ind v @ ?tail) = Some (v, ?tail)"
    using single.prems kv n by (intro single.prems(1) [of k]) (auto simp: lf_def is_num_char_def is_digit_def json_quote_def)
  have sep: "jsep ?tail = Some (CHR ''}'', rest)"
    using ind0 by (simp add: jsep_indent is_json_ws_def)
  show ?case using kv n val sep by (simp add: jkey_member [OF wfv])
next
  case (cons kv kvs)
  obtain k v where kv: "kv = (k, v)" by fastforce
  obtain m where n: "n = Suc m" using cons.prems(5) by (cases n) auto
  let ?J = "js_join (CHR '','' # lf # ind) (map (\<lambda>(k, v). json_quote k @ '': '' @ stringify ind v) kvs)"
  let ?tail = "CHR '','' # lf # ind @ ?J @ lf # ind0 @ CHR ''}'' # rest"
  have wfv: "json_wf v" using cons.prems(4) kv by simp
  have val: "jv m (stringify ind v @ ?tail) = Some (v, ?tail)"
    using cons.prems kv n cons.hyps(1)
    by (intro cons.prems(1) [of k]) (auto simp: js_join_Cons is_num_char_def is_digit_def json_quote_def)
  obtain k' v' kvs' where kvs: "kvs = (k', v') # kvs'" using cons.hyps(1) by (cases kvs) auto
  have ws: "json_ws (lf # ind @ ?J @ lf # ind0 @ CHR ''}'' # rest) = ?J @ lf # ind0 @ CHR ''}'' # rest"
    using ind kvs by (cases kvs') (simp_all add: json_ws_indent json_quote_def is_json_ws_def)
  have sep: "jsep ?tail = Some (CHR '','', lf # ind @ ?J @ lf # ind0 @ CHR ''}'' # rest)"
    by (simp add: jsep_def json_ws_stop is_json_ws_def)
  have IH': "jv n' (stringify ind' v @ rest') = Some (v, rest')"
    if "(k, v) \<in> set kvs" "set ind' \<subseteq> {CHR '' ''}" "rest' = [] \<or> \<not> is_num_char (hd rest')"
      "2 * length (stringify ind' v @ rest') < n'" for k v ind' rest' n'
    using that by (intro cons.prems(1) [of k]) auto
  have rec: "jmembers m (?J @ lf # ind0 @ CHR ''}'' # rest) = Some (kvs, rest)"
    using cons.prems n cons.hyps(1) by (intro cons.IH [OF IH']) (auto simp: js_join_Cons json_quote_def)
  show ?case using kv n val sep ws rec cons.hyps(1)
    by (simp add: jkey_member [OF wfv] js_join_Cons)
qed

lemma jelems_join:
  assumes "vs \<noteq> []"
    and IH: "\<And>v ind' rest' n'. v \<in> set vs \<Longrightarrow> set ind' \<subseteq> {CHR '' ''} \<Longrightarrow>
      rest' = [] \<or> \<not> is_num_char (hd rest') \<Longrightarrow> 2 * length (stringify ind' v @ rest') < n' \<Longrightarrow>
      jv n' (stringify ind' v @ rest') = Some (v, rest')"
    and ind: "set ind \<subseteq> {CHR '' ''}" and ind0: "set ind0 \<subseteq> {CHR '' ''}"
    and wf: "\<forall>v \<in> set vs. json_wf v"
    and "2 * length (js_join (CHR '','' # lf # ind) (map (stringify ind) vs) @ lf # ind0 @ CHR '']'' # rest) + 1 < n"
  shows "jelems n (js_join (CHR '','' # lf # ind) (map (stringify ind) vs) @ lf # ind0 @ CHR '']'' # rest)
           = Some (vs, rest)"
  using assms
proof (induction vs arbitrary: n rule: list_nonempty_induct)
  case (single v)
  obtain m where n: "n = Suc m" using single.prems(5) by (cases n) auto
  let ?tail = "lf # ind0 @ CHR '']'' # rest"
  have val: "jv m (stringify ind v @ ?tail) = Some (v, ?tail)"
    using single.prems n by (intro single.prems(1)) (auto simp: lf_def is_num_char_def is_digit_def)
  have sep: "jsep ?tail = Some (CHR '']'', rest)"
    using ind0 by (simp add: jsep_indent is_json_ws_def)
  show ?case using n val sep by simp
next
  case (cons v vs)
  obtain m where n: "n = Suc m" using cons.prems(5) by (cases n) auto
  let ?J = "js_join (CHR '','' # lf # ind) (map (stringify ind) vs)"
  let ?tail = "CHR '','' # lf # ind @ ?J @ lf # ind0 @ CHR '']'' # rest"
  have val: "jv m (stringify ind v @ ?tail) = Some (v, ?tail)"
    using cons.prems n cons.hyps(1)
    by (intro cons.prems(1)) (auto simp: js_join_Cons is_num_char_def is_digit_def)
  obtain v' vs' where vs: "vs = v' # vs'" using cons.hyps(1) by (cases vs) auto
  have wf': "json_wf v'" using cons.prems(4) vs by simp
  obtain c u where hd: "stringify ind v' = c # u" "\<not> is_json_ws c"
    using stringify_hd [OF wf'] by blast
  have ws: "json_ws (lf # ind @ ?J @ lf # ind0 @ CHR '']'' # rest) = ?J @ lf # ind0 @ CHR '']'' # rest"
    using ind vs hd by (cases vs') (simp_all add: json_ws_indent)
  have sep: "jsep ?tail = Some (CHR '','', lf # ind @ ?J @ lf # ind0 @ CHR '']'' # rest)"
    by (simp add: jsep_def json_ws_stop is_json_ws_def)
  have IH': "jv n' (stringify ind' w @ rest') = Some (w, rest')"
    if "w \<in> set vs" "set ind' \<subseteq> {CHR '' ''}" "rest' = [] \<or> \<not> is_num_char (hd rest')"
      "2 * length (stringify ind' w @ rest') < n'" for w ind' rest' n'
    using that by (intro cons.prems(1)) auto
  have rec: "jelems m (?J @ lf # ind0 @ CHR '']'' # rest) = Some (vs, rest)"
    using cons.prems n cons.hyps(1) by (intro cons.IH [OF IH']) (auto simp: js_join_Cons)
  show ?case using n val sep ws rec cons.hyps(1) by (simp add: js_join_Cons)
qed

lemma js_join_Cons_if: "js_join sep (w # ws) = w @ (if ws = [] then [] else sep @ js_join sep ws)"
  by (cases ws) simp_all

lemma json_ws_indent_gap:
  "set ind \<subseteq> {CHR '' ''} \<Longrightarrow> \<not> is_json_ws c \<Longrightarrow> json_ws (lf # ind @ gap @ c # t) = c # t"
  using json_ws_indent [of "ind @ gap" c t] by (simp add: gap_def)

lemma num_stop:
  "rest = [] \<or> \<not> is_num_char (hd rest) \<Longrightarrow>
   takeWhile is_num_char rest = [] \<and> dropWhile is_num_char rest = rest"
  by (cases rest) simp_all

lemma num_start:
  "c = CHR ''-'' \<or> is_digit c \<Longrightarrow>
   c \<noteq> CHR ''{'' \<and> c \<noteq> CHR ''['' \<and> c \<noteq> CHR 0x22 \<and> c \<noteq> CHR ''n'' \<and> c \<noteq> CHR ''t'' \<and> c \<noteq> CHR ''f''"
  by (auto simp: is_digit_def)

lemma jscalar_num_eq:
  "takeWhile is_num_char (l @ rest) = l \<Longrightarrow> dropWhile is_num_char (l @ rest) = rest \<Longrightarrow>
   json_number_ok l \<Longrightarrow> c \<noteq> CHR 0x22 \<Longrightarrow> c \<noteq> CHR ''n'' \<Longrightarrow> c \<noteq> CHR ''t'' \<Longrightarrow>
   c \<noteq> CHR ''f'' \<Longrightarrow> l = c # t \<Longrightarrow> jscalar (l @ rest) = Some (JNum l, rest)"
  unfolding jscalar_def Let_def by simp

lemma jscalar_num:
  assumes "json_wf (JNum l)" and "rest = [] \<or> \<not> is_num_char (hd rest)"
  shows "jv (Suc m) (l @ rest) = Some (JNum l, rest)"
proof -
  have ok: "json_number_ok l" and all: "\<forall>x \<in> set l. is_num_char x" using assms(1) by simp_all
  obtain c t where l: "l = c # t" and c: "c = CHR ''-'' \<or> is_digit c"
    using json_number_ok_hd [OF ok] by blast
  have tw: "takeWhile is_num_char (l @ rest) = l" "dropWhile is_num_char (l @ rest) = rest"
    using all num_stop [OF assms(2)] by (simp_all add: takeWhile_append2 dropWhile_append2)
  note cs = num_start [OF c]
  have "jscalar (l @ rest) = Some (JNum l, rest)"
    using cs by (intro jscalar_num_eq [OF tw ok _ _ _ _ l]) simp_all
  with cs l show ?thesis by simp
qed

lemma jv_stringify:
  "json_wf v \<Longrightarrow> set ind \<subseteq> {CHR '' ''} \<Longrightarrow> rest = [] \<or> \<not> is_num_char (hd rest) \<Longrightarrow>
   2 * length (stringify ind v @ rest) < n \<Longrightarrow> jv n (stringify ind v @ rest) = Some (v, rest)"
proof (induction v arbitrary: ind rest n)
  case JNull
  then obtain m where "n = Suc m" by (cases n) auto
  then show ?case by (simp add: jscalar_def)
next
  case (JBool b)
  then obtain m where "n = Suc m" by (cases n) auto
  then show ?case by (cases b) (simp_all add: jscalar_def)
next
  case (JStr s)
  then obtain m where "n = Suc m" by (cases n) auto
  then show ?case by (simp add: json_quote_def jscalar_def lex_string_quote)
next
  case (JNum l)
  then obtain m where n: "n = Suc m" by (cases n) auto
  show ?case using jscalar_num [OF JNum.prems(1,3)] n by simp
next
  case (JArr vs)
  then obtain m where n: "n = Suc m" by (cases n) auto
  show ?case
  proof (cases "vs = []")
    case True
    then show ?thesis using n by (simp add: jsep_def json_ws_stop is_json_ws_def)
  next
    case False
    then obtain v' vs' where vs: "vs = v' # vs'" by (cases vs) auto
    obtain c u where hd: "stringify (ind @ gap) v' = c # u" "\<not> is_json_ws c" "c \<noteq> CHR '']''"
      using stringify_hd [of v' "ind @ gap"] JArr.prems(1) vs by auto
    let ?J = "js_join (CHR '','' # lf # ind @ gap) (map (stringify (ind @ gap)) vs)"
    obtain X where J: "?J = c # X" using hd vs by (simp add: js_join_Cons_if)
    have el: "jelems m (?J @ lf # ind @ CHR '']'' # rest) = Some (vs, rest)"
      using JArr.prems n False by (intro jelems_join JArr.IH) (auto simp: gap_def)
    have "jsep (lf # ind @ gap @ ?J @ lf # ind @ CHR '']'' # rest) = Some (c, X @ lf # ind @ CHR '']'' # rest)"
      using J hd JArr.prems(2) by (simp add: jsep_def json_ws_indent_gap)
    moreover have "json_ws (lf # ind @ gap @ ?J @ lf # ind @ CHR '']'' # rest) = ?J @ lf # ind @ CHR '']'' # rest"
      using J hd JArr.prems(2) by (simp add: json_ws_indent_gap)
    ultimately show ?thesis using n False el hd J by simp
  qed
next
  case (JObj kvs)
  then obtain m where n: "n = Suc m" by (cases n) auto
  show ?case
  proof (cases "kvs = []")
    case True
    then show ?thesis using n by (simp add: jsep_def json_ws_stop is_json_ws_def)
  next
    case False
    let ?J = "js_join (CHR '','' # lf # ind @ gap) (map (\<lambda>(k, v). json_quote k @ '': '' @ stringify (ind @ gap) v) kvs)"
    obtain k v kvs' where kvs: "kvs = (k, v) # kvs'" using False by (cases kvs) auto
    obtain X where J: "?J = CHR 0x22 # X" using kvs by (simp add: js_join_Cons_if json_quote_def)
    have mem: "jmembers m (?J @ lf # ind @ CHR ''}'' # rest) = Some (kvs, rest)"
      using JObj.prems n False by (intro jmembers_join JObj.IH) (auto simp: gap_def)
    have "jsep (lf # ind @ gap @ ?J @ lf # ind @ CHR ''}'' # rest) = Some (CHR 0x22, X @ lf # ind @ CHR ''}'' # rest)"
      using J JObj.prems(2) by (simp add: jsep_def json_ws_indent_gap is_json_ws_def)
    moreover have "json_ws (lf # ind @ gap @ ?J @ lf # ind @ CHR ''}'' # rest) = ?J @ lf # ind @ CHR ''}'' # rest"
      using J JObj.prems(2) by (simp add: json_ws_indent_gap is_json_ws_def)
    ultimately show ?thesis using n False mem J by simp
  qed
qed

lemma json_parse_fuel:
  assumes "2 * length s < n"
  shows "json_parse s =
           (case jv n (json_ws s) of Some (v, r) \<Rightarrow> if json_ws r = [] then Some v else None | None \<Rightarrow> None)"
proof -
  have a: "2 * length (json_ws s) < n" and b: "2 * length (json_ws s) < Suc (2 * length s)"
    using assms length_json_ws [of s] by linarith+
  show ?thesis unfolding json_parse_def jv_fuel [OF a] jv_fuel [OF b] ..
qed

lemma json_parse_stringify: "json_wf v \<Longrightarrow> json_parse (stringify [] v) = Some v"
proof -
  assume wf: "json_wf v"
  obtain c t where hd: "stringify [] v = c # t" "\<not> is_json_ws c"
    using stringify_hd [OF wf] by blast
  have "jv (Suc (2 * length (stringify [] v))) (stringify [] v @ []) = Some (v, [])"
    using wf by (intro jv_stringify) simp_all
  then show ?thesis using hd by (simp add: json_parse_def json_ws_stop json_ws_def)
qed

end
