(* ===== verification/Spec2Isabelle.thy ===== *)
theory Spec2Isabelle
  imports Blocklist World Port Session Profile Commands Output
begin

text \<open>
  \<^bold>\<open>A verification model of agent-browse.\<close>

  The repository is a command-line tool that drives a local Chrome through the Chrome
  DevTools Protocol (CDP) for an AI agent. Its logic is in two TypeScript modules, stored
  one after the other in \<open>src/src/cli.ts\<close>: \<open>cli.ts\<close> (lines 1--429) and
  \<open>security.ts\<close> (lines 430--591). \<open>src/browser.sh\<close> only execs Node on the compiled
  CLI. Each CLI invocation is a process: it checks the API key, computes the persisted CDP
  port, prepares the persistent profile, dispatches one command, and exits. The commands
  \<open>navigate\<close> and \<open>act\<close> first consult the blocklist; every browser command then obtains a
  browser session (\<open>initBrowser\<close>), which probes the port and spawns Chrome when nothing
  answers; \<open>close\<close> and every thrown error run \<open>closeBrowser\<close>. Separate invocations share
  only the files \<open>.cdp-port\<close>, \<open>.chrome-pid\<close> and the directory \<open>.chrome-profile\<close>.

  \<^bold>\<open>Theories and what they model.\<close>
  \<^item> \<open>Prelude\<close>: the JavaScript string operations (\<open>toLowerCase\<close>, \<open>startsWith\<close>,
    \<open>endsWith\<close>, \<open>includes\<close>, \<open>trim\<close>, \<open>join\<close>, \<open>String(n)\<close>) as executable functions
    over 8-bit code units (\<open>trim\<close> and \<open>\s\<close> include U+00A0)
    with the lemmas linking them to \<^const>\<open>prefix\<close>, \<^const>\<open>suffix\<close> and
    \<^const>\<open>sublist\<close>; the collections \<open>eval_simps\<close>, \<open>str_simps\<close>, \<open>js_simps\<close>.
  \<^item> \<open>Url\<close>: the part of the WHATWG URL parser (\<open>new URL\<close>, a Node library) that the
    blocklist reads, modelled from the URL standard.
  \<^item> \<open>Blocklist\<close>: all of \<open>security.ts\<close> but the profile cleanup: \<open>BLOCKED_DOMAINS\<close>
    as an explicit argument \<open>bl\<close>, \<open>getBlockedDomain\<close>, the global regular-expression
    scan of \<open>actionReferencesBlockedDomain\<close> as the terminating function
    \<open>extract_urls\<close>, the runtime mutations returning the new array,
    and \<open>getRandomCdpPort\<close> with the draw of \<open>Math.random()\<close> as argument.
  \<^item> \<open>World\<close>: the state of a run as a record \<open>st\<close>: the files and directories under
    the plugin root, the process table, the clock, the answers the outside world will give
    (CDP probes, engine faults, the Chrome path, the next pid, the random draw, ...), the
    trace of effects, and the module-level variables of \<open>cli.ts\<close> (lines 38--41). An
    async function is an exception-state program \<open>'a js\<close> (\<open>Inl\<close> = thrown message);
    \<open>await\<close>, \<open>try/catch\<close>, \<open>try/finally\<close> are \<open>bindJ\<close>, \<open>catchJ\<close>, \<open>finallyJ\<close>. Two
    program properties closed under the combinators carry most proofs: \<open>nothrowJ\<close> and
    \<open>keepsJ R\<close> for a preorder \<open>R\<close> between start and end state (introduction rules in
    the collection \<open>prog_intros\<close>).
  \<^item> \<open>Port\<close>: \<open>getCdpPort\<close> (lines 43--56) with \<open>parseInt(s, 10)\<close>.
  \<^item> \<open>Session\<close>: \<open>initBrowser\<close> (58--170) and \<open>closeBrowser\<close> (172--245), their loops,
    the PID record, the session invariant and the preorders used to prove what shutdown
    may change (\<open>kill_guard\<close>, \<open>same_glob\<close>, \<open>owns_same\<close>, \<open>inv_rel\<close>).
  \<^item> \<open>Profile\<close>: \<open>cleanupChromeProfile\<close> (551--561) and \<open>prepareChromeProfile\<close>, which is
    in \<open>browser-utils.ts\<close> (not part of the sources) and is modelled from the spec.
  \<^item> \<open>Commands\<close>: the five browser commands, the \<open>close\<close> case, the \<open>switch\<close> and
    \<open>catch\<close> of \<open>main\<close> (356--416), one process run \<open>cli_run\<close> with its outcome and exit
    code, the signal handlers, and the process as a step relation \<open>proc_step\<close> (commands,
    signals, changes of the world by other processes). \<open>takeScreenshot\<close> writes the
    screenshot file of the world.
  \<^item> \<open>Json\<close>: \<open>JSON.stringify\<close> (with and without indentation) and \<open>JSON.parse\<close>, the
    ECMAScript built-ins the CLI calls, modelled from ECMA-262 over 8-bit code units.
  \<^item> \<open>Output\<close>: what \<open>main\<close> prints (lines 406--415) as a stream and a text, and the
    schema argument of \<open>extract\<close>: \<open>JSON.parse\<close> (line 380), \<open>if (schema)\<close> and
    \<open>Object.entries\<close> (305--309), which instantiate the parameter \<open>jp\<close> of \<open>main\<close>.

  \<^bold>\<open>What is proved.\<close>
  Security gating: a blocked \<open>navigate\<close> or \<open>act\<close> run never reaches the browser; the
  blocklist reports exactly the matching listed domain for listed hosts and subdomains, is
  sound, and misses hosts written with a trailing dot (a
  finding); the text scan is sound and finds isolated URLs. Lifecycle: \<open>initBrowser\<close> is
  idempotent, reuses a running Chrome without taking ownership, launches and attaches, or
  gives up after 60 polls (30 s); \<open>closeBrowser\<close> never throws, always removes the PID
  file, keeps every other file and the profile, terminates a Chrome it started, and kills by
  pid only processes named chrome; the session invariant holds in every reachable state of
  a process. Persistence: the port file round trip
  and idempotence, the PID record round trip, the profile copied once and without
  credential stores; once the profile exists a whole process writes no file but the PID
  file, the port file and the screenshot. Dispatcher: \<open>main\<close> always prints a result, with exit code 1 exactly
  when the command throws; exit codes of usage errors and unknown commands, the effect of
  \<open>close\<close>, and the behaviours where the code departs from the spec (missing
  Chrome and launch failure are exit code 0 without cleanup, the extract schema is all or
  nothing, a \<open>__proto__\<close> field is lost), recorded as findings. Output: every run of
  \<open>main\<close> prints a JSON object that parses back, with \<open>success\<close> first and an
  \<open>error\<close> exactly on failure, on standard error exactly for exit code 1; \<open>JSON.parse\<close>
  inverts \<open>JSON.stringify(v, null, 2)\<close>; the hand-written PID record is
  \<open>JSON.stringify\<close> of its object; a schema object reaches the schema builder field by
  field, and a malformed schema fails the command with a \<open>SyntaxError\<close>.

  \<^bold>\<open>Bounds and loops.\<close> Every loop of the code is bounded by a counter and is a
  structural recursion on it: 60 readiness polls 500 ms apart (\<open>wait_ready\<close>), 30 page
  checks (\<open>page_ready\<close>), the copy of the profile files; the regular-expression scan
  terminates because every match is non-empty. The one recursion with no such bound is
  \<open>JSON.parse\<close> on nested values: \<open>jv\<close> takes one unit of fuel per nested call and
  \<open>json_parse\<close> gives it \<open>2 * length s + 1\<close>. Every call consumes input or is followed
  by one that does, so this is enough: \<open>jv_fuel\<close> shows that any fuel above twice the
  input length gives the same result, and \<open>json_parse_fuel\<close> that no parse fails for
  lack of fuel.

  \<^bold>\<open>Not modelled.\<close> \<open>src/browser.sh\<close> (it only execs Node); the Stagehand engine,
  \<open>findLocalChrome\<close>, the image \<open>takeScreenshot\<close> saves, and the CDP endpoint, whose
  answers are inputs of the world; the content of the PID file is read back by
  \<open>pid_parse\<close> only in the shape \<open>initBrowser\<close> writes (another text is no pid); a
  failing \<open>unlink\<close> (the files are the CLI's own, so only a permission error could make
  it fail); the \<open>/json/version\<close> answer other than a WebSocket URL or a failure; string
  code units above 255 (a \<open>\u\<close> escape above \<open>00FF\<close> makes \<open>JSON.parse\<close> fail in the
  model); \<open>dotenv\<close> and the ES-module check, which do not change the state; the
  IDNA and IPv4/IPv6 parts of the URL standard; interleavings of two CLI processes inside
  one command (other processes act between steps only, through \<open>proc_step\<close>); the
  arrival of a signal in the middle of a command.
\<close>

end
